(* ===== verification/Prelude.thy ===== *)
theory Prelude
  imports Main "HOL-Library.Char_ord" "HOL-Library.List_Lexorder" "HOL-Library.Sublist"
begin

text \<open>
  Shared vocabulary of the development: how a Go call can end (\<open>fault\<close>), the lexicographic
  order on byte strings that etcd sorts its keys by, the generic contract of an encoder and
  its decoder (locale \<open>codec\<close>), and Go maps as association lists with distinct keys.
  A Go \<^verbatim>\<open>string\<close> or \<^verbatim>\<open>[]byte\<close> is an Isabelle \<open>string\<close>: a list of 8-bit characters.
\<close>

named_theorems go_defs \<open>definitions of small library routines, unfolded by the proofs\<close>
named_theorems key_eqs \<open>injectivity and disjointness of etcd keys\<close>

section \<open>How a call ends\<close>

text \<open>
  \<open>Status\<close> is a gRPC status error, \<open>Failure\<close> any other Go \<^verbatim>\<open>error\<close> value, \<open>Panic\<close> a run-time
  panic (nil dereference, index out of range, explicit \<^verbatim>\<open>panic\<close>), \<open>Fatal\<close> an exit of the
  process through \<^verbatim>\<open>log.Fatal\<close>.
\<close>

datatype grpc_code = Unauthenticated | Internal | InvalidArgument | AlreadyExists

datatype fault =
    Status grpc_code string
  | Failure string
  | Panic string
  | Fatal string

type_synonym 'a outcome = "fault + 'a"

fun is_panic :: "'a outcome \<Rightarrow> bool" where
  "is_panic (Inl (Panic _)) = True"
| "is_panic _ = False"

fun is_ok :: "'a outcome \<Rightarrow> bool" where
  "is_ok (Inr _) = True"
| "is_ok (Inl _) = False"

section \<open>Encoders and decoders\<close>

text \<open>
  The contract that every serialisation of the program rests on: decoding an encoded value
  gives it back. The values for which this is promised are those of \<open>valid\<close>.
\<close>

locale codec =
  fixes valid :: "'a \<Rightarrow> bool"
    and enc :: "'a \<Rightarrow> 'b"
    and dec :: "'b \<Rightarrow> 'a option"
  assumes dec_enc: "valid x \<Longrightarrow> dec (enc x) = Some x"
begin

lemma enc_inject: "valid x \<Longrightarrow> valid y \<Longrightarrow> enc x = enc y \<Longrightarrow> x = y"
  using dec_enc by (metis option.inject)

lemma enc_inj_on: "inj_on enc {x. valid x}"
  by (auto intro!: inj_onI dest: enc_inject)

lemma dec_enc_the: "valid x \<Longrightarrow> the (dec (enc x)) = x"
  by (simp add: dec_enc)

end

section \<open>Byte strings in lexicographic order\<close>

lemma append_less_append [simp]: "p @ x < p @ y \<longleftrightarrow> x < (y :: 'a :: linorder list)"
  by (induction p) auto

lemma append_le_append [simp]: "p @ x \<le> p @ y \<longleftrightarrow> x \<le> (y :: 'a :: linorder list)"
  by (induction p) auto

lemma prefix_imp_le: "prefix p k \<Longrightarrow> p \<le> (k :: 'a :: linorder list)"
  by (auto elim!: prefixE) (metis Nil_le_Cons append.right_neutral append_le_append)

definition byte_inc :: "char \<Rightarrow> char" where
  "byte_inc c = char_of (of_char c + 1 :: nat)"

lemma of_char_byte_inc: "of_char c < (255 :: nat) \<Longrightarrow> of_char (byte_inc c) = (of_char c + 1 :: nat)"
  by (simp add: byte_inc_def)

lemma byte_inc_gap:
  assumes "of_char c < (255 :: nat)"
  shows "c \<le> d \<and> d < byte_inc c \<longleftrightarrow> d = c"
proof -
  have "c \<le> d \<and> d < byte_inc c \<longleftrightarrow> of_char d = (of_char c :: nat)"
    unfolding less_eq_char_def less_char_def of_char_byte_inc [OF assms] by linarith
  then show ?thesis by simp
qed

lemma byte_less_byte_inc: "of_char c < (255 :: nat) \<Longrightarrow> c < byte_inc c"
  by (simp add: less_char_def of_char_byte_inc)

text \<open>
  The strings between \<open>q @ [c]\<close> and \<open>q @ [c + 1]\<close> are exactly those that start with
  \<open>q @ [c]\<close>: what makes a half-open key range a prefix query.
\<close>

lemma snoc_interval_prefix:
  assumes "of_char c < (255 :: nat)"
  shows "q @ [c] \<le> k \<and> k < q @ [byte_inc c] \<longleftrightarrow> prefix (q @ [c]) k"
proof (induction q arbitrary: k)
  case Nil
  show ?case
  proof (cases k)
    case Nil
    then show ?thesis by simp
  next
    case (Cons d ds)
    have "c < d \<or> c = d \<longleftrightarrow> c \<le> d" by auto
    moreover have "c < byte_inc c" using assms by (rule byte_less_byte_inc)
    moreover note byte_inc_gap [OF assms, of d]
    ultimately show ?thesis using Cons by auto
  qed
next
  case (Cons a q)
  show ?case
  proof (cases k)
    case Nil
    then show ?thesis by simp
  next
    case (Cons d ds)
    have "a < d \<and> d < a \<longleftrightarrow> False" by auto
    with Cons Cons.IH [of ds] show ?thesis by auto
  qed
qed

section \<open>Go maps\<close>

text \<open>
  A Go map is an association list with distinct keys. The order of the list is not
  observable: wherever the code ranges over a map, the model takes the iteration order as a
  parameter that may permute the entries.
\<close>

type_synonym ('k, 'v) gomap = "('k \<times> 'v) list"

fun map_put :: "'k \<Rightarrow> 'v \<Rightarrow> ('k, 'v) gomap \<Rightarrow> ('k, 'v) gomap" where
  "map_put k v [] = [(k, v)]"
| "map_put k v ((k', v') # m) = (if k' = k then (k, v) # m else (k', v') # map_put k v m)"

definition map_del :: "'k \<Rightarrow> ('k, 'v) gomap \<Rightarrow> ('k, 'v) gomap" where
  "map_del k m = filter (\<lambda>p. fst p \<noteq> k) m"

definition gomap_ok :: "('k, 'v) gomap \<Rightarrow> bool" where
  "gomap_ok m \<longleftrightarrow> distinct (map fst m)"

lemma keys_map_put [simp]: "fst ` set (map_put k v m) = insert k (fst ` set m)"
  by (induction m rule: map_put.induct [of _ k v]) auto

lemma gomap_ok_put [simp]: "gomap_ok m \<Longrightarrow> gomap_ok (map_put k v m)"
  unfolding gomap_ok_def
  by (induction k v m rule: map_put.induct) (auto simp flip: set_map simp del: keys_map_put,
      metis insert_iff keys_map_put list.set_map)

lemma gomap_ok_del [simp]: "gomap_ok m \<Longrightarrow> gomap_ok (map_del k m)"
  by (simp add: gomap_ok_def map_del_def distinct_map_filter)

lemma gomap_ok_Nil [simp]: "gomap_ok []"
  by (simp add: gomap_ok_def)

lemma map_of_map_put [simp]: "map_of (map_put k v m) = (map_of m)(k \<mapsto> v)"
  by (induction k v m rule: map_put.induct) (auto simp: fun_eq_iff)

lemma map_of_map_del [simp]: "map_of (map_del k m) = (map_of m)(k := None)"
  by (induction m) (auto simp: map_del_def fun_eq_iff)

lemma length_map_put: "length (map_put k v m) = (if k \<in> fst ` set m then length m else Suc (length m))"
  by (induction k v m rule: map_put.induct) auto

lemma gomap_ok_length: "gomap_ok m \<Longrightarrow> length m = card (fst ` set m)"
  unfolding gomap_ok_def by (metis distinct_card length_map list.set_map)

section \<open>The first of the greatest\<close>

text \<open>A loop that replaces its choice when something is strictly greater.\<close>

fun first_max :: "('a \<Rightarrow> 'b :: linorder) \<Rightarrow> 'a \<Rightarrow> 'a list \<Rightarrow> 'a" where
  "first_max f best [] = best"
| "first_max f best (x # xs) = first_max f (if f best < f x then x else best) xs"

lemma first_max_ge: "f best \<le> f (first_max f best xs)"
  by (induction xs arbitrary: best) (auto intro: order_trans less_imp_le)

lemma first_max_greatest: "x \<in> set xs \<Longrightarrow> f x \<le> f (first_max f best xs)"
proof (induction xs arbitrary: best)
  case (Cons y ys)
  have "f y \<le> f (if f best < f y then y else best)" by (simp add: not_less)
  then have "f y \<le> f (first_max f (if f best < f y then y else best) ys)" by (rule order_trans) (rule first_max_ge)
  with Cons show ?case by auto
qed simp

lemma first_max_keeps: "\<forall>x \<in> set xs. f x \<le> f best \<Longrightarrow> first_max f best xs = best"
  by (induction xs) (auto simp: not_less)

lemma first_max_first:
  assumes "f best < f (first_max f best xs)"
  shows "\<exists>us ws. xs = us @ first_max f best xs # ws \<and> (\<forall>u \<in> set us. f u < f (first_max f best xs))"
  using assms
proof (induction xs arbitrary: best)
  case (Cons y ys)
  let ?b = "if f best < f y then y else best"
  show ?case
  proof (cases "f ?b < f (first_max f ?b ys)")
    case True
    then obtain us ws where "ys = us @ first_max f ?b ys # ws" "\<forall>u \<in> set us. f u < f (first_max f ?b ys)"
      using Cons.IH by blast
    moreover have "f y < f (first_max f ?b ys)" using True by (auto split: if_splits)
    ultimately show ?thesis by (intro exI [of _ "y # us"] exI [of _ ws]) simp
  next
    case False
    then have b: "first_max f ?b ys = ?b"
      using first_max_greatest [of _ ys f ?b] by (intro first_max_keeps) (metis dual_order.trans not_le)
    with Cons.prems have "first_max f best (y # ys) = y" by (auto split: if_splits)
    then show ?thesis by (intro exI [of _ "[]"] exI [of _ ys]) simp
  qed
qed simp

end
