(* ===== verification/GoLib.thy ===== *)
theory GoLib
  imports Prelude
begin

text \<open>
  The pieces of Go's standard library that the program calls on plain strings and numbers:
  decimal printing (\<^verbatim>\<open>%d\<close>), \<^verbatim>\<open>strconv.ParseUint\<close> and \<^verbatim>\<open>ParseInt\<close> with their range
  behaviour, \<^verbatim>\<open>strings.Split\<close>, \<^verbatim>\<open>SplitN\<close>, \<^verbatim>\<open>CutSuffix\<close>, \<^verbatim>\<open>CutPrefix\<close>, \<^verbatim>\<open>ReplaceAll\<close> and
  \<^verbatim>\<open>net.SplitHostPort\<close>. Each has the lemma its callers need: printing and parsing are
  inverse, joining and splitting are inverse on parts without the separator.
\<close>

section \<open>Decimal numbers\<close>

definition digit_char :: "nat \<Rightarrow> char" where
  "digit_char d = char_of (48 + d)"

definition is_digit :: "char \<Rightarrow> bool" where
  "is_digit c \<longleftrightarrow> 48 \<le> (of_char c :: nat) \<and> (of_char c :: nat) \<le> 57"

definition digit_val :: "char \<Rightarrow> nat" where
  "digit_val c = of_char c - 48"

fun show_nat :: "nat \<Rightarrow> string" where
  "show_nat n = (if n < 10 then [digit_char n] else show_nat (n div 10) @ [digit_char (n mod 10)])"

declare show_nat.simps [simp del]

definition show_int :: "int \<Rightarrow> string" where
  "show_int i = (if i < 0 then ''-'' @ show_nat (nat (- i)) else show_nat (nat i))"

lemma is_digit_digit_char [simp]: "d < 10 \<Longrightarrow> is_digit (digit_char d)"
  by (simp add: is_digit_def digit_char_def)

lemma digit_val_digit_char [simp]: "d < 10 \<Longrightarrow> digit_val (digit_char d) = d"
  by (simp add: digit_val_def digit_char_def)

lemma show_nat_digits: "list_all is_digit (show_nat n)"
proof (induction n rule: show_nat.induct)
  case (1 n)
  then show ?case by (subst show_nat.simps) auto
qed

lemma show_nat_not_Nil [simp]: "show_nat n \<noteq> []"
  by (subst show_nat.simps) simp

lemma digit_not_special:
  assumes "is_digit c"
  shows "c \<noteq> CHR ''-''" "c \<noteq> CHR ''+''" "c \<noteq> CHR '':''" "c \<noteq> CHR ''/''" "c \<noteq> CHR ''.''"
    "c \<noteq> CHR '']''" "c \<noteq> CHR ''[''" "c \<noteq> CHR ''%''" "c \<noteq> CHR ''\"''" "c \<noteq> CHR '',''" "c \<noteq> CHR ''}''"
  using assms by (auto simp: is_digit_def)

lemma digit_notin_show_nat:
  assumes "\<not> is_digit c"
  shows "c \<notin> set (show_nat n)"
  using show_nat_digits [of n] assms by (auto simp: list_all_iff)

section \<open>\<^verbatim>\<open>strconv.ParseUint(s, 10, bits)\<close> and \<^verbatim>\<open>strconv.ParseInt(s, 10, bits)\<close>\<close>

datatype num_error = ErrSyntax | ErrRange

text \<open>
  \<open>maxv\<close> is \<^verbatim>\<open>1<<bitSize - 1\<close>. The loop stops at the first value beyond it and then returns
  \<open>maxv\<close> with \<open>ErrRange\<close>, whatever follows; on a syntax error the value is 0.
\<close>

fun parse_uint_loop :: "nat \<Rightarrow> nat \<Rightarrow> string \<Rightarrow> nat \<times> num_error option" where
  "parse_uint_loop maxv n [] = (n, None)"
| "parse_uint_loop maxv n (c # cs) =
     (if \<not> is_digit c then (0, Some ErrSyntax)
      else if maxv < n * 10 + digit_val c then (maxv, Some ErrRange)
      else parse_uint_loop maxv (n * 10 + digit_val c) cs)"

definition parse_uint :: "nat \<Rightarrow> string \<Rightarrow> nat \<times> num_error option" where
  "parse_uint bits s = (if s = [] then (0, Some ErrSyntax) else parse_uint_loop (2 ^ bits - 1) 0 s)"

definition parse_int :: "nat \<Rightarrow> string \<Rightarrow> int \<times> num_error option" where
  "parse_int bits s =
     (case s of
        [] \<Rightarrow> (0, Some ErrSyntax)
      | c # cs \<Rightarrow>
          let neg = (c = CHR ''-'');
              body = (if c = CHR ''+'' \<or> c = CHR ''-'' then cs else s);
              (un, err) = parse_uint bits body;
              cutoff = 2 ^ (bits - 1)
          in if err = Some ErrSyntax then (0, err)
             else if \<not> neg \<and> cutoff \<le> un then (int cutoff - 1, Some ErrRange)
             else if neg \<and> cutoff < un then (- int cutoff, Some ErrRange)
             else (if neg then - int un else int un, None))"

fun dec_val :: "nat \<Rightarrow> string \<Rightarrow> nat" where
  "dec_val n [] = n"
| "dec_val n (c # cs) = dec_val (n * 10 + digit_val c) cs"

lemma dec_val_append: "dec_val n (xs @ ys) = dec_val (dec_val n xs) ys"
  by (induction xs arbitrary: n) auto

lemma dec_val_show_nat: "dec_val 0 (show_nat n) = n"
proof (induction n rule: show_nat.induct)
  case (1 n)
  then show ?case by (subst show_nat.simps) (auto simp: dec_val_append)
qed

lemma dec_val_ge: "n \<le> dec_val n s"
proof (induction s arbitrary: n)
  case (Cons c s)
  have "n * 10 + digit_val c \<le> dec_val (n * 10 + digit_val c) s" by (rule Cons.IH)
  then show ?case by simp
qed simp

lemma parse_uint_loop_ok:
  "list_all is_digit s \<Longrightarrow> dec_val n s \<le> maxv \<Longrightarrow> parse_uint_loop maxv n s = (dec_val n s, None)"
proof (induction s arbitrary: n)
  case (Cons c s)
  have "n * 10 + digit_val c \<le> dec_val (n * 10 + digit_val c) s" by (rule dec_val_ge)
  with Cons show ?case by simp
qed simp

lemma parse_uint_loop_le: "n \<le> maxv \<Longrightarrow> fst (parse_uint_loop maxv n s) \<le> maxv"
  by (induction maxv n s rule: parse_uint_loop.induct) auto

lemma parse_uint_bound: "fst (parse_uint bits s) < 2 ^ bits"
proof -
  have "fst (parse_uint_loop (2 ^ bits - 1) 0 s) \<le> 2 ^ bits - 1"
    by (rule parse_uint_loop_le) simp
  moreover have "0 < (2 :: nat) ^ bits" by simp
  ultimately have "fst (parse_uint_loop (2 ^ bits - 1) 0 s) < 2 ^ bits" by linarith
  then show ?thesis by (simp add: parse_uint_def)
qed

lemma parse_uint_show_nat: "n < 2 ^ bits \<Longrightarrow> parse_uint bits (show_nat n) = (n, None)"
  unfolding parse_uint_def
  using parse_uint_loop_ok [OF show_nat_digits [of n], of 0 "2 ^ bits - 1"]
  by (simp add: dec_val_show_nat)

lemma show_nat_hd: "show_nat n = c # cs \<Longrightarrow> is_digit c"
  using show_nat_digits [of n] by simp

lemma parse_int_show_nat:
  assumes "n < 2 ^ (bits - 1)" "0 < bits"
  shows "parse_int bits (show_nat n) = (int n, None)"
proof (cases "show_nat n")
  case Nil
  then show ?thesis by simp
next
  case (Cons c cs)
  have "n < 2 ^ bits" using assms by (meson diff_le_self less_le_trans one_le_numeral power_increasing)
  with Cons have u: "parse_uint bits (c # cs) = (n, None)" by (metis parse_uint_show_nat)
  from Cons have "is_digit c" by (rule show_nat_hd)
  with assms u show ?thesis
    unfolding parse_int_def Cons by (simp add: digit_not_special Let_def)
qed

lemma parse_int_show_int:
  assumes "- (2 ^ (bits - 1)) \<le> i" "i < 2 ^ (bits - 1)" "0 < bits"
  shows "parse_int bits (show_int i) = (i, None)"
proof (cases "i < 0")
  case True
  define m where "m = nat (- i)"
  have m: "m \<le> 2 ^ (bits - 1)" "i = - int m" using assms True by (auto simp: m_def nat_le_iff)
  moreover have "(2 :: nat) ^ (bits - 1) < 2 ^ bits" using assms by simp
  ultimately have "parse_uint bits (show_nat m) = (m, None)"
    by (intro parse_uint_show_nat) (meson le_less_trans)
  with m True show ?thesis by (simp add: show_int_def parse_int_def flip: m_def)
next
  case False
  then have "nat i < 2 ^ (bits - 1)" using assms by (simp add: nat_less_iff)
  with False show ?thesis by (simp add: show_int_def parse_int_show_nat assms)
qed

text \<open>Decimal printing and parsing are a codec, for each width.\<close>

definition parse_int_opt :: "nat \<Rightarrow> string \<Rightarrow> int option" where
  "parse_int_opt bits s = (case parse_int bits s of (i, None) \<Rightarrow> Some i | (_, Some _) \<Rightarrow> None)"

interpretation int64_dec: codec "\<lambda>i. - (2 ^ 63) \<le> i \<and> i < 2 ^ 63" show_int "parse_int_opt 64"
proof unfold_locales
  fix i :: int
  assume "- (2 ^ 63) \<le> i \<and> i < 2 ^ 63"
  then have "parse_int 64 (show_int i) = (i, None)" by (intro parse_int_show_int) auto
  then show "parse_int_opt 64 (show_int i) = Some i" by (simp add: parse_int_opt_def)
qed

section \<open>Splitting and joining\<close>

text \<open>\<^verbatim>\<open>strings.Split(s, sep)\<close> for a one-byte separator.\<close>

fun split_on :: "char \<Rightarrow> string \<Rightarrow> string list" where
  "split_on c [] = [[]]"
| "split_on c (x # xs) =
     (if x = c then [] # split_on c xs
      else (case split_on c xs of [] \<Rightarrow> [[x]] | p # ps \<Rightarrow> (x # p) # ps))"

text \<open>The parts joined by the separator (\<^verbatim>\<open>strings.Join\<close>).\<close>

fun join_with :: "string \<Rightarrow> string list \<Rightarrow> string" where
  "join_with sep [] = []"
| "join_with sep [p] = p"
| "join_with sep (p # q # ps) = p @ sep @ join_with sep (q # ps)"

lemma split_on_not_Nil [simp]: "split_on c s \<noteq> []"
  by (induction s) (auto split: list.splits)

lemma length_split_on: "1 \<le> length (split_on c s)"
  using split_on_not_Nil [of c s] by (cases "split_on c s") auto

lemma split_on_no_sep: "c \<notin> set p \<Longrightarrow> split_on c p = [p]"
  by (induction p) auto

lemma split_on_append: "c \<notin> set p \<Longrightarrow> split_on c (p @ c # s) = p # split_on c s"
  by (induction p) auto

lemma split_join: "ps \<noteq> [] \<Longrightarrow> list_all (\<lambda>p. c \<notin> set p) ps \<Longrightarrow> split_on c (join_with [c] ps) = ps"
  by (induction ps rule: induct_list012) (auto simp: split_on_no_sep split_on_append)

interpretation split_codec: codec
  "\<lambda>ps. ps \<noteq> [] \<and> list_all (\<lambda>p. c \<notin> set p) ps" "join_with [c]" "\<lambda>s. Some (split_on c s)"
  for c :: char
  by unfold_locales (auto simp: split_join)

text \<open>The first occurrence of \<open>sep\<close> (\<^verbatim>\<open>SplitN(s, sep, 2)\<close>, \<^verbatim>\<open>strings.Cut\<close>): \<open>None\<close> if there is none.\<close>

fun split_first :: "string \<Rightarrow> string \<Rightarrow> (string \<times> string) option" where
  "split_first sep [] = (if sep = [] then Some ([], []) else None)"
| "split_first sep (x # xs) =
     (if prefix sep (x # xs) then Some ([], drop (length sep) (x # xs))
      else map_option (\<lambda>(a, b). (x # a, b)) (split_first sep xs))"

definition split_n2 :: "string \<Rightarrow> string \<Rightarrow> string list" where
  "split_n2 sep s = (case split_first sep s of None \<Rightarrow> [s] | Some (a, b) \<Rightarrow> [a, b])"

lemma split_first_append:
  assumes "c \<notin> set p"
  shows "split_first (c # sep) (p @ (c # sep) @ s) = Some (p, s)"
  using assms by (induction p) auto

lemma split_first_None: "c \<notin> set s \<Longrightarrow> split_first (c # sep) s = None"
  by (induction s) auto

definition cut_suffix :: "string \<Rightarrow> string \<Rightarrow> string \<times> bool" where
  "cut_suffix s suf = (if suffix suf s then (take (length s - length suf) s, True) else (s, False))"

definition cut_prefix :: "string \<Rightarrow> string \<Rightarrow> string \<times> bool" where
  "cut_prefix s pre = (if prefix pre s then (drop (length pre) s, True) else (s, False))"

lemma cut_suffix_append [simp]: "cut_suffix (s @ suf) suf = (s, True)"
  by (simp add: cut_suffix_def suffix_def)

definition replace_char :: "char \<Rightarrow> char \<Rightarrow> string \<Rightarrow> string" where
  "replace_char a b s = map (\<lambda>x. if x = a then b else x) s"

lemma replace_char_gone: "a \<noteq> b \<Longrightarrow> a \<notin> set (replace_char a b s)"
  by (auto simp: replace_char_def)

section \<open>\<^verbatim>\<open>net.SplitHostPort\<close>\<close>

text \<open>
  Host and port of \<^verbatim>\<open>host:port\<close>, \<^verbatim>\<open>host%zone:port\<close>, \<^verbatim>\<open>[host]:port\<close> or \<^verbatim>\<open>[host%zone]:port\<close>: the port
  follows the last colon; a bracketed host ends at its first \<^verbatim>\<open>]\<close>, which that colon must
  follow; a host without brackets must not contain a colon, and no bracket may stand anywhere
  else.
\<close>

fun last_colon :: "string \<Rightarrow> (string \<times> string) option" where
  "last_colon [] = None"
| "last_colon (x # xs) =
     (case last_colon xs of
        Some (a, b) \<Rightarrow> Some (x # a, b)
      | None \<Rightarrow> if x = CHR '':'' then Some ([], xs) else None)"

definition split_host_port :: "string \<Rightarrow> (string \<times> string) outcome" where
  "split_host_port s =
     (case last_colon s of
        None \<Rightarrow> Inl (Failure ''missing port in address'')
      | Some (before, port) \<Rightarrow>
          if before \<noteq> [] \<and> hd before = CHR ''['' then
            (case split_first '']'' (tl before) of
               None \<Rightarrow> Inl (Failure (if CHR '']'' \<in> set s then ''missing port in address'' else ''missing ']' in address''))
             | Some (host, after) \<Rightarrow>
                 if after = [] then
                   (if CHR ''['' \<in> set host \<or> CHR ''['' \<in> set port then Inl (Failure ''unexpected '[' in address'')
                    else if CHR '']'' \<in> set port then Inl (Failure ''unexpected ']' in address'')
                    else Inr (host, port))
                 else if hd after = CHR '':'' then Inl (Failure ''too many colons in address'')
                 else Inl (Failure ''missing port in address''))
          else if CHR '':'' \<in> set before then Inl (Failure ''too many colons in address'')
          else if CHR ''['' \<in> set s then Inl (Failure ''unexpected '[' in address'')
          else if CHR '']'' \<in> set s then Inl (Failure ''unexpected ']' in address'')
          else Inr (before, port))"

lemma last_colon_None: "CHR '':'' \<notin> set s \<Longrightarrow> last_colon s = None"
  by (induction s) auto

lemma last_colon_append: "CHR '':'' \<notin> set p \<Longrightarrow> last_colon (h @ CHR '':'' # p) = Some (h, p)"
  by (induction h) (auto simp: last_colon_None)

lemma split_host_port_plain:
  assumes "list_all (\<lambda>c. c \<notin> {CHR '':'', CHR ''['', CHR '']''}) (h @ p)"
  shows "split_host_port (h @ CHR '':'' # p) = Inr (h, p)"
proof -
  have no: "CHR '':'' \<notin> set p" "CHR '':'' \<notin> set h" "CHR ''['' \<notin> set h" "CHR ''['' \<notin> set p"
    "CHR '']'' \<notin> set h" "CHR '']'' \<notin> set p"
    using assms by (auto simp: list_all_iff)
  then have "h \<noteq> [] \<Longrightarrow> hd h \<noteq> CHR ''[''" using hd_in_set [of h] by metis
  then show ?thesis using no unfolding split_host_port_def last_colon_append [OF no(1)] by auto
qed

end
