(* ===== verification/Utf8.thy ===== *)
theory Utf8
  imports GoLib
begin

text \<open>
  UTF-8 as Go's \<^verbatim>\<open>unicode/utf8\<close> reads it, and the string literals of \<^verbatim>\<open>encoding/json\<close>: how
  \<^verbatim>\<open>json.Marshal\<close> quotes a string and how \<^verbatim>\<open>json.Unmarshal\<close> reads it back. A byte that is not
  part of a valid encoding becomes U+FFFD, so the round trip gives \<open>to_valid s\<close>, which is \<open>s\<close>
  itself for valid UTF-8.
\<close>

section \<open>Valid encodings\<close>

definition in_range_byte :: "nat \<Rightarrow> nat \<Rightarrow> char \<Rightarrow> bool" where
  "in_range_byte lo hi c \<longleftrightarrow> lo \<le> of_char c \<and> of_char c \<le> hi"

definition cont_byte :: "char \<Rightarrow> bool" where
  "cont_byte c = in_range_byte 128 191 c"

text \<open>The size of the rune the bytes start with; 0 where \<^verbatim>\<open>utf8.DecodeRune\<close> reports an error.\<close>

definition utf8_size :: "string \<Rightarrow> nat" where
  "utf8_size s =
     (case s of
        [] \<Rightarrow> 0
      | a # r \<Rightarrow>
          if of_char a < (128 :: nat) then 1
          else if in_range_byte 194 223 a then
            (case r of b # _ \<Rightarrow> if cont_byte b then 2 else 0 | [] \<Rightarrow> 0)
          else if in_range_byte 224 239 a then
            (case r of
               b # c # _ \<Rightarrow>
                 if in_range_byte (if of_char a = (224 :: nat) then 160 else 128)
                      (if of_char a = (237 :: nat) then 159 else 191) b \<and> cont_byte c
                 then 3 else 0
             | _ \<Rightarrow> 0)
          else if in_range_byte 240 244 a then
            (case r of
               b # c # d # _ \<Rightarrow>
                 if in_range_byte (if of_char a = (240 :: nat) then 144 else 128)
                      (if of_char a = (244 :: nat) then 143 else 191) b \<and> cont_byte c \<and> cont_byte d
                 then 4 else 0
             | _ \<Rightarrow> 0)
          else 0)"

definition utf8_replacement :: string where
  "utf8_replacement = [CHR 0xEF, CHR 0xBF, CHR 0xBD]"

definition utf8_encode :: "nat \<Rightarrow> string" where
  "utf8_encode r =
     (if r < 0x80 then [char_of r]
      else if r < 0x800 then [char_of (0xC0 + r div 0x40), char_of (0x80 + r mod 0x40)]
      else if r < 0x10000 then
        [char_of (0xE0 + r div 0x1000), char_of (0x80 + r div 0x40 mod 0x40),
         char_of (0x80 + r mod 0x40)]
      else
        [char_of (0xF0 + r div 0x40000), char_of (0x80 + r div 0x1000 mod 0x40),
         char_of (0x80 + r div 0x40 mod 0x40), char_of (0x80 + r mod 0x40)])"

lemma list4_cases:
  obtains "s = []" | a where "s = [a]" | a b where "s = [a, b]" | a b c where "s = [a, b, c]"
    | a b c d r where "s = a # b # c # d # r"
  by (metis list.exhaust)

lemma utf8_size_le: "utf8_size s \<le> length s"
  by (cases s rule: list4_cases) (simp_all add: utf8_size_def)

lemma utf8_size_append: "utf8_size s \<noteq> 0 \<Longrightarrow> utf8_size (s @ t) = utf8_size s"
  by (cases s rule: list4_cases) (simp_all add: utf8_size_def split: if_splits)

lemma utf8_size_take: "utf8_size (take (utf8_size s) s) = utf8_size s"
  by (cases s rule: list4_cases) (simp_all add: utf8_size_def)

function to_valid :: "string \<Rightarrow> string" where
  "to_valid [] = []"
| "to_valid (c # cs) =
     (if utf8_size (c # cs) = 0 then utf8_replacement @ to_valid cs
      else take (utf8_size (c # cs)) (c # cs) @ to_valid (drop (utf8_size (c # cs)) (c # cs)))"
  by pat_completeness auto
termination by (relation "measure length") auto

declare to_valid.simps(2) [simp del]

function utf8_valid :: "string \<Rightarrow> bool" where
  "utf8_valid [] = True"
| "utf8_valid (c # cs) =
     (if utf8_size (c # cs) = 0 then False
      else utf8_valid (drop (utf8_size (c # cs)) (c # cs)))"
  by pat_completeness auto
termination by (relation "measure length") auto

declare utf8_valid.simps(2) [simp del]

lemma to_valid_id: "utf8_valid s \<Longrightarrow> to_valid s = s"
proof (induction s rule: to_valid.induct)
  case (2 c cs)
  then show ?case by (simp add: utf8_valid.simps(2) to_valid.simps(2) split: if_splits)
qed simp

lemma utf8_size_ascii: "of_char c < (128 :: nat) \<Longrightarrow> utf8_size (c # cs) = 1"
  by (simp add: utf8_size_def)

lemma utf8_valid_ascii: "list_all (\<lambda>c. of_char c < (128 :: nat)) s \<Longrightarrow> utf8_valid s"
  by (induction s) (auto simp: utf8_valid.simps(2) utf8_size_ascii)

section \<open>Quoting: \<^verbatim>\<open>json.Marshal\<close> of a string\<close>

definition hex_digit :: "nat \<Rightarrow> char" where
  "hex_digit d = (if d < 10 then char_of (48 + d) else char_of (87 + d))"

definition hex_val :: "char \<Rightarrow> nat option" where
  "hex_val c =
     (let n = of_char c in
      if 48 \<le> n \<and> n \<le> 57 then Some (n - 48)
      else if 97 \<le> n \<and> n \<le> 102 then Some (n - 87)
      else if 65 \<le> n \<and> n \<le> 70 then Some (n - 55) else None)"

text \<open>An ASCII byte, with \<^verbatim>\<open><\<close>, \<^verbatim>\<open>>\<close> and \<^verbatim>\<open>&\<close> escaped as \<^verbatim>\<open>Marshal\<close> does for HTML.\<close>

definition esc_byte :: "char \<Rightarrow> string" where
  "esc_byte c =
     (if c = CHR 0x22 \<or> c = CHR 0x5C then [CHR 0x5C, c]
      else if c = CHR 0x08 then [CHR 0x5C, CHR ''b''] else if c = CHR 0x0C then [CHR 0x5C, CHR ''f'']
      else if c = CHR 0x0A then [CHR 0x5C, CHR ''n''] else if c = CHR 0x0D then [CHR 0x5C, CHR ''r'']
      else if c = CHR 0x09 then [CHR 0x5C, CHR ''t'']
      else if of_char c < (32 :: nat) \<or> c = CHR ''<'' \<or> c = CHR ''>'' \<or> c = CHR ''&''
        then [CHR 0x5C, CHR ''u'', CHR ''0'', CHR ''0'', hex_digit (of_char c div 16), hex_digit (of_char c mod 16)]
      else [c])"

text \<open>The escapes \<^verbatim>\<open>\u\<close> with four hexadecimal digits.\<close>

definition u_escape :: "nat \<Rightarrow> string" where
  "u_escape r =
     [CHR 0x5C, CHR ''u'', hex_digit (r div 0x1000 mod 16), hex_digit (r div 0x100 mod 16),
      hex_digit (r div 16 mod 16), hex_digit (r mod 16)]"

function json_escape :: "string \<Rightarrow> string" where
  "json_escape [] = []"
| "json_escape (c # cs) =
     (if of_char c < (128 :: nat) then esc_byte c @ json_escape cs
      else if utf8_size (c # cs) = 0 then u_escape 0xFFFD @ json_escape cs
      else if take 3 (c # cs) = [CHR 0xE2, CHR 0x80, CHR 0xA8] then u_escape 0x2028 @ json_escape (drop 3 (c # cs))
      else if take 3 (c # cs) = [CHR 0xE2, CHR 0x80, CHR 0xA9] then u_escape 0x2029 @ json_escape (drop 3 (c # cs))
      else take (utf8_size (c # cs)) (c # cs) @ json_escape (drop (utf8_size (c # cs)) (c # cs)))"
  by pat_completeness auto
termination by (relation "measure length") auto

declare json_escape.simps(2) [simp del]

section \<open>Unquoting\<close>

fun hex4 :: "string \<Rightarrow> (nat \<times> string) option" where
  "hex4 (a # b # c # d # r) =
     (case (hex_val a, hex_val b, hex_val c, hex_val d) of
        (Some a, Some b, Some c, Some d) \<Rightarrow> Some (((a * 16 + b) * 16 + c) * 16 + d, r)
      | _ \<Rightarrow> None)"
| "hex4 _ = None"

text \<open>The second half of a surrogate pair, where one follows.\<close>

definition low_surrogate :: "string \<Rightarrow> (nat \<times> string) option" where
  "low_surrogate s =
     (if take 2 s = [CHR 0x5C, CHR ''u''] then
        (case hex4 (drop 2 s) of
           Some (r, t) \<Rightarrow> if 0xDC00 \<le> r \<and> r < 0xE000 then Some (r, t) else None
         | None \<Rightarrow> None)
      else None)"

text \<open>The rune of a \<^verbatim>\<open>\u\<close> escape whose code is \<open>r\<close>, and what is left of the input.\<close>

definition u_rune :: "nat \<Rightarrow> string \<Rightarrow> string \<times> string" where
  "u_rune r s =
     (if 0xD800 \<le> r \<and> r < 0xE000 then
        (case (if r < 0xDC00 then low_surrogate s else None) of
           Some (r2, t) \<Rightarrow> (utf8_encode ((r - 0xD800) * 0x400 + (r2 - 0xDC00) + 0x10000), t)
         | None \<Rightarrow> (utf8_replacement, s))
      else (utf8_encode r, s))"

definition simple_escape :: "char \<Rightarrow> char option" where
  "simple_escape c =
     (if c = CHR 0x22 \<or> c = CHR 0x5C \<or> c = CHR ''/'' then Some c
      else if c = CHR ''b'' then Some (CHR 0x08) else if c = CHR ''f'' then Some (CHR 0x0C)
      else if c = CHR ''n'' then Some (CHR 0x0A) else if c = CHR ''r'' then Some (CHR 0x0D)
      else if c = CHR ''t'' then Some (CHR 0x09) else None)"

lemma hex4_length: "hex4 s = Some (r, t) \<Longrightarrow> length t < length s"
  by (induction s rule: hex4.induct) (auto split: option.splits)

lemma u_rune_length: "u_rune r s = (e, t) \<Longrightarrow> length t \<le> length s"
  by (auto simp: u_rune_def low_surrogate_def dest!: hex4_length split: if_splits option.splits)

text \<open>
  The literal after its opening quote: the decoded string and the input after the closing
  quote, \<open>None\<close> where the scanner of \<^verbatim>\<open>encoding/json\<close> rejects it.
\<close>

function json_unquote :: "string \<Rightarrow> (string \<times> string) option" where
  "json_unquote [] = None"
| "json_unquote (c # cs) =
     (if c = CHR 0x22 then Some ([], cs)
      else if c = CHR 0x5C then
        (case cs of
           [] \<Rightarrow> None
         | e # es \<Rightarrow>
             if e = CHR ''u'' then
               (case hex4 es of
                  None \<Rightarrow> None
                | Some (r, t) \<Rightarrow>
                    map_option (\<lambda>(d, q). (fst (u_rune r t) @ d, q)) (json_unquote (snd (u_rune r t))))
             else (case simple_escape e of
                 None \<Rightarrow> None
               | Some x \<Rightarrow> map_option (\<lambda>(d, q). (x # d, q)) (json_unquote es)))
      else if of_char c < (32 :: nat) then None
      else if utf8_size (c # cs) = 0 then
        map_option (\<lambda>(d, q). (utf8_replacement @ d, q)) (json_unquote cs)
      else
        map_option (\<lambda>(d, q). (take (utf8_size (c # cs)) (c # cs) @ d, q))
          (json_unquote (drop (utf8_size (c # cs)) (c # cs))))"
  by pat_completeness auto
termination
proof (relation "measure length", goal_cases)
  case (2 c cs e es a r t)
  obtain y z where u: "u_rune r t = (y, z)" by fastforce
  then have "length z \<le> length t" by (rule u_rune_length)
  moreover have "length t < length es" using 2 by (auto dest: hex4_length)
  ultimately show ?case using 2 u by simp
qed auto

declare json_unquote.simps(2) [simp del]

section \<open>The round trip of a string literal\<close>

lemma hex_val_digit [simp]: "d < 16 \<Longrightarrow> hex_val (hex_digit d) = Some d"
  by (auto simp: hex_val_def hex_digit_def Let_def)

lemma hex4_u_escape:
  assumes "r < 0x10000"
  shows "hex4 (drop 2 (u_escape r) @ t) = Some (r, t)"
proof -
  have d: "r div 0x1000 mod 16 = r div 0x100 div 16" "r div 0x100 = r div 16 div 16"
    using assms by (simp_all flip: div_mult2_eq)
  have "((r div 0x1000 mod 16 * 16 + r div 0x100 mod 16) * 16 + r div 16 mod 16) * 16 + r mod 16 = r"
    by (simp only: d div_mult_mod_eq)
  moreover have "r div 0x1000 mod 16 = r div 0x1000" "r div 0x1000 < 16" using assms by simp_all
  ultimately show ?thesis by (simp add: u_escape_def)
qed

lemma unquote_u:
  "hex4 x = Some (r, t) \<Longrightarrow> json_unquote (CHR 0x5C # CHR ''u'' # x) =
     map_option (\<lambda>(d, q). (fst (u_rune r t) @ d, q)) (json_unquote (snd (u_rune r t)))"
  by (simp add: json_unquote.simps(2))

lemma unquote_u_escape:
  assumes "r < 0xD800 \<or> 0xE000 \<le> r" "r < 0x10000"
  shows "json_unquote (u_escape r @ s) =
    map_option (\<lambda>(d, q). (utf8_encode r @ d, q)) (json_unquote s)"
proof -
  have eq: "u_escape r @ s = CHR 0x5C # CHR ''u'' # (drop 2 (u_escape r) @ s)"
    by (simp add: u_escape_def)
  have "u_rune r s = (utf8_encode r, s)" using assms(1) by (auto simp: u_rune_def)
  then show ?thesis
    unfolding eq using unquote_u [OF hex4_u_escape [OF assms(2), of s]] by simp
qed

lemma hex_digit_0: "hex_digit 0 = CHR ''0''"
proof -
  have "of_char (CHR ''0'') = (48 :: nat)" by simp
  then have "char_of (48 :: nat) = CHR ''0''" by (metis char_of_char)
  then show ?thesis by (simp add: hex_digit_def)
qed

lemma esc_byte_u: "of_char c < (128 :: nat) \<Longrightarrow>
  [CHR 0x5C, CHR ''u'', CHR ''0'', CHR ''0'', hex_digit (of_char c div 16), hex_digit (of_char c mod 16)]
    = u_escape (of_char c)"
  by (simp add: u_escape_def hex_digit_0)

lemma utf8_encode_ascii: "of_char c < (128 :: nat) \<Longrightarrow> utf8_encode (of_char c) = [c]"
  by (simp add: utf8_encode_def)

lemma simple_escapes:
  "simple_escape (CHR 0x22) = Some (CHR 0x22)" "simple_escape (CHR 0x5C) = Some (CHR 0x5C)"
  "simple_escape (CHR ''b'') = Some (CHR 0x08)" "simple_escape (CHR ''f'') = Some (CHR 0x0C)"
  "simple_escape (CHR ''n'') = Some (CHR 0x0A)" "simple_escape (CHR ''r'') = Some (CHR 0x0D)"
  "simple_escape (CHR ''t'') = Some (CHR 0x09)"
  by (simp_all add: simple_escape_def)

lemma unquote_simple:
  "e \<noteq> CHR ''u'' \<Longrightarrow> simple_escape e = Some x \<Longrightarrow>
   json_unquote (CHR 0x5C # e # s) = map_option (\<lambda>(d, q). (x # d, q)) (json_unquote s)"
  by (simp add: json_unquote.simps(2))

lemma unquote_plain:
  "32 \<le> (of_char c :: nat) \<Longrightarrow> of_char c < (128 :: nat) \<Longrightarrow> c \<noteq> CHR 0x22 \<Longrightarrow> c \<noteq> CHR 0x5C \<Longrightarrow>
   json_unquote (c # s) = map_option (\<lambda>(d, q). (c # d, q)) (json_unquote s)"
  by (simp add: json_unquote.simps(2) utf8_size_ascii)

lemma esc_byte_cases:
  assumes "of_char c < (128 :: nat)"
  shows "(c = CHR 0x22 \<or> c = CHR 0x5C) \<or> c \<in> {CHR 0x08, CHR 0x0C, CHR 0x0A, CHR 0x0D, CHR 0x09}
    \<or> esc_byte c = u_escape (of_char c)
    \<or> esc_byte c = [c] \<and> 32 \<le> (of_char c :: nat) \<and> c \<noteq> CHR 0x22 \<and> c \<noteq> CHR 0x5C"
  unfolding esc_byte_def esc_byte_u [OF assms] by (simp add: not_less split: if_split)

lemma unquote_esc_byte:
  assumes "of_char c < (128 :: nat)"
  shows "json_unquote (esc_byte c @ s) = map_option (\<lambda>(d, q). (c # d, q)) (json_unquote s)"
proof -
  consider (quote) "c = CHR 0x22 \<or> c = CHR 0x5C" | (short) "c \<in> {CHR 0x08, CHR 0x0C, CHR 0x0A, CHR 0x0D, CHR 0x09}"
    | (hex) "esc_byte c = u_escape (of_char c)"
    | (plain) "esc_byte c = [c]" "32 \<le> (of_char c :: nat)" "c \<noteq> CHR 0x22" "c \<noteq> CHR 0x5C"
    using esc_byte_cases [OF assms] by blast
  then show ?thesis
  proof cases
    case quote
    then have "esc_byte c = [CHR 0x5C, c]" by (auto simp: esc_byte_def)
    with quote show ?thesis by (auto simp: unquote_simple simple_escapes)
  next
    case short
    then show ?thesis by (auto simp: esc_byte_def unquote_simple simple_escapes)
  next
    case hex
    with assms show ?thesis by (simp add: unquote_u_escape utf8_encode_ascii)
  next
    case plain
    with assms show ?thesis by (simp add: unquote_plain)
  qed
qed

lemma unquote_multibyte:
  assumes "128 \<le> (of_char c :: nat)" "utf8_size (c # cs) \<noteq> 0"
  shows "json_unquote (take (utf8_size (c # cs)) (c # cs) @ s) =
    map_option (\<lambda>(d, q). (take (utf8_size (c # cs)) (c # cs) @ d, q)) (json_unquote s)"
proof -
  let ?k = "utf8_size (c # cs)"
  let ?t = "take ?k (c # cs)"
  have k: "?k \<le> length (c # cs)" by (rule utf8_size_le)
  have "utf8_size ?t = ?k" by (rule utf8_size_take)
  then have size: "utf8_size (?t @ s) = ?k"
    using assms(2) by (simp add: utf8_size_append)
  obtain j where j: "?k = Suc j" using assms(2) by (cases ?k) auto
  then have t: "?t = c # take j cs" by simp
  have "c \<noteq> CHR 0x22" "c \<noteq> CHR 0x5C" "\<not> of_char c < (32 :: nat)" using assms(1) by auto
  moreover have "take ?k (?t @ s) = ?t" "drop ?k (?t @ s) = s" using k by auto
  ultimately show ?thesis
    using size assms(2) unfolding t by (simp add: json_unquote.simps(2))
qed

lemma char_ofI: "of_char c = n \<Longrightarrow> char_of (n :: nat) = c"
  by auto

lemma utf8_encode_line_separators:
  "utf8_encode 0x2028 = [CHR 0xE2, CHR 0x80, CHR 0xA8]"
  "utf8_encode 0x2029 = [CHR 0xE2, CHR 0x80, CHR 0xA9]"
  "utf8_encode 0xFFFD = utf8_replacement"
  by (auto simp: utf8_encode_def utf8_replacement_def intro!: char_ofI)

lemma utf8_size_line_separator:
  assumes "take 3 s = [CHR 0xE2, CHR 0x80, x]" "cont_byte x"
  shows "utf8_size s = 3"
proof -
  obtain r where "s = CHR 0xE2 # CHR 0x80 # x # r"
    using assms(1) by (metis append_Cons append_Nil append_take_drop_id)
  with assms(2) show ?thesis by (simp add: utf8_size_def in_range_byte_def)
qed

theorem unquote_escape:
  "json_unquote (json_escape s @ CHR 0x22 # rest) = Some (to_valid s, rest)"
proof (induction s rule: json_escape.induct)
  case 1
  show ?case by (simp add: json_unquote.simps(2))
next
  case (2 c cs)
  let ?s = "c # cs"
  show ?case
  proof (cases "of_char c < (128 :: nat)")
    case True
    with 2(1) [OF True] show ?thesis
      by (simp add: json_escape.simps(2) to_valid.simps(2) utf8_size_ascii unquote_esc_byte)
  next
    case big: False
    show ?thesis
    proof (cases "utf8_size ?s = 0")
      case True
      with big 2(2) show ?thesis
        by (simp add: json_escape.simps(2) to_valid.simps(2) unquote_u_escape utf8_encode_line_separators)
    next
      case ok: False
      consider (separator) x where "take 3 ?s = [CHR 0xE2, CHR 0x80, x]" "x \<in> {CHR 0xA8, CHR 0xA9}"
        | (other) "take 3 ?s \<noteq> [CHR 0xE2, CHR 0x80, CHR 0xA8]" "take 3 ?s \<noteq> [CHR 0xE2, CHR 0x80, CHR 0xA9]"
        by blast
      then show ?thesis
      proof cases
        case separator
        then have "utf8_size ?s = 3" by (intro utf8_size_line_separator) (auto simp: cont_byte_def in_range_byte_def)
        with big ok separator 2(3,4) show ?thesis
          by (auto simp add: json_escape.simps(2) to_valid.simps(2) unquote_u_escape utf8_encode_line_separators
              simp del: take_Suc_Cons drop_Suc_Cons take_Cons_numeral drop_Cons_numeral)
      next
        case other
        with big ok 2(5) show ?thesis
          by (simp add: json_escape.simps(2) to_valid.simps(2) unquote_multibyte
              del: take_Suc_Cons drop_Suc_Cons take_Cons_numeral drop_Cons_numeral)
      qed
    qed
  qed
qed

end
