(* ===== verification/Json.thy ===== *)
theory Json
  imports Utf8
begin

text \<open>
  JSON texts as \<^verbatim>\<open>encoding/json\<close> writes and reads them: a value tree, the compact printer
  behind \<^verbatim>\<open>json.Marshal\<close>, the parser behind \<^verbatim>\<open>json.Unmarshal\<close> with its whitespace and number
  grammar, and the round trip. Numbers are kept as their literal, as the decoder hands them to
  \<^verbatim>\<open>strconv\<close>. Not modelled: the nesting limit of 10000, which no value of the program nears.
\<close>

datatype json =
    JNull
  | JBool bool
  | JNum string
  | JStr string
  | JArr "json list"
  | JObj "(string \<times> json) list"

section \<open>Printing\<close>

definition json_quote :: "string \<Rightarrow> string" where
  "json_quote s = CHR 0x22 # json_escape s @ [CHR 0x22]"

fun json_print :: "json \<Rightarrow> string"
and json_elems :: "json list \<Rightarrow> string"
and json_members :: "(string \<times> json) list \<Rightarrow> string" where
  "json_print JNull = ''null''"
| "json_print (JBool b) = (if b then ''true'' else ''false'')"
| "json_print (JNum lit) = lit"
| "json_print (JStr s) = json_quote s"
| "json_print (JArr vs) = ''['' @ (case vs of [] \<Rightarrow> [] | _ # _ \<Rightarrow> json_elems vs) @ '']''"
| "json_print (JObj ms) = ''{'' @ (case ms of [] \<Rightarrow> [] | _ # _ \<Rightarrow> json_members ms) @ ''}''"
| "json_elems [] = []"
| "json_elems (v # vs) = json_print v @ (case vs of [] \<Rightarrow> [] | _ # _ \<Rightarrow> '','' @ json_elems vs)"
| "json_members [] = []"
| "json_members ((k, v) # ms) =
     json_quote k @ '':'' @ json_print v @ (case ms of [] \<Rightarrow> [] | _ # _ \<Rightarrow> '','' @ json_members ms)"

section \<open>Parsing\<close>

definition is_ws :: "char \<Rightarrow> bool" where
  "is_ws c \<longleftrightarrow> c = CHR '' '' \<or> c = CHR 0x09 \<or> c = CHR 0x0A \<or> c = CHR 0x0D"

definition skip_ws :: "string \<Rightarrow> string" where
  "skip_ws s = dropWhile is_ws s"

text \<open>The number grammar: an optional sign, an integer part without leading zeros, an optional
  fraction and an optional exponent.\<close>

definition lex_int :: "string \<Rightarrow> (string \<times> string) option" where
  "lex_int s =
     (case s of
        [] \<Rightarrow> None
      | c # cs \<Rightarrow>
          if c = CHR ''0'' then Some ([c], cs)
          else if is_digit c then Some (takeWhile is_digit s, dropWhile is_digit s)
          else None)"

definition lex_digits1 :: "string \<Rightarrow> (string \<times> string) option" where
  "lex_digits1 s =
     (if takeWhile is_digit s = [] then None else Some (takeWhile is_digit s, dropWhile is_digit s))"

definition lex_frac :: "string \<Rightarrow> (string \<times> string) option" where
  "lex_frac s =
     (case s of
        [] \<Rightarrow> Some ([], s)
      | c # cs \<Rightarrow> if c = CHR ''.'' then map_option (\<lambda>(d, r). (c # d, r)) (lex_digits1 cs) else Some ([], s))"

definition lex_exp :: "string \<Rightarrow> (string \<times> string) option" where
  "lex_exp s =
     (case s of
        [] \<Rightarrow> Some ([], s)
      | c # cs \<Rightarrow>
          if c = CHR ''e'' \<or> c = CHR ''E'' then
            (case cs of
               [] \<Rightarrow> None
             | g # gs \<Rightarrow>
                 if g = CHR ''+'' \<or> g = CHR ''-''
                 then map_option (\<lambda>(d, r). (c # g # d, r)) (lex_digits1 gs)
                 else map_option (\<lambda>(d, r). (c # d, r)) (lex_digits1 cs))
          else Some ([], s))"

definition lex_unsigned :: "string \<Rightarrow> (string \<times> string) option" where
  "lex_unsigned s =
     (case lex_int s of None \<Rightarrow> None | Some (i, r1) \<Rightarrow>
      (case lex_frac r1 of None \<Rightarrow> None | Some (f, r2) \<Rightarrow>
       (case lex_exp r2 of None \<Rightarrow> None | Some (e, r3) \<Rightarrow> Some (i @ f @ e, r3))))"

definition lex_number :: "string \<Rightarrow> (string \<times> string) option" where
  "lex_number s =
     (case s of
        [] \<Rightarrow> None
      | c # cs \<Rightarrow>
          if c = CHR ''-'' then map_option (\<lambda>(l, r). (c # l, r)) (lex_unsigned cs)
          else lex_unsigned s)"

text \<open>One scalar that is not a string: a keyword or a number.\<close>

definition parse_scalar :: "string \<Rightarrow> (json \<times> string) option" where
  "parse_scalar s =
     (if prefix ''null'' s then Some (JNull, drop 4 s)
      else if prefix ''true'' s then Some (JBool True, drop 4 s)
      else if prefix ''false'' s then Some (JBool False, drop 5 s)
      else map_option (\<lambda>(l, r). (JNum l, r)) (lex_number s))"

fun parse_value :: "nat \<Rightarrow> string \<Rightarrow> (json \<times> string) option"
and parse_elems :: "nat \<Rightarrow> string \<Rightarrow> (json list \<times> string) option"
and parse_members :: "nat \<Rightarrow> string \<Rightarrow> ((string \<times> json) list \<times> string) option" where
  "parse_value 0 s = None"
| "parse_value (Suc n) s =
     (case skip_ws s of
        [] \<Rightarrow> None
      | c # cs \<Rightarrow>
          if c = CHR 0x22 then map_option (\<lambda>(t, r). (JStr t, r)) (json_unquote cs)
          else if c = CHR ''['' then
            (if prefix '']'' (skip_ws cs) then Some (JArr [], drop 1 (skip_ws cs))
             else map_option (\<lambda>(vs, r). (JArr vs, r)) (parse_elems n cs))
          else if c = CHR ''{'' then
            (if prefix ''}'' (skip_ws cs) then Some (JObj [], drop 1 (skip_ws cs))
             else map_option (\<lambda>(ms, r). (JObj ms, r)) (parse_members n cs))
          else parse_scalar (c # cs))"
| "parse_elems 0 s = None"
| "parse_elems (Suc n) s =
     (case parse_value n s of
        None \<Rightarrow> None
      | Some (v, r) \<Rightarrow>
          (case skip_ws r of
             [] \<Rightarrow> None
           | c # cs \<Rightarrow>
               if c = CHR '','' then map_option (\<lambda>(vs, q). (v # vs, q)) (parse_elems n cs)
               else if c = CHR '']'' then Some ([v], cs) else None))"
| "parse_members 0 s = None"
| "parse_members (Suc n) s =
     (if prefix [CHR 0x22] (skip_ws s) then
        (case json_unquote (drop 1 (skip_ws s)) of
           None \<Rightarrow> None
         | Some (k, r) \<Rightarrow>
             if prefix '':'' (skip_ws r) then
               (case parse_value n (drop 1 (skip_ws r)) of
                  None \<Rightarrow> None
                | Some (v, q) \<Rightarrow>
                    (case skip_ws q of
                       [] \<Rightarrow> None
                     | c # cs \<Rightarrow>
                         if c = CHR '','' then map_option (\<lambda>(ms, z). ((k, v) # ms, z)) (parse_members n cs)
                         else if c = CHR ''}'' then Some ([(k, v)], cs) else None))
             else None)
      else None)"

text \<open>
  The whole text: a value, then nothing but whitespace. Every call of the three parsers either
  consumes input or is followed by one that does, so the fuel \<open>2 * length s + 2\<close> is enough.
\<close>

definition json_parse :: "string \<Rightarrow> json option" where
  "json_parse s =
     (case parse_value (2 * length s + 2) s of
        None \<Rightarrow> None
      | Some (v, r) \<Rightarrow> if skip_ws r = [] then Some v else None)"

section \<open>The round trip\<close>

text \<open>What a printed value reads back as: every string made valid UTF-8.\<close>

fun json_clean :: "json \<Rightarrow> json"
and clean_elems :: "json list \<Rightarrow> json list"
and clean_members :: "(string \<times> json) list \<Rightarrow> (string \<times> json) list" where
  "json_clean (JStr s) = JStr (to_valid s)"
| "json_clean (JArr vs) = JArr (clean_elems vs)"
| "json_clean (JObj ms) = JObj (clean_members ms)"
| "json_clean v = v"
| "clean_elems [] = []"
| "clean_elems (v # vs) = json_clean v # clean_elems vs"
| "clean_members [] = []"
| "clean_members ((k, v) # ms) = (to_valid k, json_clean v) # clean_members ms"

text \<open>The numbers of the values the program prints are decimal integers.\<close>

fun nums_ok :: "json \<Rightarrow> bool"
and nums_ok_elems :: "json list \<Rightarrow> bool"
and nums_ok_members :: "(string \<times> json) list \<Rightarrow> bool" where
  "nums_ok (JNum lit) = (\<exists>i. lit = show_int i)"
| "nums_ok (JArr vs) = nums_ok_elems vs"
| "nums_ok (JObj ms) = nums_ok_members ms"
| "nums_ok v = True"
| "nums_ok_elems [] = True"
| "nums_ok_elems (v # vs) = (nums_ok v \<and> nums_ok_elems vs)"
| "nums_ok_members [] = True"
| "nums_ok_members ((k, v) # ms) = (nums_ok v \<and> nums_ok_members ms)"

text \<open>What may follow a number without becoming part of it.\<close>

definition delim :: "string \<Rightarrow> bool" where
  "delim r \<longleftrightarrow> r = [] \<or> hd r \<in> {CHR '','', CHR '']'', CHR ''}''}"

lemma delim_simps [simp]:
  "delim []" "delim (CHR '','' # r)" "delim (CHR '']'' # r)" "delim (CHR ''}'' # r)"
  by (simp_all add: delim_def)

lemma skip_ws_Cons: "\<not> is_ws c \<Longrightarrow> skip_ws (c # s) = c # s"
  by (simp add: skip_ws_def)

lemma digit_not_ws: "is_digit c \<Longrightarrow> \<not> is_ws c"
  by (auto simp: is_digit_def is_ws_def)

lemma show_nat_zero: "show_nat n = CHR ''0'' # cs \<Longrightarrow> cs = []"
proof -
  assume "show_nat n = CHR ''0'' # cs"
  moreover have "hd (show_nat n) \<noteq> CHR ''0''" if "n \<noteq> 0" for n
    using that
  proof (induction n rule: show_nat.induct)
    case (1 n)
    show ?case
    proof (cases "n < 10")
      case True
      have "digit_char n \<noteq> CHR ''0''"
      proof
        assume "digit_char n = CHR ''0''"
        then have "digit_val (digit_char n) = 0" by (simp add: digit_val_def)
        with True 1(2) show False by simp
      qed
      with True show ?thesis by (subst show_nat.simps) simp
    next
      case False
      then have "n div 10 \<noteq> 0" by simp
      with 1(1) [OF False] show ?thesis using False by (subst show_nat.simps) simp
    qed
  qed
  ultimately show ?thesis
    by (cases "n = 0") (simp_all add: show_nat.simps [of 0], metis list.sel(1))
qed

lemma delim_not_digit: "delim r \<Longrightarrow> takeWhile is_digit r = []" "delim r \<Longrightarrow> dropWhile is_digit r = r"
  by (cases r; auto simp: delim_def is_digit_def)+

lemma lex_int_show_nat: "delim r \<Longrightarrow> lex_int (show_nat n @ r) = Some (show_nat n, r)"
proof (cases "show_nat n")
  case Nil
  then show ?thesis by simp
next
  case (Cons c cs)
  assume r: "delim r"
  have d: "list_all is_digit (c # cs)" using show_nat_digits [of n] Cons by simp
  then have "takeWhile is_digit (cs @ r) = cs" "dropWhile is_digit (cs @ r) = r"
    using r by (auto simp: takeWhile_append2 dropWhile_append2 list_all_iff delim_not_digit)
  with d Cons show ?thesis by (auto simp: lex_int_def dest: show_nat_zero)
qed

lemma lex_frac_delim: "delim r \<Longrightarrow> lex_frac r = Some ([], r)"
  and lex_exp_delim: "delim r \<Longrightarrow> lex_exp r = Some ([], r)"
  by (cases r; auto simp: lex_frac_def lex_exp_def delim_def)+

lemma lex_number_show_int: "delim r \<Longrightarrow> lex_number (show_int i @ r) = Some (show_int i, r)"
proof -
  assume r: "delim r"
  have u: "lex_unsigned (show_nat n @ r) = Some (show_nat n, r)" for n
    using r by (simp add: lex_unsigned_def lex_int_show_nat lex_frac_delim lex_exp_delim)
  show ?thesis
  proof (cases "i < 0")
    case True
    then show ?thesis by (simp add: show_int_def lex_number_def u)
  next
    case False
    then obtain c cs where "show_nat (nat i) = c # cs" "is_digit c"
      using show_nat_hd by (cases "show_nat (nat i)") auto
    with False u [of "nat i"] show ?thesis by (simp add: show_int_def lex_number_def digit_not_special)
  qed
qed

lemma show_int_hd:
  obtains c cs where "show_int i = c # cs" "c = CHR ''-'' \<or> is_digit c"
proof (cases "show_int i")
  case Nil
  then show ?thesis by (simp add: show_int_def split: if_splits)
next
  case (Cons c cs)
  then have "c = CHR ''-'' \<or> is_digit c" by (auto simp: show_int_def split: if_splits dest: show_nat_hd)
  with Cons show ?thesis by (rule that)
qed

lemma parse_value_number:
  assumes "delim r"
  shows "parse_value (Suc n) (show_int i @ r) = Some (JNum (show_int i), r)"
proof -
  obtain c cs where c: "show_int i = c # cs" "c = CHR ''-'' \<or> is_digit c" by (rule show_int_hd)
  then have "c \<notin> {CHR 0x22, CHR ''['', CHR ''{'', CHR ''n'', CHR ''t'', CHR ''f''}" "\<not> is_ws c"
    by (auto simp: is_digit_def is_ws_def)
  moreover have "lex_number (c # cs @ r) = Some (c # cs, r)"
    using lex_number_show_int [OF assms, of i] c by simp
  ultimately show ?thesis using c by (auto simp: skip_ws_Cons parse_scalar_def)
qed

lemma json_unquote_quote: "json_unquote (drop 1 (json_quote s) @ r) = Some (to_valid s, r)"
  by (simp add: json_quote_def unquote_escape)

lemma json_quote_Cons: "json_quote s = CHR 0x22 # drop 1 (json_quote s)"
  by (simp add: json_quote_def)

definition opens_value :: "string \<Rightarrow> bool" where
  "opens_value s \<longleftrightarrow> s \<noteq> [] \<and> \<not> is_ws (hd s) \<and> hd s \<noteq> CHR '']'' \<and> hd s \<noteq> CHR ''}''"

lemma opens_show_int: "opens_value (show_int i)"
proof -
  obtain c cs where c: "show_int i = c # cs" "c = CHR ''-'' \<or> is_digit c" by (rule show_int_hd)
  then show ?thesis by (auto simp: opens_value_def is_digit_def is_ws_def)
qed

lemma opens_Cons: "opens_value (c # s) \<longleftrightarrow> \<not> is_ws c \<and> c \<noteq> CHR '']'' \<and> c \<noteq> CHR ''}''"
  by (simp add: opens_value_def)

lemma opens_print:
  assumes "nums_ok v"
  shows "opens_value (json_print v)"
proof (cases v)
  case (JBool b)
  then show ?thesis by (cases b) (simp_all add: opens_Cons is_ws_def)
next
  case (JNum lit)
  with assms show ?thesis by (auto simp: opens_show_int)
qed (simp_all add: opens_Cons json_quote_def is_ws_def)

lemma opens_value_append: "opens_value s \<Longrightarrow> opens_value (s @ t)"
  by (cases s) (auto simp: opens_value_def)

lemma opens_elems: "nums_ok_elems vs \<Longrightarrow> vs \<noteq> [] \<Longrightarrow> opens_value (json_elems vs)"
  by (cases vs) (auto simp: opens_value_append opens_print)

lemma opens_members: "ms \<noteq> [] \<Longrightarrow> opens_value (json_members ms)"
  by (cases ms) (auto simp: json_quote_def opens_value_def is_ws_def)

lemma opens_skip:
  assumes "opens_value s"
  shows "skip_ws (s @ t) = s @ t" "\<not> prefix '']'' (s @ t)" "\<not> prefix ''}'' (s @ t)"
proof -
  obtain c cs where "s = c # cs" "\<not> is_ws c" "c \<noteq> CHR '']''" "c \<noteq> CHR ''}''"
    using assms by (cases s) (auto simp: opens_value_def)
  then show "skip_ws (s @ t) = s @ t" "\<not> prefix '']'' (s @ t)" "\<not> prefix ''}'' (s @ t)"
    by (auto simp: skip_ws_Cons)
qed

lemma parse_value_string:
  "parse_value (Suc n) (json_quote s @ r) = Some (JStr (to_valid s), r)"
  by (simp add: json_quote_def unquote_escape skip_ws_Cons is_ws_def)

lemma parse_value_array:
  assumes "opens_value s" "parse_elems n (s @ t) = Some (vs, q)"
  shows "parse_value (Suc n) (CHR ''['' # s @ t) = Some (JArr vs, q)"
  using assms opens_skip [OF assms(1), of t] by (simp add: skip_ws_Cons is_ws_def)

lemma parse_value_object:
  assumes "opens_value s" "parse_members n (s @ t) = Some (ms, q)"
  shows "parse_value (Suc n) (CHR ''{'' # s @ t) = Some (JObj ms, q)"
  using assms opens_skip [OF assms(1), of t] by (simp add: skip_ws_Cons is_ws_def)

lemma parse_elems_last:
  assumes "parse_value n (s @ CHR '']'' # r) = Some (v, CHR '']'' # r)"
  shows "parse_elems (Suc n) (s @ CHR '']'' # r) = Some ([v], r)"
  using assms by (simp add: skip_ws_Cons is_ws_def)

lemma parse_elems_more:
  assumes "parse_value n (s @ CHR '','' # t) = Some (v, CHR '','' # t)"
    "parse_elems n t = Some (vs, r)"
  shows "parse_elems (Suc n) (s @ CHR '','' # t) = Some (v # vs, r)"
  using assms by (simp add: skip_ws_Cons is_ws_def)

lemma parse_members_key:
  "parse_members (Suc n) (json_quote k @ CHR '':'' # t) =
     (case parse_value n t of
        None \<Rightarrow> None
      | Some (v, q) \<Rightarrow>
          (case skip_ws q of
             [] \<Rightarrow> None
           | c # cs \<Rightarrow>
               if c = CHR '','' then map_option (\<lambda>(ms, z). ((to_valid k, v) # ms, z)) (parse_members n cs)
               else if c = CHR ''}'' then Some ([(to_valid k, v)], cs) else None))"
  by (simp add: json_quote_def unquote_escape skip_ws_Cons is_ws_def cong: option.case_cong list.case_cong)

text \<open>One lemma for each constructor; the premises are what is known of the parts.\<close>

lemma parse_printed_array:
  assumes "nums_ok_elems vs"
    and "vs \<noteq> [] \<Longrightarrow> parse_elems m (json_elems vs @ CHR '']'' # r) = Some (clean_elems vs, r)"
  shows "parse_value (Suc m) (json_print (JArr vs) @ r) = Some (json_clean (JArr vs), r)"
proof (cases "vs = []")
  case False
  from parse_value_array [OF opens_elems [OF assms(1) False] assms(2) [OF False]] False show ?thesis
    by (cases vs) (simp_all del: parse_value.simps)
qed (simp add: skip_ws_Cons is_ws_def)

lemma parse_printed_object:
  assumes "ms \<noteq> [] \<Longrightarrow> parse_members m (json_members ms @ CHR ''}'' # r) = Some (clean_members ms, r)"
  shows "parse_value (Suc m) (json_print (JObj ms) @ r) = Some (json_clean (JObj ms), r)"
proof (cases "ms = []")
  case False
  from parse_value_object [OF opens_members [OF False] assms [OF False]] False show ?thesis
    by (cases ms) (simp_all del: parse_value.simps)
qed (simp add: skip_ws_Cons is_ws_def)

lemma parse_printed_elems:
  assumes "\<And>t. delim t \<Longrightarrow> parse_value m (json_print v @ t) = Some (json_clean v, t)"
    and "vs \<noteq> [] \<Longrightarrow> parse_elems m (json_elems vs @ CHR '']'' # q) = Some (clean_elems vs, q)"
  shows "parse_elems (Suc m) (json_elems (v # vs) @ CHR '']'' # q) = Some (clean_elems (v # vs), q)"
  using parse_elems_last [OF assms(1), of q] parse_elems_more [OF assms(1,2)]
  by (cases vs) (simp_all del: parse_elems.simps)

lemma parse_printed_members:
  assumes "\<And>t. delim t \<Longrightarrow> parse_value m (json_print v @ t) = Some (json_clean v, t)"
    and "ms \<noteq> [] \<Longrightarrow> parse_members m (json_members ms @ CHR ''}'' # q) = Some (clean_members ms, q)"
  shows "parse_members (Suc m) (json_members ((k, v) # ms) @ CHR ''}'' # q) = Some (clean_members ((k, v) # ms), q)"
  using assms by (cases ms) (simp_all add: parse_members_key skip_ws_Cons is_ws_def del: parse_members.simps)

lemma parse_print:
  "nums_ok v \<Longrightarrow> delim r \<Longrightarrow> 2 * length (json_print v) + 1 \<le> n \<Longrightarrow>
    parse_value n (json_print v @ r) = Some (json_clean v, r)"
  "nums_ok_elems vs \<Longrightarrow> vs \<noteq> [] \<Longrightarrow> 2 * length (json_elems vs) + 2 \<le> n \<Longrightarrow>
    parse_elems n (json_elems vs @ CHR '']'' # q) = Some (clean_elems vs, q)"
  "nums_ok_members ms \<Longrightarrow> ms \<noteq> [] \<Longrightarrow> 2 * length (json_members ms) + 2 \<le> n \<Longrightarrow>
    parse_members n (json_members ms @ CHR ''}'' # q) = Some (clean_members ms, q)"
proof (induction v and vs and ms arbitrary: n r and n q and n q
    rule: json_print_json_elems_json_members.induct)
  case 1
  then show ?case by (cases n) (simp_all add: skip_ws_Cons is_ws_def parse_scalar_def)
next
  case (2 b)
  then show ?case by (cases n; cases b) (simp_all add: skip_ws_Cons is_ws_def parse_scalar_def)
next
  case (3 lit)
  then show ?case by (cases n) (auto simp: parse_value_number simp del: parse_value.simps)
next
  case (4 s)
  then show ?case by (cases n) (simp_all add: parse_value_string del: parse_value.simps)
next
  case (5 vs)
  then obtain m where n: "n = Suc m" by (cases n) auto
  show ?case unfolding n
    by (rule parse_printed_array) (use 5 n in \<open>cases vs; simp\<close>)+
next
  case (6 ms)
  then obtain m where n: "n = Suc m" by (cases n) auto
  show ?case unfolding n
    by (rule parse_printed_object) (use 6 n in \<open>cases ms; simp\<close>)
next
  case (8 v vs)
  then obtain m where n: "n = Suc m" by (cases n) auto
  show ?case unfolding n
    by (rule parse_printed_elems) (use 8 n in \<open>cases vs; simp\<close>)+
next
  case (10 k v ms)
  then obtain m where n: "n = Suc m" by (cases n) auto
  show ?case unfolding n
    by (rule parse_printed_members) (use 10 n in \<open>cases ms; simp\<close>)+
qed simp_all

theorem json_parse_print: "nums_ok v \<Longrightarrow> json_parse (json_print v) = Some (json_clean v)"
  using parse_print(1) [of v "[]" "2 * length (json_print v) + 2"]
  by (simp add: json_parse_def skip_ws_def)

end
