(* ===== verification/Services.thy ===== *)
theory Services
  imports Json "HOL-Library.Word"
begin

text \<open>
  The messages of the two gRPC interfaces (services/agent_api.pb.go, services/peer_api.pb.go)
  and the JSON form of the service specifications that the registry stores in etcd. A pointer
  field is an option. Required fields of a request are plain values, because proto2 decoding
  rejects a message that lacks one; the fields of \<open>service_spec\<close> and \<open>port_spec\<close> stay options,
  because they are also filled by \<^verbatim>\<open>json.Unmarshal\<close>, which leaves an absent field nil.
\<close>

section \<open>Messages\<close>

record port_spec =
  port_name :: "string option"
  port_port :: "32 word option"
  port_protocol :: "string option"

record service_spec =
  spec_service_name :: "string option"
  spec_instance :: "string option"
  spec_location :: "string option"
  spec_datacenter :: "string option"
  spec_node :: "string option"
  spec_addresses :: "string list"
  spec_ports :: "port_spec option list"
  spec_metrics_port :: "32 word option"

record discover_request =
  disc_service :: string
  disc_location :: "string option"
  disc_datacenter :: "string option"
  disc_node :: "string option"
  disc_instance :: "string option"

record register_request =
  reg_service :: string
  reg_instance :: string
  reg_addresses :: "string list"
  reg_ports :: "port_spec option list"
  reg_metrics_port :: "32 word option"

record deregister_request =
  dereg_service :: string
  dereg_instance :: string

record watch_delete =
  wd_service_name :: string
  wd_node :: string
  wd_instance :: string

datatype watch_response = WatchUpdate service_spec | WatchDelete watch_delete

datatype node_type = AGENT | OBSERVER

record peer =
  peer_id :: string
  peer_name :: string
  peer_urls :: "string list"
  client_urls :: "string list"

record add_node_request =
  an_name :: string
  an_datacenter :: string
  an_location :: string
  an_node_type :: node_type

record credentials_request =
  gc_name :: string
  gc_datacenter :: string

section \<open>Matching JSON object keys to struct fields\<close>

text \<open>
  \<^verbatim>\<open>encoding/json\<close> compares a key with a field name under simple case folding; the Kelvin sign
  and the long s are the only runes outside ASCII that fold into it.
\<close>

definition fold_byte :: "char \<Rightarrow> char" where
  "fold_byte c = (if 97 \<le> (of_char c :: nat) \<and> (of_char c :: nat) \<le> 122 then char_of (of_char c - 32 :: nat) else c)"

fun json_fold :: "string \<Rightarrow> string" where
  "json_fold [] = []"
| "json_fold (c # cs) =
     (if take 3 (c # cs) = [CHR 0xE2, CHR 0x84, CHR 0xAA] then CHR ''K'' # json_fold (drop 2 cs)
      else if take 2 (c # cs) = [CHR 0xC5, CHR 0xBF] then CHR ''S'' # json_fold (drop 1 cs)
      else fold_byte c # json_fold cs)"

definition json_key :: "string \<Rightarrow> string \<Rightarrow> bool" where
  "json_key field key \<longleftrightarrow> json_fold field = json_fold key"

section \<open>Field decoders; the outer \<open>None\<close> is an \<^verbatim>\<open>UnmarshalTypeError\<close>\<close>

fun dec_string_ptr :: "json \<Rightarrow> string option option" where
  "dec_string_ptr JNull = Some None"
| "dec_string_ptr (JStr s) = Some (Some s)"
| "dec_string_ptr _ = None"

fun dec_uint32_ptr :: "json \<Rightarrow> 32 word option option" where
  "dec_uint32_ptr JNull = Some None"
| "dec_uint32_ptr (JNum lit) =
     (case parse_uint 64 lit of
        (n, None) \<Rightarrow> if n < 2 ^ 32 then Some (Some (of_nat n)) else None
      | (_, Some _) \<Rightarrow> None)"
| "dec_uint32_ptr _ = None"

fun dec_string_elem :: "json \<Rightarrow> string option" where
  "dec_string_elem JNull = Some []"
| "dec_string_elem (JStr s) = Some s"
| "dec_string_elem _ = None"

fun dec_list :: "(json \<Rightarrow> 'a option) \<Rightarrow> json list \<Rightarrow> 'a list option" where
  "dec_list f [] = Some []"
| "dec_list f (v # vs) =
     (case f v of None \<Rightarrow> None | Some x \<Rightarrow> map_option ((#) x) (dec_list f vs))"

fun dec_slice :: "(json \<Rightarrow> 'a option) \<Rightarrow> json \<Rightarrow> 'a list option" where
  "dec_slice f JNull = Some []"
| "dec_slice f (JArr vs) = dec_list f vs"
| "dec_slice f _ = None"

definition set_opt :: "('b \<Rightarrow> 'a \<Rightarrow> 'a) \<Rightarrow> 'b option \<Rightarrow> 'a \<Rightarrow> 'a option" where
  "set_opt upd v st = map_option (\<lambda>x. upd x st) v"

text \<open>A struct is decoded member by member; a key that matches no field is skipped.\<close>

fun dec_members :: "('a \<Rightarrow> string \<Rightarrow> json \<Rightarrow> 'a option) \<Rightarrow> 'a \<Rightarrow> (string \<times> json) list \<Rightarrow> 'a option" where
  "dec_members f st [] = Some st"
| "dec_members f st ((k, v) # ms) =
     (case f st k v of None \<Rightarrow> None | Some st' \<Rightarrow> dec_members f st' ms)"

section \<open>\<^verbatim>\<open>PortSpec\<close> and \<^verbatim>\<open>ServiceSpec\<close> as JSON\<close>

text \<open>\<^verbatim>\<open>omitempty\<close>: a nil pointer and an empty slice leave no member.\<close>

definition opt_member :: "string \<Rightarrow> json option \<Rightarrow> (string \<times> json) list" where
  "opt_member k v = (case v of None \<Rightarrow> [] | Some j \<Rightarrow> [(k, j)])"

definition slice_member :: "string \<Rightarrow> json list \<Rightarrow> (string \<times> json) list" where
  "slice_member k vs = (if vs = [] then [] else [(k, JArr vs)])"

definition json_uint32 :: "32 word \<Rightarrow> json" where
  "json_uint32 w = JNum (show_nat (unat w))"

definition json_port :: "port_spec \<Rightarrow> json" where
  "json_port p = JObj
     (opt_member ''name'' (map_option JStr (port_name p))
      @ opt_member ''port'' (map_option json_uint32 (port_port p))
      @ opt_member ''protocol'' (map_option JStr (port_protocol p)))"

definition json_port_ptr :: "port_spec option \<Rightarrow> json" where
  "json_port_ptr p = (case p of None \<Rightarrow> JNull | Some p \<Rightarrow> json_port p)"

definition json_spec :: "service_spec \<Rightarrow> json" where
  "json_spec s = JObj
     (opt_member ''service_name'' (map_option JStr (spec_service_name s))
      @ opt_member ''instance'' (map_option JStr (spec_instance s))
      @ opt_member ''location'' (map_option JStr (spec_location s))
      @ opt_member ''datacenter'' (map_option JStr (spec_datacenter s))
      @ opt_member ''node'' (map_option JStr (spec_node s))
      @ slice_member ''addresses'' (map JStr (spec_addresses s))
      @ slice_member ''ports'' (map json_port_ptr (spec_ports s))
      @ opt_member ''metrics_port'' (map_option json_uint32 (spec_metrics_port s)))"

definition marshal_spec :: "service_spec \<Rightarrow> string" where
  "marshal_spec s = json_print (json_spec s)"

definition empty_port :: port_spec where
  "empty_port = \<lparr>port_name = None, port_port = None, port_protocol = None\<rparr>"

definition empty_spec :: service_spec where
  "empty_spec = \<lparr>spec_service_name = None, spec_instance = None, spec_location = None,
     spec_datacenter = None, spec_node = None, spec_addresses = [], spec_ports = [],
     spec_metrics_port = None\<rparr>"

definition port_field :: "port_spec \<Rightarrow> string \<Rightarrow> json \<Rightarrow> port_spec option" where
  "port_field p k v =
     (if json_key ''name'' k then set_opt (\<lambda>x p. p\<lparr>port_name := x\<rparr>) (dec_string_ptr v) p
      else if json_key ''port'' k then set_opt (\<lambda>x p. p\<lparr>port_port := x\<rparr>) (dec_uint32_ptr v) p
      else if json_key ''protocol'' k then set_opt (\<lambda>x p. p\<lparr>port_protocol := x\<rparr>) (dec_string_ptr v) p
      else Some p)"

fun dec_port_ptr :: "json \<Rightarrow> port_spec option option" where
  "dec_port_ptr JNull = Some None"
| "dec_port_ptr (JObj ms) = map_option Some (dec_members port_field empty_port ms)"
| "dec_port_ptr _ = None"

definition spec_field :: "service_spec \<Rightarrow> string \<Rightarrow> json \<Rightarrow> service_spec option" where
  "spec_field s k v =
     (if json_key ''service_name'' k then set_opt (\<lambda>x s. s\<lparr>spec_service_name := x\<rparr>) (dec_string_ptr v) s
      else if json_key ''instance'' k then set_opt (\<lambda>x s. s\<lparr>spec_instance := x\<rparr>) (dec_string_ptr v) s
      else if json_key ''location'' k then set_opt (\<lambda>x s. s\<lparr>spec_location := x\<rparr>) (dec_string_ptr v) s
      else if json_key ''datacenter'' k then set_opt (\<lambda>x s. s\<lparr>spec_datacenter := x\<rparr>) (dec_string_ptr v) s
      else if json_key ''node'' k then set_opt (\<lambda>x s. s\<lparr>spec_node := x\<rparr>) (dec_string_ptr v) s
      else if json_key ''addresses'' k then set_opt (\<lambda>x s. s\<lparr>spec_addresses := x\<rparr>) (dec_slice dec_string_elem v) s
      else if json_key ''ports'' k then set_opt (\<lambda>x s. s\<lparr>spec_ports := x\<rparr>) (dec_slice dec_port_ptr v) s
      else if json_key ''metrics_port'' k then set_opt (\<lambda>x s. s\<lparr>spec_metrics_port := x\<rparr>) (dec_uint32_ptr v) s
      else Some s)"

text \<open>\<^verbatim>\<open>json.Unmarshal(data, &spec)\<close> into a zero \<^verbatim>\<open>ServiceSpec\<close>; \<open>None\<close> is any error.\<close>

definition unmarshal_spec :: "string \<Rightarrow> service_spec option" where
  "unmarshal_spec data =
     (case json_parse data of
        Some JNull \<Rightarrow> Some empty_spec
      | Some (JObj ms) \<Rightarrow> dec_members spec_field empty_spec ms
      | _ \<Rightarrow> None)"

text \<open>The same into a nil \<^verbatim>\<open>*ServiceSpec\<close>: a null stays nil.\<close>

definition unmarshal_spec_ptr :: "string \<Rightarrow> service_spec option option" where
  "unmarshal_spec_ptr data =
     (case json_parse data of
        Some JNull \<Rightarrow> Some None
      | Some (JObj ms) \<Rightarrow> map_option Some (dec_members spec_field empty_spec ms)
      | _ \<Rightarrow> None)"

section \<open>The round trip of a stored specification\<close>

definition opt_valid :: "string option \<Rightarrow> bool" where
  "opt_valid x = (case x of None \<Rightarrow> True | Some s \<Rightarrow> utf8_valid s)"

definition port_valid :: "port_spec option \<Rightarrow> bool" where
  "port_valid p = (case p of None \<Rightarrow> True | Some p \<Rightarrow> opt_valid (port_name p) \<and> opt_valid (port_protocol p))"

definition spec_valid :: "service_spec \<Rightarrow> bool" where
  "spec_valid s \<longleftrightarrow> opt_valid (spec_service_name s) \<and> opt_valid (spec_instance s) \<and> opt_valid (spec_location s)
     \<and> opt_valid (spec_datacenter s) \<and> opt_valid (spec_node s)
     \<and> list_all utf8_valid (spec_addresses s) \<and> list_all port_valid (spec_ports s)"

lemma dec_members_append:
  "dec_members f st (ms @ ns) =
     (case dec_members f st ms of None \<Rightarrow> None | Some st' \<Rightarrow> dec_members f st' ns)"
  by (induction f st ms rule: dec_members.induct) (auto split: option.splits)

lemma clean_members_append: "clean_members (ms @ ns) = clean_members ms @ clean_members ns"
  by (induction ms) auto

lemma nums_ok_members_append: "nums_ok_members (ms @ ns) = (nums_ok_members ms \<and> nums_ok_members ns)"
  by (induction ms) auto

lemma clean_elems_map: "clean_elems vs = map json_clean vs"
  by (induction vs) auto

lemma nums_ok_elems_all: "nums_ok_elems vs = list_all nums_ok vs"
  by (induction vs) auto

lemma nums_ok_uint32 [simp]: "nums_ok (json_uint32 w)"
  by (simp add: json_uint32_def) (metis nat_int of_nat_less_0_iff show_int_def)

lemma clean_uint32 [simp]: "json_clean (json_uint32 w) = json_uint32 w"
  by (simp add: json_uint32_def)

lemma dec_uint32_ptr_json [simp]: "dec_uint32_ptr (json_uint32 w) = Some (Some w)"
proof -
  have lt: "unat w < 2 ^ 32" using unsigned_less [of w] by simp
  then have "unat w < 2 ^ 64" by simp
  then have "parse_uint 64 (show_nat (unat w)) = (unat w, None)" by (rule parse_uint_show_nat)
  with lt show ?thesis by (simp add: json_uint32_def)
qed

lemma nums_ok_opt_member [simp]:
  "nums_ok_members (opt_member k (map_option JStr x))"
  "nums_ok_members (opt_member k (map_option json_uint32 y))"
  by (auto simp: opt_member_def split: option.splits)

lemma clean_opt_string:
  "opt_valid x \<Longrightarrow> to_valid k = k \<Longrightarrow>
   clean_members (opt_member k (map_option JStr x)) = opt_member k (map_option JStr x)"
  by (cases x) (auto simp: opt_member_def opt_valid_def to_valid_id)

lemma clean_opt_uint32:
  "to_valid k = k \<Longrightarrow>
   clean_members (opt_member k (map_option json_uint32 x)) = opt_member k (map_option json_uint32 x)"
  by (cases x) (auto simp: opt_member_def)

text \<open>Member keys are ASCII literals; their validity and folding are evaluated once.\<close>

lemma literal_keys:
  "to_valid ''name'' = ''name''" "to_valid ''port'' = ''port''" "to_valid ''protocol'' = ''protocol''"
  "to_valid ''service_name'' = ''service_name''" "to_valid ''instance'' = ''instance''"
  "to_valid ''location'' = ''location''" "to_valid ''datacenter'' = ''datacenter''"
  "to_valid ''node'' = ''node''" "to_valid ''addresses'' = ''addresses''" "to_valid ''ports'' = ''ports''"
  "to_valid ''metrics_port'' = ''metrics_port''"
  by (rule to_valid_id, rule utf8_valid_ascii, simp)+

lemma fold_keys:
  "json_fold ''name'' = ''NAME''" "json_fold ''port'' = ''PORT''" "json_fold ''protocol'' = ''PROTOCOL''"
  "json_fold ''service_name'' = ''SERVICE_NAME''" "json_fold ''instance'' = ''INSTANCE''"
  "json_fold ''location'' = ''LOCATION''" "json_fold ''datacenter'' = ''DATACENTER''"
  "json_fold ''node'' = ''NODE''" "json_fold ''addresses'' = ''ADDRESSES''" "json_fold ''ports'' = ''PORTS''"
  "json_fold ''metrics_port'' = ''METRICS_PORT''"
  by code_simp+

lemmas member_keys = literal_keys fold_keys json_key_def

lemma dec_list_map:
  "(\<And>x. x \<in> set xs \<Longrightarrow> f (g x) = Some x) \<Longrightarrow> dec_list f (map g xs) = Some xs"
  by (induction xs) auto

lemma port_fields:
  "port_field p ''name'' v = set_opt (\<lambda>x p. p\<lparr>port_name := x\<rparr>) (dec_string_ptr v) p"
  "port_field p ''port'' v = set_opt (\<lambda>x p. p\<lparr>port_port := x\<rparr>) (dec_uint32_ptr v) p"
  "port_field p ''protocol'' v = set_opt (\<lambda>x p. p\<lparr>port_protocol := x\<rparr>) (dec_string_ptr v) p"
  by (simp_all add: port_field_def member_keys del: json_fold.simps)

lemma spec_fields:
  "spec_field s ''service_name'' v = set_opt (\<lambda>x s. s\<lparr>spec_service_name := x\<rparr>) (dec_string_ptr v) s"
  "spec_field s ''instance'' v = set_opt (\<lambda>x s. s\<lparr>spec_instance := x\<rparr>) (dec_string_ptr v) s"
  "spec_field s ''location'' v = set_opt (\<lambda>x s. s\<lparr>spec_location := x\<rparr>) (dec_string_ptr v) s"
  "spec_field s ''datacenter'' v = set_opt (\<lambda>x s. s\<lparr>spec_datacenter := x\<rparr>) (dec_string_ptr v) s"
  "spec_field s ''node'' v = set_opt (\<lambda>x s. s\<lparr>spec_node := x\<rparr>) (dec_string_ptr v) s"
  "spec_field s ''addresses'' v = set_opt (\<lambda>x s. s\<lparr>spec_addresses := x\<rparr>) (dec_slice dec_string_elem v) s"
  "spec_field s ''ports'' v = set_opt (\<lambda>x s. s\<lparr>spec_ports := x\<rparr>) (dec_slice dec_port_ptr v) s"
  "spec_field s ''metrics_port'' v = set_opt (\<lambda>x s. s\<lparr>spec_metrics_port := x\<rparr>) (dec_uint32_ptr v) s"
  by (simp_all add: spec_field_def member_keys del: json_fold.simps)

lemma port_members:
  "dec_members port_field empty_port
     (opt_member ''name'' (map_option JStr (port_name p))
      @ opt_member ''port'' (map_option json_uint32 (port_port p))
      @ opt_member ''protocol'' (map_option JStr (port_protocol p))) = Some p"
  by (cases "port_name p"; cases "port_port p"; cases "port_protocol p")
    (simp_all add: opt_member_def port_fields set_opt_def empty_port_def)

lemma port_round_trip: "port_valid p \<Longrightarrow> dec_port_ptr (json_clean (json_port_ptr p)) = Some p"
proof (cases p)
  case (Some q)
  assume "port_valid p"
  with Some have v: "opt_valid (port_name q)" "opt_valid (port_protocol q)" by (auto simp: port_valid_def)
  have "json_clean (json_port q) = json_port q"
    by (simp add: json_port_def clean_members_append clean_opt_string clean_opt_uint32 v literal_keys)
  then show ?thesis using Some port_members [of q] by (simp add: json_port_ptr_def json_port_def)
qed (simp add: json_port_ptr_def)

lemma nums_ok_port_ptr: "nums_ok (json_port_ptr p)"
  by (cases p) (simp_all add: json_port_ptr_def json_port_def nums_ok_members_append)

lemma nums_ok_spec: "nums_ok (json_spec s)"
  by (simp add: json_spec_def nums_ok_members_append slice_member_def nums_ok_elems_all list_all_iff
      nums_ok_port_ptr)

lemma spec_member_steps:
  "spec_service_name s = None \<Longrightarrow>
    dec_members spec_field s (opt_member ''service_name'' (map_option JStr x)) = Some (s\<lparr>spec_service_name := x\<rparr>)"
  "spec_instance s = None \<Longrightarrow>
    dec_members spec_field s (opt_member ''instance'' (map_option JStr x)) = Some (s\<lparr>spec_instance := x\<rparr>)"
  "spec_location s = None \<Longrightarrow>
    dec_members spec_field s (opt_member ''location'' (map_option JStr x)) = Some (s\<lparr>spec_location := x\<rparr>)"
  "spec_datacenter s = None \<Longrightarrow>
    dec_members spec_field s (opt_member ''datacenter'' (map_option JStr x)) = Some (s\<lparr>spec_datacenter := x\<rparr>)"
  "spec_node s = None \<Longrightarrow>
    dec_members spec_field s (opt_member ''node'' (map_option JStr x)) = Some (s\<lparr>spec_node := x\<rparr>)"
  "spec_metrics_port s = None \<Longrightarrow>
    dec_members spec_field s (opt_member ''metrics_port'' (map_option json_uint32 y)) = Some (s\<lparr>spec_metrics_port := y\<rparr>)"
  by (cases x; cases y; simp add: opt_member_def spec_fields set_opt_def)+

lemma spec_slice_steps:
  shows "spec_addresses s = [] \<Longrightarrow> list_all utf8_valid xs \<Longrightarrow>
    dec_members spec_field s (clean_members (slice_member ''addresses'' (map JStr xs))) = Some (s\<lparr>spec_addresses := xs\<rparr>)"
    "spec_ports s = [] \<Longrightarrow> list_all port_valid ps \<Longrightarrow>
    dec_members spec_field s (clean_members (slice_member ''ports'' (map json_port_ptr ps))) = Some (s\<lparr>spec_ports := ps\<rparr>)"
proof -
  assume "spec_addresses s = []" "list_all utf8_valid xs"
  moreover from this have "dec_list dec_string_elem (map (\<lambda>x. JStr (to_valid x)) xs) = Some xs"
    by (intro dec_list_map) (auto simp: list_all_iff to_valid_id)
  ultimately show "dec_members spec_field s (clean_members (slice_member ''addresses'' (map JStr xs))) = Some (s\<lparr>spec_addresses := xs\<rparr>)"
    by (simp add: slice_member_def clean_elems_map literal_keys spec_fields set_opt_def comp_def)
next
  assume "spec_ports s = []" "list_all port_valid ps"
  moreover from this have "dec_list dec_port_ptr (map (\<lambda>p. json_clean (json_port_ptr p)) ps) = Some ps"
    by (intro dec_list_map) (auto simp: list_all_iff port_round_trip)
  ultimately show "dec_members spec_field s (clean_members (slice_member ''ports'' (map json_port_ptr ps))) = Some (s\<lparr>spec_ports := ps\<rparr>)"
    by (simp add: slice_member_def clean_elems_map literal_keys spec_fields set_opt_def comp_def)
qed

lemma unmarshal_marshal_spec:
  assumes "spec_valid s"
  shows "unmarshal_spec (marshal_spec s) = Some s" "unmarshal_spec_ptr (marshal_spec s) = Some (Some s)"
proof -
  obtain ms where ms: "json_spec s = JObj ms" by (simp add: json_spec_def)
  then have parse: "json_parse (marshal_spec s) = Some (JObj (clean_members ms))"
    using json_parse_print [OF nums_ok_spec [of s]] by (simp add: marshal_spec_def)
  have "dec_members spec_field empty_spec (clean_members ms) = Some s"
    using assms ms unfolding spec_valid_def json_spec_def
    by (auto simp: clean_members_append dec_members_append clean_opt_string clean_opt_uint32
        literal_keys spec_member_steps spec_slice_steps empty_spec_def)
  with parse show "unmarshal_spec (marshal_spec s) = Some s"
    "unmarshal_spec_ptr (marshal_spec s) = Some (Some s)"
    by (simp_all add: unmarshal_spec_def unmarshal_spec_ptr_def)
qed

interpretation spec_codec: codec spec_valid marshal_spec unmarshal_spec
  by unfold_locales (rule unmarshal_marshal_spec)

end
