(* ===== verification/NetIP.thy ===== *)
theory NetIP
  imports GoLib "HOL-Library.Word"
begin

text \<open>
  IP addresses of Go's \<^verbatim>\<open>net/netip\<close> and \<^verbatim>\<open>net\<close> packages: the parser of textual addresses, the
  printer, and the predicates that the configuration, the certificates, the DNS server and the
  Prometheus observer use.
\<close>

section \<open>\<^verbatim>\<open>netip.Addr\<close>\<close>

text \<open>The zero value, an IPv4 address of four bytes, or an IPv6 address of eight 16-bit groups
  with a zone (empty where there is none).\<close>

datatype addr =
    AddrZero
  | Addr4 char char char char
  | Addr6 "16 word list" string

fun addr_is_valid :: "addr \<Rightarrow> bool" where
  "addr_is_valid AddrZero = False"
| "addr_is_valid _ = True"

fun addr_is4 :: "addr \<Rightarrow> bool" where
  "addr_is4 (Addr4 _ _ _ _) = True"
| "addr_is4 _ = False"

fun addr_is6 :: "addr \<Rightarrow> bool" where
  "addr_is6 (Addr6 _ _) = True"
| "addr_is6 _ = False"

definition group_bytes :: "16 word \<Rightarrow> string" where
  "group_bytes g = [char_of (unat g div 256), char_of (unat g mod 256)]"

fun addr_as_slice :: "addr \<Rightarrow> string" where
  "addr_as_slice AddrZero = []"
| "addr_as_slice (Addr4 a b c d) = [a, b, c, d]"
| "addr_as_slice (Addr6 gs _) = concat (map group_bytes gs)"

section \<open>Parsing\<close>

definition parse_octet :: "string \<Rightarrow> nat option" where
  "parse_octet p =
     (if p = [] \<or> \<not> list_all is_digit p \<or> (1 < length p \<and> hd p = CHR ''0'') \<or> 255 < dec_val 0 p
      then None else Some (dec_val 0 p))"

definition parse_ipv4 :: "string \<Rightarrow> (nat \<times> nat \<times> nat \<times> nat) option" where
  "parse_ipv4 s =
     (case split_on (CHR ''.'') s of
        [a, b, c, d] \<Rightarrow>
          (case (parse_octet a, parse_octet b, parse_octet c, parse_octet d) of
             (Some a, Some b, Some c, Some d) \<Rightarrow> Some (a, b, c, d)
           | _ \<Rightarrow> None)
      | _ \<Rightarrow> None)"

definition hex_digit_val :: "char \<Rightarrow> nat option" where
  "hex_digit_val c =
     (let n = of_char c in
      if 48 \<le> n \<and> n \<le> 57 then Some (n - 48)
      else if 97 \<le> n \<and> n \<le> 102 then Some (n - 87)
      else if 65 \<le> n \<and> n \<le> 70 then Some (n - 55) else None)"

definition is_hex :: "char \<Rightarrow> bool" where
  "is_hex c = (hex_digit_val c \<noteq> None)"

fun hex_value :: "nat \<Rightarrow> string \<Rightarrow> nat" where
  "hex_value n [] = n"
| "hex_value n (c # cs) = hex_value (n * 16 + the (hex_digit_val c)) cs"

text \<open>
  The loop of \<^verbatim>\<open>parseIPv6\<close>: \<open>k\<close> groups may still be read, \<open>gs\<close> are the groups so far and \<open>ell\<close>
  the position of \<^verbatim>\<open>::\<close> if one was seen.
\<close>

fun ipv6_loop :: "nat \<Rightarrow> 16 word list \<Rightarrow> nat option \<Rightarrow> string \<Rightarrow> (16 word list \<times> nat option) option" where
  "ipv6_loop 0 gs ell s = (if s = [] then Some (gs, ell) else None)"
| "ipv6_loop (Suc k) gs ell s =
     (let ds = takeWhile is_hex s; r = dropWhile is_hex s; gs' = gs @ [of_nat (hex_value 0 ds)] in
      if ds = [] \<or> 4 < length ds then None
      else (case r of
          [] \<Rightarrow> Some (gs', ell)
        | c # t \<Rightarrow>
            if c = CHR ''.'' then
              (if ell = None \<and> length gs \<noteq> 6 \<or> 8 < length gs + 2 then None
               else (case parse_ipv4 s of
                   None \<Rightarrow> None
                 | Some (w, x, y, z) \<Rightarrow>
                     Some (gs @ [of_nat (w * 256 + x), of_nat (y * 256 + z)], ell)))
            else if c \<noteq> CHR '':'' \<or> t = [] then None
            else if hd t = CHR '':'' then
              (if ell \<noteq> None then None
               else if tl t = [] then Some (gs', Some (length gs'))
               else ipv6_loop k gs' (Some (length gs')) (tl t))
            else ipv6_loop k gs' ell t))"

definition ipv6_expand :: "16 word list \<Rightarrow> nat option \<Rightarrow> 16 word list option" where
  "ipv6_expand gs ell =
     (case ell of
        None \<Rightarrow> if length gs < 8 then None else Some gs
      | Some e \<Rightarrow>
          if length gs < 8 then Some (take e gs @ replicate (8 - length gs) 0 @ drop e gs) else None)"

definition parse_ipv6 :: "string \<Rightarrow> addr option" where
  "parse_ipv6 input =
     (case (case split_first ''%'' input of None \<Rightarrow> Some (input, [])
            | Some (s, z) \<Rightarrow> if z = [] then None else Some (s, z)) of
        None \<Rightarrow> None
      | Some (s, zone) \<Rightarrow>
          if s = ''::'' then Some (Addr6 (replicate 8 0) zone)
          else
            (case (if prefix ''::'' s then ipv6_loop 8 [] (Some 0) (drop 2 s) else ipv6_loop 8 [] None s) of
               None \<Rightarrow> None
             | Some (gs, ell) \<Rightarrow> map_option (\<lambda>g. Addr6 g zone) (ipv6_expand gs ell)))"

text \<open>\<^verbatim>\<open>ParseAddr\<close> decides by the first dot, colon or percent sign of the input.\<close>

definition parse_addr :: "string \<Rightarrow> addr option" where
  "parse_addr s =
     (case dropWhile (\<lambda>c. c \<noteq> CHR ''.'' \<and> c \<noteq> CHR '':'' \<and> c \<noteq> CHR ''%'') s of
        [] \<Rightarrow> None
      | c # _ \<Rightarrow>
          if c = CHR ''.'' then
            map_option (\<lambda>(a, b, c, d). Addr4 (char_of a) (char_of b) (char_of c) (char_of d)) (parse_ipv4 s)
          else if c = CHR '':'' then parse_ipv6 s
          else None)"

section \<open>Printing\<close>

definition ipv4_string :: "char \<Rightarrow> char \<Rightarrow> char \<Rightarrow> char \<Rightarrow> string" where
  "ipv4_string a b c d = join_with ''.'' (map (\<lambda>x. show_nat (of_char x)) [a, b, c, d])"

fun show_hex :: "nat \<Rightarrow> string" where
  "show_hex n =
     (let c = (if n mod 16 < 10 then char_of (48 + n mod 16) else char_of (87 + n mod 16)) in
      if n < 16 then [c] else show_hex (n div 16) @ [c])"

declare show_hex.simps [simp del]

text \<open>The longest run of at least two zero groups, the first of equals: its start and end.\<close>

definition zero_run_end :: "16 word list \<Rightarrow> nat \<Rightarrow> nat" where
  "zero_run_end gs i = i + length (takeWhile (\<lambda>g. g = 0) (drop i gs))"

definition zero_run :: "16 word list \<Rightarrow> (nat \<times> nat) option" where
  "zero_run gs =
     foldl (\<lambda>best i.
         let j = zero_run_end gs i; len = (case best of None \<Rightarrow> 0 | Some (s, e) \<Rightarrow> e - s) in
         if 2 \<le> j - i \<and> len < j - i then Some (i, j) else best)
       None [0..<8]"

definition ipv6_groups_string :: "16 word list \<Rightarrow> string" where
  "ipv6_groups_string gs = join_with '':'' (map (\<lambda>g. show_hex (unat g)) gs)"

definition ipv6_string :: "16 word list \<Rightarrow> string" where
  "ipv6_string gs =
     (case zero_run gs of
        None \<Rightarrow> ipv6_groups_string gs
      | Some (s, e) \<Rightarrow> ipv6_groups_string (take s gs) @ ''::'' @ ipv6_groups_string (drop e gs))"

fun addr_string :: "addr \<Rightarrow> string" where
  "addr_string AddrZero = ''invalid IP''"
| "addr_string (Addr4 a b c d) = ipv4_string a b c d"
| "addr_string (Addr6 gs zone) =
     (if take 6 gs = [0, 0, 0, 0, 0, 0xFFFF] then
        (case concat (map group_bytes (drop 6 gs)) of
           [a, b, c, d] \<Rightarrow> ''::ffff:'' @ ipv4_string a b c d
         | _ \<Rightarrow> [])
      else ipv6_string gs)
     @ (if zone = [] then [] else ''%'' @ zone)"

section \<open>\<^verbatim>\<open>net.IP\<close>\<close>

text \<open>A \<^verbatim>\<open>net.IP\<close> is a byte slice of length 4 or 16; an IPv4 address may be in either form.\<close>

definition v4_in_v6_prefix :: string where
  "v4_in_v6_prefix = replicate 10 (CHR 0x00) @ [CHR 0xFF, CHR 0xFF]"

definition ip_to4 :: "string \<Rightarrow> string option" where
  "ip_to4 ip =
     (if length ip = 4 then Some ip
      else if length ip = 16 \<and> take 12 ip = v4_in_v6_prefix then Some (drop 12 ip)
      else None)"

definition ip_equal :: "string \<Rightarrow> string \<Rightarrow> bool" where
  "ip_equal a b =
     (if length a = length b then a = b
      else if length a = 4 \<and> length b = 16 then take 12 b = v4_in_v6_prefix \<and> a = drop 12 b
      else if length a = 16 \<and> length b = 4 then take 12 a = v4_in_v6_prefix \<and> drop 12 a = b
      else False)"

definition ip_link_local_unicast :: "string \<Rightarrow> bool" where
  "ip_link_local_unicast ip =
     (case ip_to4 ip of
        Some ip4 \<Rightarrow> take 2 ip4 = [CHR 0xA9, CHR 0xFE]
      | None \<Rightarrow> length ip = 16 \<and> hd ip = CHR 0xFE \<and> of_char (ip ! 1) div 64 = (2 :: nat))"

definition ip_link_local_multicast :: "string \<Rightarrow> bool" where
  "ip_link_local_multicast ip =
     (case ip_to4 ip of
        Some ip4 \<Rightarrow> take 3 ip4 = [CHR 0xE0, CHR 0x00, CHR 0x00]
      | None \<Rightarrow> length ip = 16 \<and> hd ip = CHR 0xFF \<and> of_char (ip ! 1) mod 16 = (2 :: nat))"

fun groups_of_bytes :: "string \<Rightarrow> 16 word list" where
  "groups_of_bytes (a # b # r) = of_nat (of_char a * 256 + of_char b) # groups_of_bytes r"
| "groups_of_bytes _ = []"

text \<open>\<^verbatim>\<open>netip.AddrFromSlice\<close>; the zero address for a slice of another length.\<close>

definition addr_from_slice :: "string \<Rightarrow> addr" where
  "addr_from_slice s =
     (case s of
        [a, b, c, d] \<Rightarrow> Addr4 a b c d
      | _ \<Rightarrow> if length s = 16 then Addr6 (groups_of_bytes s) [] else AddrZero)"

section \<open>Facts\<close>

lemma parse_octet_show: "n < 256 \<Longrightarrow> parse_octet (show_nat n) = Some n"
proof -
  assume n: "n < 256"
  have "length (show_nat n) \<le> 1 \<or> hd (show_nat n) \<noteq> CHR ''0''"
  proof (cases "n < 10")
    case True
    then show ?thesis by (simp add: show_nat.simps [of n])
  next
    case False
    have "hd (show_nat n) = digit_char d" if "show_nat n = digit_char d # r" for d r
      using that by simp
    have "n div 10 < 10 \<or> n div 10 div 10 < 10 \<and> 10 \<le> n div 10" using n by auto
    moreover have "digit_char d \<noteq> CHR ''0''" if "0 < d" "d < 10" for d
    proof
      assume "digit_char d = CHR ''0''"
      then have "digit_val (digit_char d) = 0" by (simp add: digit_val_def)
      with that show False by simp
    qed
    ultimately show ?thesis using False
      by (auto simp: show_nat.simps [of n] show_nat.simps [of "n div 10"]
          show_nat.simps [of "n div 10 div 10"] div_eq_0_iff)
  qed
  then show ?thesis
    using n show_nat_digits [of n] by (auto simp: parse_octet_def dec_val_show_nat not_less)
qed

lemma dot_not_digit: "\<not> is_digit (CHR ''.'')"
  by (simp add: is_digit_def)

lemma parse_ipv4_string:
  "parse_ipv4 (ipv4_string a b c d) = Some (of_char a, of_char b, of_char c, of_char d)"
proof -
  have "split_on (CHR ''.'') (ipv4_string a b c d) = map (\<lambda>x. show_nat (of_char x)) [a, b, c, d]"
    unfolding ipv4_string_def
    by (rule split_join) (auto simp: list_all_iff dest: digit_notin_show_nat [OF dot_not_digit, THEN notE])
  then show ?thesis by (simp add: parse_ipv4_def parse_octet_show)
qed

lemma parse_addr_ipv4_string: "parse_addr (ipv4_string a b c d) = Some (Addr4 a b c d)"
proof -
  let ?p = "\<lambda>c. c \<noteq> CHR ''.'' \<and> c \<noteq> CHR '':'' \<and> c \<noteq> CHR ''%''"
  have "ipv4_string a b c d =
      show_nat (of_char a) @ CHR ''.'' # join_with ''.'' (map (\<lambda>x. show_nat (of_char x)) [b, c, d])"
    by (simp add: ipv4_string_def)
  moreover have "\<And>x. x \<in> set (show_nat (of_char a)) \<Longrightarrow> ?p x"
    using show_nat_digits [of "of_char a"] by (auto simp: list_all_iff is_digit_def)
  ultimately have "\<exists>r. dropWhile ?p (ipv4_string a b c d) = CHR ''.'' # r"
    by (simp add: dropWhile_append2)
  then show ?thesis by (auto simp: parse_addr_def parse_ipv4_string)
qed

interpretation ipv4: codec addr_is4 addr_string parse_addr
proof unfold_locales
  fix x assume "addr_is4 x"
  then show "parse_addr (addr_string x) = Some x"
    by (cases x) (simp_all add: parse_addr_ipv4_string)
qed

lemma ip_to4_is4: "ip_to4 ip = Some b \<Longrightarrow> length b = 4"
  by (auto simp: ip_to4_def split: if_splits)

end
