(* ===== verification/Schemas.thy ===== *)
theory Schemas
  imports Services NetIP
begin

text \<open>
  registry/schemas/schemas.go: the record of a node that the registry keeps in etcd, with its
  JSON form, and \<^verbatim>\<open>Hostname\<close>, a name or an address that a registry advertises.
\<close>

section \<open>\<^verbatim>\<open>NodeSchema\<close>\<close>

record node_schema =
  ns_name :: string
  ns_datacenter :: string
  ns_location :: string
  ns_type :: string

text \<open>
  The tag of the last field, \<^verbatim>\<open>json:type\<close> without quotes, is not a well-formed struct tag, so
  \<^verbatim>\<open>encoding/json\<close> does not see it and the member is called after the field, \<^verbatim>\<open>Type\<close>.
\<close>

definition json_node :: "node_schema \<Rightarrow> json" where
  "json_node n = JObj
     [(''name'', JStr (ns_name n)), (''dc'', JStr (ns_datacenter n)),
      (''location'', JStr (ns_location n)), (''Type'', JStr (ns_type n))]"

definition marshal_node :: "node_schema \<Rightarrow> string" where
  "marshal_node n = json_print (json_node n)"

definition empty_node :: node_schema where
  "empty_node = \<lparr>ns_name = [], ns_datacenter = [], ns_location = [], ns_type = []\<rparr>"

text \<open>A string field: a null leaves it as it is, anything but a string is an error.\<close>

fun dec_string_field :: "(string \<Rightarrow> 'a \<Rightarrow> 'a) \<Rightarrow> json \<Rightarrow> 'a \<Rightarrow> 'a option" where
  "dec_string_field upd JNull st = Some st"
| "dec_string_field upd (JStr s) st = Some (upd s st)"
| "dec_string_field upd _ st = None"

definition node_field :: "node_schema \<Rightarrow> string \<Rightarrow> json \<Rightarrow> node_schema option" where
  "node_field n k v =
     (if json_key ''name'' k then dec_string_field (\<lambda>x n. n\<lparr>ns_name := x\<rparr>) v n
      else if json_key ''dc'' k then dec_string_field (\<lambda>x n. n\<lparr>ns_datacenter := x\<rparr>) v n
      else if json_key ''location'' k then dec_string_field (\<lambda>x n. n\<lparr>ns_location := x\<rparr>) v n
      else if json_key ''Type'' k then dec_string_field (\<lambda>x n. n\<lparr>ns_type := x\<rparr>) v n
      else Some n)"

definition unmarshal_node :: "string \<Rightarrow> node_schema option" where
  "unmarshal_node data =
     (case json_parse data of
        Some JNull \<Rightarrow> Some empty_node
      | Some (JObj ms) \<Rightarrow> dec_members node_field empty_node ms
      | _ \<Rightarrow> None)"

definition node_valid :: "node_schema \<Rightarrow> bool" where
  "node_valid n \<longleftrightarrow> utf8_valid (ns_name n) \<and> utf8_valid (ns_datacenter n)
     \<and> utf8_valid (ns_location n) \<and> utf8_valid (ns_type n)"

lemma node_keys:
  "to_valid ''name'' = ''name''" "to_valid ''dc'' = ''dc''" "to_valid ''location'' = ''location''"
  "to_valid ''Type'' = ''Type''"
  by (rule to_valid_id, rule utf8_valid_ascii, simp)+

lemma node_fold_keys: "json_fold ''dc'' = ''DC''" "json_fold ''Type'' = ''TYPE''"
  by code_simp+

lemma node_fields:
  "node_field n ''name'' v = dec_string_field (\<lambda>x n. n\<lparr>ns_name := x\<rparr>) v n"
  "node_field n ''dc'' v = dec_string_field (\<lambda>x n. n\<lparr>ns_datacenter := x\<rparr>) v n"
  "node_field n ''location'' v = dec_string_field (\<lambda>x n. n\<lparr>ns_location := x\<rparr>) v n"
  "node_field n ''Type'' v = dec_string_field (\<lambda>x n. n\<lparr>ns_type := x\<rparr>) v n"
  by (simp_all add: node_field_def member_keys node_fold_keys del: json_fold.simps)

text \<open>What is read back for any node: its strings with every invalid byte replaced.\<close>

definition node_clean :: "node_schema \<Rightarrow> node_schema" where
  "node_clean n = \<lparr>ns_name = to_valid (ns_name n), ns_datacenter = to_valid (ns_datacenter n),
     ns_location = to_valid (ns_location n), ns_type = to_valid (ns_type n)\<rparr>"

lemma unmarshal_marshal_node_clean: "unmarshal_node (marshal_node n) = Some (node_clean n)"
proof -
  have "nums_ok (json_node n)" by (simp add: json_node_def)
  then have "json_parse (marshal_node n) = Some (json_clean (json_node n))"
    unfolding marshal_node_def by (rule json_parse_print)
  then show ?thesis
    by (simp add: unmarshal_node_def json_node_def node_keys node_fields empty_node_def node_clean_def)
qed

lemma node_clean_valid: "node_valid n \<Longrightarrow> node_clean n = n"
  by (simp add: node_clean_def node_valid_def to_valid_id)

interpretation node_codec: codec node_valid marshal_node unmarshal_node
  by unfold_locales (simp add: unmarshal_marshal_node_clean node_clean_valid)

section \<open>\<^verbatim>\<open>Hostname\<close>\<close>

record hostname =
  host_fqdn :: string
  host_addr :: addr

definition zero_hostname :: hostname where
  "zero_hostname = \<lparr>host_fqdn = [], host_addr = AddrZero\<rparr>"

definition hostname_from_fqdn :: "string \<Rightarrow> hostname" where
  "hostname_from_fqdn fqdn = \<lparr>host_fqdn = fqdn, host_addr = AddrZero\<rparr>"

definition hostname_from_addr :: "addr \<Rightarrow> hostname" where
  "hostname_from_addr a = \<lparr>host_fqdn = [], host_addr = a\<rparr>"

definition parse_hostname :: "string \<Rightarrow> hostname outcome" where
  "parse_hostname v =
     (if v = [] then Inl (Failure ''Hostname must not be empty'')
      else (case parse_addr v of
          Some ip \<Rightarrow> Inr (hostname_from_addr ip)
        | None \<Rightarrow> Inr (hostname_from_fqdn v)))"

definition hostname_is_valid :: "hostname \<Rightarrow> bool" where
  "hostname_is_valid h \<longleftrightarrow> h \<noteq> zero_hostname"

definition hostname_is_address :: "hostname \<Rightarrow> bool" where
  "hostname_is_address h = addr_is_valid (host_addr h)"

definition hostname_address :: "hostname \<Rightarrow> addr" where
  [simp]: "hostname_address h = host_addr h"

definition hostname_fqdn :: "hostname \<Rightarrow> string" where
  [simp]: "hostname_fqdn h = host_fqdn h"

definition hostname_string :: "hostname \<Rightarrow> string" where
  "hostname_string h = (if hostname_is_address h then addr_string (host_addr h) else host_fqdn h)"

definition hostname_marshal :: "hostname \<Rightarrow> string" where
  "hostname_marshal h = json_print (JStr (hostname_string h))"

text \<open>\<^verbatim>\<open>UnmarshalJSON\<close>; the target is returned unchanged on an error. A null decodes to the
  empty string, which \<^verbatim>\<open>ParseHostname\<close> rejects.\<close>

definition hostname_unmarshal :: "hostname \<Rightarrow> string \<Rightarrow> unit outcome \<times> hostname" where
  "hostname_unmarshal h data =
     (case (case json_parse data of Some v \<Rightarrow> dec_string_elem v | None \<Rightarrow> None) of
        None \<Rightarrow> (Inl (Failure ''json''), h)
      | Some temp \<Rightarrow>
          (case parse_hostname temp of
             Inl err \<Rightarrow> (Inl err, h)
           | Inr h' \<Rightarrow> (Inr (), h')))"

definition host_with_port :: "hostname \<Rightarrow> 16 word \<Rightarrow> string" where
  "host_with_port h port =
     (if addr_is_valid (host_addr h) then
        (if addr_is4 (host_addr h) then addr_string (host_addr h) @ '':'' @ show_nat (unat port)
         else ''['' @ addr_string (host_addr h) @ '']:'' @ show_nat (unat port))
      else host_fqdn h @ '':'' @ show_nat (unat port))"

section \<open>Facts about host names\<close>

lemma parse_hostname_valid: "parse_hostname v = Inr h \<Longrightarrow> hostname_is_valid h"
proof -
  assume h: "parse_hostname v = Inr h"
  have "a \<noteq> AddrZero" if "parse_addr v = Some a" for a
    using that by (auto simp: parse_addr_def parse_ipv6_def Let_def split: list.splits if_splits option.splits prod.splits)
  with h show ?thesis
    by (auto simp: parse_hostname_def hostname_is_valid_def zero_hostname_def hostname_from_addr_def
        hostname_from_fqdn_def split: if_splits option.splits)
qed

text \<open>A host name as it can be written back: an IPv4 address, or a name that is no address.\<close>

definition hostname_plain :: "hostname \<Rightarrow> bool" where
  "hostname_plain h \<longleftrightarrow>
     (host_fqdn h = [] \<and> addr_is4 (host_addr h))
     \<or> (host_addr h = AddrZero \<and> host_fqdn h \<noteq> [] \<and> parse_addr (host_fqdn h) = None)"

lemma parse_hostname_string:
  assumes "hostname_plain h"
  shows "parse_hostname (hostname_string h) = Inr h"
proof (cases "addr_is4 (host_addr h)")
  case True
  then obtain a b c d where a: "host_addr h = Addr4 a b c d" by (cases "host_addr h") auto
  with assms have "host_fqdn h = []" by (auto simp: hostname_plain_def)
  moreover have "ipv4_string a b c d \<noteq> []" by (simp add: ipv4_string_def)
  ultimately show ?thesis
    using a by (cases h) (simp add: hostname_string_def hostname_is_address_def parse_hostname_def
        parse_addr_ipv4_string hostname_from_addr_def)
next
  case False
  with assms show ?thesis
    by (cases h) (auto simp: hostname_plain_def hostname_string_def hostname_is_address_def
        parse_hostname_def hostname_from_fqdn_def)
qed

interpretation hostname_text: codec hostname_plain hostname_string
  "\<lambda>s. case parse_hostname s of Inr h \<Rightarrow> Some h | Inl _ \<Rightarrow> None"
  by unfold_locales (simp add: parse_hostname_string)

end
