(* ===== verification/RegConfig.thy ===== *)
theory RegConfig
  imports Schemas
begin

unbundle bit_operations_syntax

text \<open>
  registry/config/config.go: the registry's configuration, its listen and advertise hosts, the
  choice of an address to advertise, and the defaults that \<^verbatim>\<open>LoadConfig\<close> fills in. What the
  environment parser (package env, outside the repository) delivers, the files, the name
  resolver and the network interfaces are inputs.
\<close>

record config =
  cf_name :: string
  cf_dir :: string
  cf_initial_token :: string
  cf_initial_token_file :: string
  cf_join_url :: string
  cf_peer_listen_addr :: addr
  cf_peer_advertise_hostname :: hostname
  cf_etcd_listen_port :: "16 word"
  cf_etcd_client_listen_port :: "16 word"
  cf_peer_api_listen_port :: "16 word"
  cf_agent_api_listen_addr :: addr
  cf_agent_api_advertise_hostname :: hostname
  cf_agent_api_listen_port :: "16 word"

section \<open>Hosts and URLs\<close>

definition peer_api_listen_host :: "config \<Rightarrow> string" where
  "peer_api_listen_host c =
     host_with_port (hostname_from_addr (cf_peer_listen_addr c)) (cf_peer_api_listen_port c)"

definition peer_api_advertise_host :: "config \<Rightarrow> string" where
  "peer_api_advertise_host c =
     host_with_port (cf_peer_advertise_hostname c) (cf_peer_api_listen_port c)"

definition etcd_listen_host :: "config \<Rightarrow> string" where
  "etcd_listen_host c =
     host_with_port (hostname_from_addr (cf_peer_listen_addr c)) (cf_etcd_listen_port c)"

definition etcd_client_listen_host :: "config \<Rightarrow> string" where
  "etcd_client_listen_host c =
     host_with_port (hostname_from_addr (cf_peer_listen_addr c)) (cf_etcd_client_listen_port c)"

definition etcd_advertise_host :: "config \<Rightarrow> string" where
  "etcd_advertise_host c = host_with_port (cf_peer_advertise_hostname c) (cf_etcd_listen_port c)"

definition etcd_client_advertise_host :: "config \<Rightarrow> string" where
  "etcd_client_advertise_host c =
     host_with_port (cf_peer_advertise_hostname c) (cf_etcd_client_listen_port c)"

definition agent_api_listen_host :: "config \<Rightarrow> string" where
  "agent_api_listen_host c =
     host_with_port (hostname_from_addr (cf_agent_api_listen_addr c)) (cf_agent_api_listen_port c)"

definition agent_api_advertise_host :: "config \<Rightarrow> string" where
  "agent_api_advertise_host c =
     host_with_port (cf_agent_api_advertise_hostname c) (cf_agent_api_listen_port c)"

text \<open>\<open>parse_url\<close> is \<^verbatim>\<open>url.Parse\<close>: any parser that may reject its input.\<close>

definition https_urls :: "(string \<Rightarrow> 'u outcome) \<Rightarrow> string \<Rightarrow> string \<Rightarrow> 'u list outcome" where
  "https_urls parse_url what host =
     (case parse_url (''https://'' @ host) of
        Inl _ \<Rightarrow> Inl (Fatal what)
      | Inr u \<Rightarrow> Inr [u])"

definition etcd_advertise_urls :: "(string \<Rightarrow> 'u outcome) \<Rightarrow> config \<Rightarrow> 'u list outcome" where
  "etcd_advertise_urls parse_url c =
     https_urls parse_url ''Invalid peer advertise URL'' (etcd_advertise_host c)"

definition etcd_client_advertise_urls :: "(string \<Rightarrow> 'u outcome) \<Rightarrow> config \<Rightarrow> 'u list outcome" where
  "etcd_client_advertise_urls parse_url c =
     https_urls parse_url ''Invalid peer client advertise URL'' (etcd_client_advertise_host c)"

definition etcd_listen_urls :: "(string \<Rightarrow> 'u outcome) \<Rightarrow> config \<Rightarrow> 'u list outcome" where
  "etcd_listen_urls parse_url c =
     https_urls parse_url ''Invalid peer listen URL'' (etcd_listen_host c)"

definition etcd_client_listen_urls :: "(string \<Rightarrow> 'u outcome) \<Rightarrow> config \<Rightarrow> 'u list outcome" where
  "etcd_client_listen_urls parse_url c =
     https_urls parse_url ''Invalid peer client listen URL'' (etcd_client_listen_host c)"

section \<open>Choosing an address\<close>

datatype iface_addr = IPNet string string | IPAddr string | OtherAddr

definition is_ipv4 :: "string \<Rightarrow> bool" where
  "is_ipv4 ip = (ip_to4 ip \<noteq> None)"

text \<open>The slice expression \<^verbatim>\<open>ip[12:]\<close> panics on an IPv4 address in four-byte form.\<close>

definition ip_to_net_ip_addr :: "string \<Rightarrow> addr outcome" where
  "ip_to_net_ip_addr ip =
     (if is_ipv4 ip then
        (if length ip < 12 then Inl (Panic ''slice bounds out of range'')
         else Inr (addr_from_slice (drop 12 ip)))
      else Inr (addr_from_slice ip))"

definition byte_and :: "char \<Rightarrow> char \<Rightarrow> nat" where
  "byte_and a b = of_char a AND of_char b"

definition network_and_mask :: "string \<Rightarrow> string \<Rightarrow> string \<times> string" where
  "network_and_mask ip m =
     (let ip' = (case ip_to4 ip of Some x \<Rightarrow> x | None \<Rightarrow> ip) in
      if ip_to4 ip = None \<and> length ip \<noteq> 16 then ([], [])
      else if length m = 4 then (if length ip' \<noteq> 4 then ([], []) else (ip', m))
      else if length m = 16 then (if length ip' = 4 then (ip', drop 12 m) else (ip', m))
      else ([], []))"

definition ipnet_contains :: "string \<Rightarrow> string \<Rightarrow> string \<Rightarrow> bool" where
  "ipnet_contains net msk ip =
     (let (nn, m) = network_and_mask net msk; x = (case ip_to4 ip of Some y \<Rightarrow> y | None \<Rightarrow> ip) in
      length x = length nn
      \<and> list_all (\<lambda>i. byte_and (nn ! i) (m ! i) = byte_and (x ! i) (m ! i)) [0..<length x])"

text \<open>The loop over the interfaces; \<open>best\<close> is the choice so far.\<close>

fun best_addr_loop ::
  "string list \<Rightarrow> bool \<Rightarrow> bool \<Rightarrow> addr \<Rightarrow> iface_addr list \<Rightarrow> addr outcome" where
  "best_addr_loop joins no4 no6 best [] = Inr best"
| "best_addr_loop joins no4 no6 best (a # as) =
     (let same_subnet = (case a of IPNet net m \<Rightarrow> list_ex (ipnet_contains net m) joins | _ \<Rightarrow> False);
          ip = (case a of IPNet net m \<Rightarrow> net | IPAddr x \<Rightarrow> x | OtherAddr \<Rightarrow> [])
      in
      if same_subnet then ip_to_net_ip_addr ip
      else if ip_link_local_unicast ip \<or> ip_link_local_multicast ip then best_addr_loop joins no4 no6 best as
      else if is_ipv4 ip \<and> no4 then best_addr_loop joins no4 no6 best as
      else if \<not> is_ipv4 ip \<and> no6 then best_addr_loop joins no4 no6 best as
      else if addr_is6 best \<and> is_ipv4 ip \<or> \<not> addr_is_valid best then
        (case ip_to_net_ip_addr ip of
           Inl e \<Rightarrow> Inl e
         | Inr b \<Rightarrow> best_addr_loop joins no4 no6 b as)
      else best_addr_loop joins no4 no6 best as)"

definition find_best_addr ::
  "(string \<Rightarrow> string list outcome) \<Rightarrow> iface_addr list \<Rightarrow> string \<Rightarrow> addr outcome" where
  "find_best_addr lookup_ip ifaces host =
     (if host = [] then best_addr_loop [] False False AddrZero ifaces
      else
        (case lookup_ip host of
           Inl _ \<Rightarrow> Inl (Fatal ''Failed to resolve join url'')
         | Inr joins \<Rightarrow>
             best_addr_loop joins (\<not> list_ex is_ipv4 joins) (\<not> list_ex (\<lambda>a. \<not> is_ipv4 a) joins)
               AddrZero ifaces))"

section \<open>\<^verbatim>\<open>strings.TrimSpace\<close>\<close>

text \<open>The UTF-8 encodings of the white-space runes.\<close>

definition space_runes :: "string list" where
  "space_runes =
     [[CHR 0x09], [CHR 0x0A], [CHR 0x0B], [CHR 0x0C], [CHR 0x0D], [CHR 0x20],
      [CHR 0xC2, CHR 0x85], [CHR 0xC2, CHR 0xA0], [CHR 0xE1, CHR 0x9A, CHR 0x80],
      [CHR 0xE2, CHR 0x80, CHR 0xA8], [CHR 0xE2, CHR 0x80, CHR 0xA9], [CHR 0xE2, CHR 0x80, CHR 0xAF],
      [CHR 0xE2, CHR 0x81, CHR 0x9F], [CHR 0xE3, CHR 0x80, CHR 0x80]]
     @ map (\<lambda>i. [CHR 0xE2, CHR 0x80, char_of (128 + i)]) [0..<11]"

text \<open>One trimming pass drops at least one byte, so the length of the input bounds the passes.\<close>

fun trim_left :: "nat \<Rightarrow> string \<Rightarrow> string" where
  "trim_left 0 s = s"
| "trim_left (Suc n) s =
     (case find (\<lambda>r. prefix r s) space_runes of
        None \<Rightarrow> s
      | Some r \<Rightarrow> trim_left n (drop (length r) s))"

fun trim_right :: "nat \<Rightarrow> string \<Rightarrow> string" where
  "trim_right 0 s = s"
| "trim_right (Suc n) s =
     (case find (\<lambda>r. suffix r s) space_runes of
        None \<Rightarrow> s
      | Some r \<Rightarrow> trim_right n (take (length s - length r) s))"

definition trim_space :: "string \<Rightarrow> string" where
  "trim_space s = (let t = trim_left (length s) s in trim_right (length t) t)"

section \<open>\<^verbatim>\<open>LoadConfig\<close>\<close>

record load_inputs =
  li_parsed :: "config outcome"
  li_read_file :: "string \<Rightarrow> string outcome"
  li_lookup_ip :: "string \<Rightarrow> string list outcome"
  li_interfaces :: "iface_addr list"

definition load_token :: "load_inputs \<Rightarrow> config \<Rightarrow> config outcome" where
  "load_token inp c =
     (if cf_initial_token_file c = [] then Inr c
      else (case li_read_file inp (cf_initial_token_file c) of
          Inl _ \<Rightarrow> Inl (Fatal ''Error loading token file'')
        | Inr token \<Rightarrow> Inr (c\<lparr>cf_initial_token := trim_space token\<rparr>)))"

definition default_hostnames :: "load_inputs \<Rightarrow> config \<Rightarrow> config outcome" where
  "default_hostnames inp c =
     (case (if hostname_is_valid (cf_peer_advertise_hostname c) then Inr c
            else
              (case (if cf_join_url c = [] then Inr [] else map_sum id fst (split_host_port (cf_join_url c))) of
                 Inl _ \<Rightarrow> Inl (Fatal ''Invalid join url'')
               | Inr host \<Rightarrow>
                   (case find_best_addr (li_lookup_ip inp) (li_interfaces inp) host of
                      Inl e \<Rightarrow> Inl e
                    | Inr a \<Rightarrow> Inr (c\<lparr>cf_peer_advertise_hostname := hostname_from_addr a\<rparr>)))) of
        Inl e \<Rightarrow> Inl e
      | Inr c \<Rightarrow>
          Inr (if hostname_is_valid (cf_agent_api_advertise_hostname c) then c
               else c\<lparr>cf_agent_api_advertise_hostname := cf_peer_advertise_hostname c\<rparr>))"

definition default_ports :: "config \<Rightarrow> config" where
  "default_ports c =
     (let c1 = (if cf_etcd_client_listen_port c = 0
                then c\<lparr>cf_etcd_client_listen_port := cf_etcd_listen_port c + 1\<rparr> else c);
          c2 = (if cf_peer_api_listen_port c1 = 0
                then c1\<lparr>cf_peer_api_listen_port := cf_etcd_client_listen_port c1 + 1\<rparr> else c1)
      in if cf_agent_api_listen_port c2 = 0
         then c2\<lparr>cf_agent_api_listen_port := cf_peer_api_listen_port c2 + 1\<rparr> else c2)"

definition load_config :: "load_inputs \<Rightarrow> config outcome" where
  "load_config inp =
     (case li_parsed inp of
        Inl _ \<Rightarrow> Inl (Fatal ''Error loading configuration'')
      | Inr c \<Rightarrow>
          (case load_token inp c of
             Inl e \<Rightarrow> Inl e
           | Inr c \<Rightarrow>
               if cf_join_url c \<noteq> [] \<and> cf_initial_token c = []
               then Inl (Fatal ''Token or token file must be set when joining an existing cluster'')
               else
                 (case default_hostnames inp c of
                    Inl e \<Rightarrow> Inl e
                  | Inr c \<Rightarrow> Inr (default_ports c))))"

section \<open>Facts\<close>

lemma find_some_rune: "find (\<lambda>r. prefix r s) space_runes = Some r \<Longrightarrow> prefix r s \<and> r \<noteq> []"
  by (auto simp: find_Some_iff space_runes_def nth_append split: if_splits)

section \<open>Which address is chosen\<close>

text \<open>The families in the order in which the loop prefers them.\<close>

datatype addr_family = NoFamily | FamilyIPv6 | FamilyIPv4

fun family_rank :: "addr_family \<Rightarrow> nat" where
  "family_rank NoFamily = 0"
| "family_rank FamilyIPv6 = 1"
| "family_rank FamilyIPv4 = 2"

lemma family_rank_inject [simp]: "family_rank a = family_rank b \<longleftrightarrow> a = b"
  by (cases a; cases b) simp_all

instantiation addr_family :: linorder
begin

definition less_eq_addr_family :: "addr_family \<Rightarrow> addr_family \<Rightarrow> bool" where
  "less_eq_addr_family a b \<longleftrightarrow> family_rank a \<le> family_rank b"

definition less_addr_family :: "addr_family \<Rightarrow> addr_family \<Rightarrow> bool" where
  "less_addr_family a b \<longleftrightarrow> family_rank a < family_rank b"

instance
  by standard (auto simp: less_eq_addr_family_def less_addr_family_def)

end

lemmas family_order = less_eq_addr_family_def less_addr_family_def

fun family_of :: "addr \<Rightarrow> addr_family" where
  "family_of AddrZero = NoFamily"
| "family_of (Addr4 _ _ _ _) = FamilyIPv4"
| "family_of (Addr6 _ _) = FamilyIPv6"

text \<open>Every address of an interface is in the 16-byte form that Go's \<^verbatim>\<open>net.InterfaceAddrs\<close> returns.\<close>

definition iface_ip :: "iface_addr \<Rightarrow> string" where
  "iface_ip a = (case a of IPNet net m \<Rightarrow> net | IPAddr x \<Rightarrow> x | OtherAddr \<Rightarrow> [])"

definition sixteen_bytes :: "iface_addr \<Rightarrow> bool" where
  "sixteen_bytes a \<longleftrightarrow> length (iface_ip a) = 16"

definition shares_subnet :: "string list \<Rightarrow> iface_addr \<Rightarrow> bool" where
  "shares_subnet joins a = (case a of IPNet net m \<Rightarrow> list_ex (ipnet_contains net m) joins | _ \<Rightarrow> False)"

definition usable :: "bool \<Rightarrow> bool \<Rightarrow> iface_addr \<Rightarrow> bool" where
  "usable no4 no6 a \<longleftrightarrow>
     (let ip = iface_ip a in
      \<not> ip_link_local_unicast ip \<and> \<not> ip_link_local_multicast ip \<and> \<not> (if is_ipv4 ip then no4 else no6))"

definition iface_addr_of :: "iface_addr \<Rightarrow> addr" where
  "iface_addr_of a = addr_from_slice (if is_ipv4 (iface_ip a) then drop 12 (iface_ip a) else iface_ip a)"

lemma iface_addr_of_ok: "sixteen_bytes a \<Longrightarrow> ip_to_net_ip_addr (iface_ip a) = Inr (iface_addr_of a)"
  by (simp add: sixteen_bytes_def ip_to_net_ip_addr_def iface_addr_of_def)

lemma family_iface:
  assumes "sixteen_bytes a"
  shows "family_of (iface_addr_of a) = (if is_ipv4 (iface_ip a) then FamilyIPv4 else FamilyIPv6)"
proof -
  have four: "\<exists>w x y z. s = [w, x, y, z]" if "length s = 4" for s :: string
    using that by (auto simp: length_Suc_conv numeral_eq_Suc)
  have "length (drop 12 (iface_ip a)) = 4" using assms by (simp add: sixteen_bytes_def)
  then obtain w x y z where "drop 12 (iface_ip a) = [w, x, y, z]" using four by blast
  moreover have "addr_from_slice s = Addr6 (groups_of_bytes s) []" if "length s = 16" for s
    using that by (auto simp: addr_from_slice_def split: list.split)
  ultimately show ?thesis using assms by (simp add: iface_addr_of_def sixteen_bytes_def) (simp add: addr_from_slice_def)
qed

text \<open>The loop returns the first address that shares a subnet with the peer and otherwise the first of the
  most preferred usable ones.\<close>

lemma best_addr_loop_first_max:
  "list_all sixteen_bytes as \<Longrightarrow> best_addr_loop joins no4 no6 best as =
    (case find (shares_subnet joins) as of
       Some a \<Rightarrow> Inr (iface_addr_of a)
     | None \<Rightarrow> Inr (first_max family_of best (map iface_addr_of (filter (usable no4 no6) as))))"
proof (induction as arbitrary: best)
  case (Cons a as)
  let ?b = "iface_addr_of a"
  have better: "addr_is6 best \<and> is_ipv4 (iface_ip a) \<or> \<not> addr_is_valid best \<longleftrightarrow> family_of best < family_of ?b"
    using Cons.prems family_iface [of a] by (cases best) (simp_all add: family_order)
  have ok: "ip_to_net_ip_addr (iface_ip a) = Inr ?b" using Cons.prems by (simp add: iface_addr_of_ok)
  have step: "best_addr_loop joins no4 no6 best (a # as) =
      (if shares_subnet joins a then Inr ?b
       else best_addr_loop joins no4 no6 (if usable no4 no6 a \<and> family_of best < family_of ?b then ?b else best) as)"
    unfolding best_addr_loop.simps(2) iface_ip_def [symmetric] shares_subnet_def [symmetric] better ok Let_def
    by (simp add: usable_def Let_def)
  with Cons show ?case by (simp split: option.split)
qed simp

section \<open>Properties\<close>

text \<open>C30: the address that is advertised by default is the first one of an interface in a subnet with the registry
  to join; if there is none, the first one of the preferred family among those that are not link-local
  and of a family that this registry has: IPv4 before IPv6, in whatever order the interfaces come.\<close>
theorem best_address_chosen:
  assumes "list_all sixteen_bytes ifaces" "host = [] \<and> joins = [] \<or> host \<noteq> [] \<and> lookup host = Inr joins"
    and "cs = map iface_addr_of
      (filter (usable (host \<noteq> [] \<and> \<not> list_ex is_ipv4 joins) (host \<noteq> [] \<and> \<not> list_ex (\<lambda>a. \<not> is_ipv4 a) joins)) ifaces)"
  shows "\<exists>r. find_best_addr lookup ifaces host = Inr r \<and>
    (case find (shares_subnet joins) ifaces of
       Some a \<Rightarrow> r = iface_addr_of a
     | None \<Rightarrow> if cs = [] then r = AddrZero
         else \<exists>us ws. cs = us @ r # ws \<and> (\<forall>u \<in> set us. family_of u < family_of r) \<and> (\<forall>x \<in> set cs. family_of x \<le> family_of r))"
proof (cases "find (shares_subnet joins) ifaces")
  case (Some a)
  then show ?thesis using assms(1,2) by (auto simp: find_best_addr_def best_addr_loop_first_max)
next
  case None
  define r where "r = first_max family_of AddrZero cs"
  have found: "find_best_addr lookup ifaces host = Inr r"
    using assms None by (auto simp: find_best_addr_def best_addr_loop_first_max r_def)
  have greatest: "\<forall>x \<in> set cs. family_of x \<le> family_of r" by (simp add: first_max_greatest r_def)
  show ?thesis
  proof (cases "cs = []")
    case True
    with found None show ?thesis by (simp add: r_def)
  next
    case False
    then obtain c where "c \<in> set cs" by (cases cs) auto
    moreover from this obtain a where "a \<in> set ifaces" "c = iface_addr_of a" using assms(3) by auto
    ultimately have "a \<in> set ifaces" "iface_addr_of a \<in> set cs" by simp_all
    then have "family_of AddrZero < family_of (iface_addr_of a)" "family_of (iface_addr_of a) \<le> family_of r"
      using assms(1) family_iface [of a] greatest by (auto simp: list_all_iff family_order)
    then have "family_of AddrZero < family_of r" by (rule less_le_trans)
    then obtain us ws where "cs = us @ r # ws" "\<forall>u \<in> set us. family_of u < family_of r"
      using first_max_first [of family_of AddrZero cs] by (auto simp: r_def)
    then show ?thesis using found None False greatest by (intro exI [of _ r]) auto
  qed
qed

definition sample_ifaces :: "iface_addr list" where
  "sample_ifaces =
     [IPAddr (CHR 0x20 # CHR 0x01 # replicate 14 (CHR 0x01)),
      IPAddr (replicate 10 (CHR 0x00) @ [CHR 0xFF, CHR 0xFF, CHR 0x0A, CHR 0x00, CHR 0x00, CHR 0x07])]"

theorem best_address_chosen_witness:
  "find_best_addr (\<lambda>h. Inr []) sample_ifaces [] = Inr (Addr4 (CHR 0x0A) (CHR 0x00) (CHR 0x00) (CHR 0x07))"
proof -
  have "list_all sixteen_bytes sample_ifaces" by code_simp
  note chosen = best_address_chosen [OF this disjI1 [OF conjI [OF refl refl]] refl, of "\<lambda>h. Inr []"]
  have eval: "find (shares_subnet []) sample_ifaces = None" "filter (usable False False) sample_ifaces = sample_ifaces"
    "iface_addr_of (sample_ifaces ! 1) = Addr4 (CHR 0x0A) (CHR 0x00) (CHR 0x00) (CHR 0x07)" by code_simp+
  define six where "six = iface_addr_of (sample_ifaces ! 0)"
  have six: "family_of six = FamilyIPv6"
    unfolding six_def by (subst family_iface) (code_simp, code_simp)
  have "map iface_addr_of (filter (usable False False) sample_ifaces) = [six, iface_addr_of (sample_ifaces ! 1)]"
    unfolding eval(2) six_def by (simp add: sample_ifaces_def)
  with chosen eval(1,3) obtain r us ws where "find_best_addr (\<lambda>h. Inr []) sample_ifaces [] = Inr r"
    "[six, Addr4 (CHR 0x0A) (CHR 0x00) (CHR 0x00) (CHR 0x07)] = us @ r # ws" "FamilyIPv4 \<le> family_of r" by auto
  then show ?thesis using six by (auto simp: append_eq_Cons_conv Cons_eq_append_conv family_order)
qed

text \<open>The ports that are not configured follow the etcd port one by one, a configured port is kept,
  and with none configured and room below the end of the range the four ports are distinct and none
  is zero.\<close>
theorem default_ports_follow:
  fixes c :: config
  defines "d \<equiv> default_ports c"
  shows "cf_etcd_listen_port d = cf_etcd_listen_port c
    \<and> cf_etcd_client_listen_port d =
        (if cf_etcd_client_listen_port c = 0 then cf_etcd_listen_port d + 1 else cf_etcd_client_listen_port c)
    \<and> cf_peer_api_listen_port d =
        (if cf_peer_api_listen_port c = 0 then cf_etcd_client_listen_port d + 1 else cf_peer_api_listen_port c)
    \<and> cf_agent_api_listen_port d =
        (if cf_agent_api_listen_port c = 0 then cf_peer_api_listen_port d + 1 else cf_agent_api_listen_port c)
    \<and> (cf_etcd_client_listen_port c = 0 \<and> cf_peer_api_listen_port c = 0 \<and> cf_agent_api_listen_port c = 0
        \<and> unat (cf_etcd_listen_port c) + 3 < 2 ^ 16 \<longrightarrow>
        map unat [cf_etcd_client_listen_port d, cf_peer_api_listen_port d, cf_agent_api_listen_port d] =
          map (\<lambda>i. unat (cf_etcd_listen_port c) + i) [1, 2, 3])"
proof -
  have step: "unat (k + p) = unat p + unat k" if "unat p + unat k < 2 ^ 16" for p k :: "16 word"
    using that by (subst unat_plus_if') simp
  have "unat (1 + p) = unat p + 1" "unat (p + 1) = unat p + 1" "unat (2 + p) = unat p + 2" "unat (3 + p) = unat p + 3"
    if "unat p + 3 < 2 ^ 16" for p :: "16 word"
    using that step [of p 1] step [of p 2] step [of p 3] by (simp_all add: add.commute [of p 1])
  then show ?thesis
    unfolding d_def by (auto simp: default_ports_def Let_def)
qed

theorem default_ports_follow_witness:
  "unat (cf_agent_api_listen_port (default_ports
     \<lparr>cf_name = ''r1'', cf_dir = [], cf_initial_token = [], cf_initial_token_file = [], cf_join_url = [],
      cf_peer_listen_addr = AddrZero, cf_peer_advertise_hostname = zero_hostname, cf_etcd_listen_port = 4000,
      cf_etcd_client_listen_port = 0, cf_peer_api_listen_port = 0, cf_agent_api_listen_addr = AddrZero,
      cf_agent_api_advertise_hostname = zero_hostname, cf_agent_api_listen_port = 0\<rparr>)) = 4003"
  using default_ports_follow [of
     "\<lparr>cf_name = ''r1'', cf_dir = [], cf_initial_token = [], cf_initial_token_file = [], cf_join_url = [],
      cf_peer_listen_addr = AddrZero, cf_peer_advertise_hostname = zero_hostname, cf_etcd_listen_port = 4000,
      cf_etcd_client_listen_port = 0, cf_peer_api_listen_port = 0, cf_agent_api_listen_addr = AddrZero,
      cf_agent_api_advertise_hostname = zero_hostname, cf_agent_api_listen_port = 0\<rparr>"]
  by simp

end
