(* ===== verification/Base64.thy ===== *)
theory Base64
  imports Prelude
begin

text \<open>
  \<^verbatim>\<open>base64.StdEncoding\<close> of Go's standard library, with padding: what the registry writes its
  cluster token with. The decoder ignores carriage returns and line feeds and does not check
  the unused bits of the last digit, as the library's non-strict decoder does.
\<close>

definition b64_digit :: "nat \<Rightarrow> char" where
  "b64_digit n =
     (if n < 26 then char_of (65 + n) else if n < 52 then char_of (71 + n)
      else if n < 62 then char_of (n - 4) else if n = 62 then CHR ''+'' else CHR ''/'')"

definition b64_val :: "char \<Rightarrow> nat option" where
  "b64_val c =
     (let n = of_char c in
      if 65 \<le> n \<and> n \<le> 90 then Some (n - 65)
      else if 97 \<le> n \<and> n \<le> 122 then Some (n - 71)
      else if 48 \<le> n \<and> n \<le> 57 then Some (n + 4)
      else if c = CHR ''+'' then Some 62 else if c = CHR ''/'' then Some 63 else None)"

definition b64_pad :: char where
  "b64_pad = CHR ''=''"

fun b64_encode :: "string \<Rightarrow> string" where
  "b64_encode [] = []"
| "b64_encode [a] =
     [b64_digit (of_char a div 4), b64_digit (of_char a mod 4 * 16), b64_pad, b64_pad]"
| "b64_encode [a, b] =
     [b64_digit (of_char a div 4), b64_digit (of_char a mod 4 * 16 + of_char b div 16),
      b64_digit (of_char b mod 16 * 4), b64_pad]"
| "b64_encode (a # b # c # r) =
     b64_digit (of_char a div 4) # b64_digit (of_char a mod 4 * 16 + of_char b div 16)
     # b64_digit (of_char b mod 16 * 4 + of_char c div 64) # b64_digit (of_char c mod 64)
     # b64_encode r"

definition b64_join :: "nat \<Rightarrow> nat \<Rightarrow> nat \<Rightarrow> nat \<Rightarrow> string" where
  "b64_join w x y z =
     [char_of (w * 4 + x div 16), char_of (x mod 16 * 16 + y div 4), char_of (y mod 4 * 64 + z)]"

fun b64_quanta :: "string \<Rightarrow> string option" where
  "b64_quanta [] = Some []"
| "b64_quanta (w # x # y # z # r) =
     (case (b64_val w, b64_val x) of
        (Some w, Some x) \<Rightarrow>
          if y = b64_pad then
            (if z = b64_pad \<and> r = [] then Some (take 1 (b64_join w x 0 0)) else None)
          else (case b64_val y of
              None \<Rightarrow> None
            | Some y \<Rightarrow>
                if z = b64_pad then (if r = [] then Some (take 2 (b64_join w x y 0)) else None)
                else (case b64_val z of
                    None \<Rightarrow> None
                  | Some z \<Rightarrow> map_option ((@) (b64_join w x y z)) (b64_quanta r)))
      | _ \<Rightarrow> None)"
| "b64_quanta _ = None"

definition is_newline :: "char \<Rightarrow> bool" where
  "is_newline c \<longleftrightarrow> c = CHR 0x0A \<or> c = CHR 0x0D"

definition b64_decode :: "string \<Rightarrow> string option" where
  "b64_decode s = b64_quanta (filter (\<lambda>c. \<not> is_newline c) s)"

section \<open>Decoding an encoding\<close>

lemma b64_val_digit [simp]: "n < 64 \<Longrightarrow> b64_val (b64_digit n) = Some n"
proof -
  assume "n < 64"
  then consider "n < 26" | "26 \<le> n" "n < 52" | "52 \<le> n" "n < 62" | "n = 62" | "n = 63" by linarith
  then show ?thesis by cases (auto simp: b64_val_def b64_digit_def Let_def)
qed

lemma b64_digit_not_pad [simp]: "n < 64 \<Longrightarrow> b64_digit n \<noteq> b64_pad"
proof
  assume "n < 64" "b64_digit n = b64_pad"
  then have "b64_val b64_pad = Some n" by (metis b64_val_digit)
  then show False by (simp add: b64_val_def b64_pad_def Let_def)
qed

lemma b64_digit_not_newline [simp]: "n < 64 \<Longrightarrow> \<not> is_newline (b64_digit n)"
proof
  assume "n < 64" "is_newline (b64_digit n)"
  then have "b64_val (CHR 0x0A) = Some n \<or> b64_val (CHR 0x0D) = Some n"
    by (metis b64_val_digit is_newline_def)
  then show False by (simp add: b64_val_def Let_def)
qed

lemma b64_pad_not_newline [simp]: "\<not> is_newline b64_pad"
  by (simp add: b64_pad_def is_newline_def)

lemma byte_bound [simp]: "(of_char c :: nat) < 256"
  by (rule nat_of_char_less_256)

lemma sextet_bounds [simp]:
  "(of_char a :: nat) div 4 < 64"
  "of_char a mod 4 * 16 < (64 :: nat)"
  "of_char a mod 4 * 16 + of_char b div 16 < (64 :: nat)"
  "of_char b mod 16 * 4 < (64 :: nat)"
  "of_char b mod 16 * 4 + of_char c div 64 < (64 :: nat)"
  using byte_bound [of a] byte_bound [of b] byte_bound [of c] by linarith+

lemma mix_div_mod:
  fixes q r n :: nat
  assumes "r < n"
  shows "(q * n + r) div n = q" "(q * n + r) mod n = r"
  using assms by simp_all

lemma b64_join_bytes:
  "b64_join (of_char a div 4) (of_char a mod 4 * 16 + of_char b div 16)
     (of_char b mod 16 * 4 + of_char c div 64) (of_char c mod 64) = [a, b, c]"
proof -
  have lt: "of_char b div 16 < (16 :: nat)" "of_char c div 64 < (4 :: nat)"
    using byte_bound [of b] byte_bound [of c] by linarith+
  have "of_char a div 4 * 4 + of_char a mod 4 = (of_char a :: nat)"
    "of_char b div 16 * 16 + of_char b mod 16 = (of_char b :: nat)"
    "of_char c div 64 * 64 + of_char c mod 64 = (of_char c :: nat)"
    by (rule div_mult_mod_eq)+
  then show ?thesis
    by (simp only: b64_join_def mix_div_mod lt char_of_char)
qed

lemma of_char_0: "of_char (CHR 0x00) = (0 :: nat)"
  by simp

lemma b64_join_two:
  "take 2 (b64_join (of_char a div 4) (of_char a mod 4 * 16 + of_char b div 16)
     (of_char b mod 16 * 4) 0) = [a, b]"
  using b64_join_bytes [of a b "CHR 0x00"] by (simp only: of_char_0) simp

lemma b64_join_one:
  "take 1 (b64_join (of_char a div 4) (of_char a mod 4 * 16) 0 0) = [a]"
  using b64_join_bytes [of a "CHR 0x00" "CHR 0x00"] by (simp only: of_char_0) simp

lemma b64_quanta_encode: "b64_quanta (b64_encode s) = Some s"
  by (induction s rule: b64_encode.induct)
    (simp_all add: b64_join_bytes b64_join_two b64_join_one del: take_Suc_Cons One_nat_def)

lemma b64_encode_no_newline: "list_all (\<lambda>c. \<not> is_newline c) (b64_encode s)"
  by (induction s rule: b64_encode.induct) simp_all

lemma b64_decode_encode: "b64_decode (b64_encode s) = Some s"
  using b64_encode_no_newline [of s]
  by (simp add: b64_decode_def b64_quanta_encode list_all_iff)

interpretation b64: codec "\<lambda>_. True" b64_encode b64_decode
  by unfold_locales (simp add: b64_decode_encode)

lemma b64_encode_alphabet:
  assumes "b64_val c = None" "c \<noteq> b64_pad"
  shows "c \<notin> set (b64_encode s)"
proof -
  have "c \<noteq> b64_digit n" if "n < 64" for n
    using assms(1) b64_val_digit [OF that] by auto
  then show ?thesis using assms(2) by (induction s rule: b64_encode.induct) simp_all
qed

lemma b64_encode_colon_free: "CHR '':'' \<notin> set (b64_encode s)"
  by (rule b64_encode_alphabet) (simp_all add: b64_val_def b64_pad_def)

end
