(* ===== verification/X509.thy ===== *)
theory X509
  imports Utf8 NetIP
begin

text \<open>
  Certificates as the program builds and reads them with Go's \<^verbatim>\<open>crypto/x509\<close>. Keys are symbolic:
  an Ed25519 key pair is its 32-byte seed, and a signature is the seed that made it. What matters
  to the program is which names survive the DER encoding: the values of one attribute form a
  SET OF, whose elements DER sorts by their encoding, so a certificate with two organisational
  units reads back with the units in encoding order, not in the order they were given.
  Times are nanoseconds since the Unix epoch; a certificate keeps whole seconds.
\<close>

section \<open>Keys and names\<close>

datatype ed_private = EdPrivate string
datatype ed_public = EdPublic string

fun public_of :: "ed_private \<Rightarrow> ed_public" where
  "public_of (EdPrivate seed) = EdPublic seed"

record pkix_name =
  pn_organization :: "string list"
  pn_ou :: "string list"
  pn_cn :: string

section \<open>DER encoding of an organisational unit\<close>

function be_bytes :: "nat \<Rightarrow> string" where
  "be_bytes n = (if n < 256 then [char_of n] else be_bytes (n div 256) @ [char_of (n mod 256)])"
  by pat_completeness auto
termination by (relation "measure id") auto

declare be_bytes.simps [simp del]

definition der_length :: "nat \<Rightarrow> string" where
  "der_length n = (if n < 128 then [char_of n] else char_of (128 + length (be_bytes n)) # be_bytes n)"

definition is_printable :: "char \<Rightarrow> bool" where
  "is_printable c \<longleftrightarrow>
     (let n = (of_char c :: nat) in
      97 \<le> n \<and> n \<le> 122 \<or> 65 \<le> n \<and> n \<le> 90 \<or> 48 \<le> n \<and> n \<le> 57 \<or> 39 \<le> n \<and> n \<le> 41
      \<or> 43 \<le> n \<and> n \<le> 47 \<or> n = 32 \<or> n = 58 \<or> n = 61 \<or> n = 63)"

text \<open>A \<^verbatim>\<open>PrintableString\<close> (tag 19) where the characters allow it, else a \<^verbatim>\<open>UTF8String\<close> (tag 12).\<close>

definition der_string :: "string \<Rightarrow> string" where
  "der_string s =
     char_of (if list_all is_printable s then 19 else 12 :: nat) # der_length (length s) @ s"

text \<open>The attribute: a SEQUENCE of the object identifier 2.5.4.11 and the string.\<close>

definition der_ou :: "string \<Rightarrow> string" where
  "der_ou s =
     (let body = [CHR 0x06, CHR 0x03, CHR 0x55, CHR 0x04, CHR 0x0B] @ der_string s in
      CHR 0x30 # der_length (length body) @ body)"

definition der_sorted :: "string list \<Rightarrow> string list" where
  "der_sorted ous = sort_key der_ou ous"

section \<open>Certificates\<close>

datatype ext_usage = ServerAuth | ClientAuth
datatype key_usage = CertSign | SignAndAgree

record certificate =
  crt_subject :: pkix_name
  crt_issuer :: pkix_name
  crt_dns_names :: "string list"
  crt_ips :: "string list"
  crt_not_before :: int
  crt_not_after :: int
  crt_key_usage :: key_usage
  crt_ext_usage :: "ext_usage list"
  crt_is_ca :: bool
  crt_public :: ed_public
  crt_signer :: ed_public

text \<open>A loaded key pair, \<^verbatim>\<open>tls.Certificate\<close>.\<close>

record key_pair =
  kp_leaf :: certificate
  kp_private :: ed_private

text \<open>The bytes of a file or message that may hold a PEM block.\<close>

datatype blob = Raw string | CertPem certificate | KeyPem ed_private

definition second :: int where "second = 1000000000"

definition whole_second :: "int \<Rightarrow> int" where
  "whole_second t = t div second * second"

definition name_encodes :: "pkix_name \<Rightarrow> bool" where
  "name_encodes n \<longleftrightarrow>
     list_all utf8_valid (pn_organization n) \<and> list_all utf8_valid (pn_ou n) \<and> utf8_valid (pn_cn n)"

text \<open>A DNS name of a certificate is an IA5String: ASCII only.\<close>

definition ascii :: "string \<Rightarrow> bool" where
  "ascii s \<longleftrightarrow> list_all (\<lambda>c. of_char c < (128 :: nat)) s"

text \<open>
  \<^verbatim>\<open>x509.CreateCertificate\<close> followed by parsing: it fails on a name that is not UTF-8 and on a DNS name
  that is not ASCII, keeps
  times to the second and returns the organisational units in DER order. \<open>tmpl\<close> carries the
  fields of the template; issuer, key and signer are set here.
\<close>

definition create_certificate ::
  "certificate \<Rightarrow> certificate \<Rightarrow> ed_public \<Rightarrow> ed_private \<Rightarrow> certificate outcome" where
  "create_certificate tmpl parent pub priv =
     (if \<not> name_encodes (crt_subject tmpl) then Inl (Failure ''asn1: string not valid UTF-8'')
      else if \<not> list_all ascii (crt_dns_names tmpl) then Inl (Failure ''x509: cannot be encoded as an IA5String'')
      else Inr (tmpl\<lparr>
        crt_subject := (crt_subject tmpl)\<lparr>pn_ou := der_sorted (pn_ou (crt_subject tmpl))\<rparr>,
        crt_issuer := crt_subject parent,
        crt_not_before := whole_second (crt_not_before tmpl),
        crt_not_after := whole_second (crt_not_after tmpl),
        crt_public := pub, crt_signer := public_of priv\<rparr>))"

text \<open>\<^verbatim>\<open>tls.X509KeyPair\<close>: both PEM blocks must parse and the key must belong to the certificate.\<close>

definition x509_key_pair :: "blob \<Rightarrow> blob \<Rightarrow> key_pair outcome" where
  "x509_key_pair crt key =
     (case crt of
        CertPem c \<Rightarrow>
          (case key of
             KeyPem k \<Rightarrow>
               if public_of k = crt_public c then Inr \<lparr>kp_leaf = c, kp_private = k\<rparr>
               else Inl (Failure ''tls: private key does not match public key'')
           | _ \<Rightarrow> Inl (Failure ''tls: failed to find any PEM data in key input''))
      | _ \<Rightarrow> Inl (Failure ''tls: failed to find any PEM data in certificate input''))"

text \<open>
  What \<^verbatim>\<open>crypto/tls\<close> checks of a client's certificate under \<^verbatim>\<open>RequireAndVerifyClientCert\<close>: signed by
  an authority of the pool, within its validity period, meant for client authentication.
\<close>

definition valid_at :: "int \<Rightarrow> certificate \<Rightarrow> bool" where
  "valid_at now c \<longleftrightarrow> crt_not_before c \<le> now \<and> now \<le> crt_not_after c"

definition issued_by_pool :: "certificate list \<Rightarrow> int \<Rightarrow> certificate \<Rightarrow> bool" where
  "issued_by_pool pool now c \<longleftrightarrow>
     list_ex (\<lambda>ca. crt_is_ca ca \<and> crt_key_usage ca = CertSign \<and> valid_at now ca
       \<and> crt_signer c = crt_public ca \<and> crt_issuer c = crt_subject ca) pool"

definition verifies_client :: "certificate list \<Rightarrow> int \<Rightarrow> certificate \<Rightarrow> bool" where
  "verifies_client pool now c \<longleftrightarrow>
     issued_by_pool pool now c \<and> valid_at now c \<and> ClientAuth \<in> set (crt_ext_usage c)"

text \<open>What a client checks of the server's certificate: the same chain, server authentication, and that the
  certificate names the host that the client means to reach.\<close>

definition verifies_server :: "certificate list \<Rightarrow> int \<Rightarrow> string \<Rightarrow> certificate \<Rightarrow> bool" where
  "verifies_server pool now host c \<longleftrightarrow>
     issued_by_pool pool now c \<and> valid_at now c \<and> ServerAuth \<in> set (crt_ext_usage c) \<and> host \<in> set (crt_dns_names c)"

section \<open>The order of two organisational units\<close>

lemma be_bytes_pos: "be_bytes n \<noteq> []"
  by (subst be_bytes.simps) simp

lemma be_bytes_length: "n < 256 ^ Suc k \<Longrightarrow> length (be_bytes n) \<le> Suc k"
proof (induction n arbitrary: k rule: be_bytes.induct)
  case (1 n)
  show ?case
  proof (cases "n < 256")
    case True
    then show ?thesis by (subst be_bytes.simps) simp
  next
    case False
    with 1(2) obtain j where k: "k = Suc j" by (cases k) auto
    with 1(2) have "n div 256 < 256 ^ Suc j" by (simp add: less_mult_imp_div_less)
    with False 1(1) have "length (be_bytes (n div 256)) \<le> Suc j" by simp
    with False k show ?thesis by (subst be_bytes.simps) simp
  qed
qed

lemma char_of_less:
  "m < 256 \<Longrightarrow> n < 256 \<Longrightarrow> char_of (m :: nat) < char_of n \<longleftrightarrow> m < n"
  by (simp add: less_char_def)

lemma length_der_string_short:
  "length s < 100 \<Longrightarrow> length (der_string s) = length s + 2"
  by (simp add: der_string_def der_length_def)

text \<open>
  A short unit sorts before a longer one, however long: the length octets decide. The bound on
  the long name keeps its length within eight octets, beyond what a certificate can hold.
\<close>

lemma der_ou_shorter:
  assumes "length s < length t" "length s < 100" "length t < 2 ^ 60"
  shows "der_ou s < der_ou t"
proof -
  let ?n = "length s + 7" and ?m = "5 + length (der_string t)"
  have s: "der_ou s = CHR 0x30 # char_of ?n # [CHR 0x06, CHR 0x03, CHR 0x55, CHR 0x04, CHR 0x0B] @ der_string s"
    using assms(2) by (simp add: der_ou_def length_der_string_short der_length_def)
  have "?n < ?m" using assms(1) by (simp add: der_string_def der_length_def)
  moreover have "der_ou t = CHR 0x30 # der_length ?m @ [CHR 0x06, CHR 0x03, CHR 0x55, CHR 0x04, CHR 0x0B] @ der_string t"
    by (simp add: der_ou_def eval_nat_numeral)
  moreover have "char_of ?n < hd (der_length ?m)" if "?n < ?m"
  proof (cases "?m < 128")
    case True
    with that assms(2) show ?thesis by (simp add: der_length_def char_of_less)
  next
    case False
    have "length (be_bytes (length t)) \<le> Suc 7" using assms(3) by (intro be_bytes_length) simp
    then have "?m < 256 ^ Suc 7" using assms(3) by (simp add: der_string_def der_length_def)
    then have "length (be_bytes ?m) \<le> 8" using be_bytes_length [of ?m 7] by simp
    with False assms(2) show ?thesis by (simp add: der_length_def char_of_less)
  qed
  moreover have "der_length ?m = hd (der_length ?m) # tl (der_length ?m)" by (simp add: der_length_def)
  ultimately show ?thesis unfolding s by (metis append_Cons Cons_less_Cons)
qed

lemma der_sorted_pair:
  "der_sorted [a, b] = (if der_ou b < der_ou a then [b, a] else [a, b])"
  by (auto simp: der_sorted_def not_less)

lemma der_sorted_shorter_last:
  assumes "length b < length a" "length b < 100" "length a < 2 ^ 60"
  shows "der_sorted [a, b] = [b, a]"
  using der_ou_shorter [OF assms] by (simp add: der_sorted_pair)

lemma der_sorted_longer_last:
  assumes "length a < length b" "length a < 100" "length b < 2 ^ 60"
  shows "der_sorted [a, b] = [a, b]"
  using der_ou_shorter [OF assms] by (simp add: der_sorted_pair less_not_sym)

end
