(* ===== verification/RegState.thy ===== *)
theory RegState
  imports RegConfig Base64 Files
begin

text \<open>
  registry/state/state.go: the cluster token and the certificates a registry holds. The token is
  kept in a file as \<^verbatim>\<open>milliseconds::base64\<close>; the two certificate authorities are derived from it,
  so that every registry that was given the token has the same ones; the server certificate is
  new at each start. The file system, the random source, the clock and the key-derivation
  function \<^verbatim>\<open>hkdf.Expand\<close> are inputs.
\<close>

section \<open>The token\<close>

definition millisecond :: int where "millisecond = 1000000"

definition unix_milli :: "int \<Rightarrow> int" where
  "unix_milli t = t div millisecond"

definition from_unix_milli :: "int \<Rightarrow> int" where
  "from_unix_milli ms = ms * millisecond"

definition decode_token :: "string \<Rightarrow> (string \<times> int) outcome" where
  "decode_token encoded =
     (let parts = split_n2 ''::'' encoded in
      case parse_int 64 (hd parts) of
        (_, Some _) \<Rightarrow> Inl (Panic ''strconv.ParseInt'')
      | (time_milli, None) \<Rightarrow>
          (if length parts < 2 then Inl (Panic ''index out of range'')
           else
             (case b64_decode (parts ! 1) of
                None \<Rightarrow> Inl (Fatal ''Failed to decode token'')
              | Some token \<Rightarrow> Inr (token, from_unix_milli time_milli))))"

definition share_token :: "string \<Rightarrow> int \<Rightarrow> string" where
  "share_token token start = show_int (unix_milli start) @ ''::'' @ b64_encode token"

text \<open>\<open>rnd\<close> are the 32 random bytes, \<open>now\<close> the clock. A failure to write the file is ignored.\<close>

definition load_state_token :: "config \<Rightarrow> string \<Rightarrow> int \<Rightarrow> fs \<Rightarrow> (string \<times> int) outcome \<times> fs" where
  "load_state_token c rnd now f =
     (let token_file = path_join (cf_dir c) ''token'' in
      case fs_files f token_file of
        None \<Rightarrow>
          (case (if cf_initial_token c = [] then Inr (rnd, now) else decode_token (cf_initial_token c)) of
             Inl e \<Rightarrow> (Inl e, f)
           | Inr (token, start) \<Rightarrow>
               (Inr (token, start), snd (write_file f token_file (Raw (share_token token start)))))
      | Some _ \<Rightarrow>
          (case read_file f token_file of
             Inl _ \<Rightarrow> (Inl (Fatal ''Failed to read token file''), f)
           | Inr b \<Rightarrow> (decode_token (blob_text b), f)))"

section \<open>The certificate authorities\<close>

type_synonym kdf = "string \<Rightarrow> string \<Rightarrow> nat \<Rightarrow> string"

definition ssle_organization :: "string list" where
  "ssle_organization = [''SSLE Project 01'']"

definition day :: int where "day = 24 * 60 * 60 * second"

definition create_ca :: "kdf \<Rightarrow> string \<Rightarrow> int \<Rightarrow> string \<Rightarrow> string \<Rightarrow> (blob \<times> blob) outcome" where
  "create_ca hkdf token start implicit ou =
     (let priv = EdPrivate (hkdf token implicit 32);
          subject = \<lparr>pn_organization = ssle_organization, pn_ou = [ou], pn_cn = []\<rparr>;
          template = \<lparr>crt_subject = subject, crt_issuer = subject, crt_dns_names = [], crt_ips = [],
            crt_not_before = start, crt_not_after = start + 10 * 365 * day,
            crt_key_usage = CertSign, crt_ext_usage = [], crt_is_ca = True,
            crt_public = public_of priv, crt_signer = public_of priv\<rparr>
      in case create_certificate template template (public_of priv) priv of
           Inl _ \<Rightarrow> Inl (Panic ''x509.CreateCertificate'')
         | Inr c \<Rightarrow> Inr (CertPem c, KeyPem priv))"

definition add_hostname_to_cert :: "certificate \<Rightarrow> hostname \<Rightarrow> certificate" where
  "add_hostname_to_cert cert h =
     (if hostname_is_address h then
        (let repr = addr_as_slice (hostname_address h) in
         if list_ex (\<lambda>a. ip_equal a repr) (crt_ips cert) then cert
         else cert\<lparr>crt_ips := crt_ips cert @ [repr]\<rparr>)
      else
        (let repr = hostname_fqdn h in
         if repr \<in> set (crt_dns_names cert) then cert
         else cert\<lparr>crt_dns_names := crt_dns_names cert @ [repr]\<rparr>))"

text \<open>\<open>seed\<close> is the fresh Ed25519 seed of \<^verbatim>\<open>ed25519.GenerateKey(nil)\<close>.\<close>

definition create_peer_crt :: "string \<Rightarrow> int \<Rightarrow> config \<Rightarrow> key_pair \<Rightarrow> (blob \<times> blob) outcome" where
  "create_peer_crt seed now c ca =
     (let priv = EdPrivate seed;
          subject = \<lparr>pn_organization = ssle_organization, pn_ou = [''Servers''], pn_cn = cf_name c\<rparr>;
          template = \<lparr>crt_subject = subject, crt_issuer = subject,
            crt_dns_names = [''registry.cluster.internal''], crt_ips = [],
            crt_not_before = now, crt_not_after = now + 90 * day,
            crt_key_usage = SignAndAgree, crt_ext_usage = [ServerAuth, ClientAuth], crt_is_ca = False,
            crt_public = public_of priv, crt_signer = public_of priv\<rparr>;
          template = add_hostname_to_cert template (cf_peer_advertise_hostname c);
          template = add_hostname_to_cert template (cf_agent_api_advertise_hostname c)
      in case create_certificate template (kp_leaf ca) (public_of priv) (kp_private ca) of
           Inl _ \<Rightarrow> Inl (Panic ''x509.CreateCertificate'')
         | Inr crt \<Rightarrow> Inr (CertPem crt, KeyPem priv))"

text \<open>Loading a created pair and writing both halves: the tail that \<^verbatim>\<open>loadStateCA\<close>,
  \<^verbatim>\<open>loadStateAgentCA\<close> and \<^verbatim>\<open>loadStatePeerCrt\<close> have in common.\<close>

definition store_pair ::
  "(blob \<times> blob) outcome \<Rightarrow> string \<Rightarrow> string \<Rightarrow> fs \<Rightarrow> (string \<times> string \<times> key_pair) outcome \<times> fs" where
  "store_pair made cert_file key_file f =
     (case made of
        Inl e \<Rightarrow> (Inl e, f)
      | Inr (crt_bytes, key_bytes) \<Rightarrow>
          (case x509_key_pair crt_bytes key_bytes of
             Inl _ \<Rightarrow> (Inl (Fatal ''Failed to load CA key pair''), f)
           | Inr kp \<Rightarrow>
               (case write_file f cert_file crt_bytes of
                  (Inl _, f) \<Rightarrow> (Inl (Fatal ''Error: Failed to write certificate''), f)
                | (Inr _, f) \<Rightarrow>
                    (case write_file f key_file key_bytes of
                       (Inl _, f) \<Rightarrow> (Inl (Fatal ''Error: Failed to write key''), f)
                     | (Inr _, f) \<Rightarrow> (Inr (cert_file, key_file, kp), f)))))"

definition load_state_ca ::
  "kdf \<Rightarrow> config \<Rightarrow> string \<Rightarrow> int \<Rightarrow> fs \<Rightarrow> (string \<times> string \<times> key_pair) outcome \<times> fs" where
  "load_state_ca hkdf c token start f =
     store_pair (create_ca hkdf token start ''CA'' ''Servers'')
       (path_join (cf_dir c) ''ca.crt'') (path_join (cf_dir c) ''ca.key'') f"

definition load_state_agent_ca ::
  "kdf \<Rightarrow> config \<Rightarrow> string \<Rightarrow> int \<Rightarrow> fs \<Rightarrow> (string \<times> string \<times> key_pair) outcome \<times> fs" where
  "load_state_agent_ca hkdf c token start f =
     store_pair (create_ca hkdf token start ''Agent-CA'' ''Agents'')
       (path_join (cf_dir c) ''agent-ca.crt'') (path_join (cf_dir c) ''agent-ca.key'') f"

definition load_state_peer_crt ::
  "string \<Rightarrow> int \<Rightarrow> config \<Rightarrow> key_pair \<Rightarrow> fs \<Rightarrow> (string \<times> string \<times> key_pair) outcome \<times> fs" where
  "load_state_peer_crt seed now c ca f =
     store_pair (create_peer_crt seed now c ca)
       (path_join (cf_dir c) ''peer.crt'') (path_join (cf_dir c) ''peer.key'') f"

section \<open>\<^verbatim>\<open>LoadState\<close>\<close>

record state =
  st_token :: string
  st_etcd_dir :: string
  st_ca :: key_pair
  st_ca_crt_file :: string
  st_agent_ca :: key_pair
  st_agent_ca_crt_file :: string
  st_server_key_pair :: key_pair
  st_server_crt_file :: string
  st_server_key_file :: string

definition load_state ::
  "kdf \<Rightarrow> string \<Rightarrow> string \<Rightarrow> int \<Rightarrow> config \<Rightarrow> fs \<Rightarrow> state outcome \<times> fs" where
  "load_state hkdf rnd seed now c f =
     (case make_dir f (cf_dir c) of
        (Inl _, f) \<Rightarrow> (Inl (Fatal ''Failed to create state dir''), f)
      | (Inr _, f) \<Rightarrow>
     (case load_state_token c rnd now f of
        (Inl e, f) \<Rightarrow> (Inl e, f)
      | (Inr (token, start), f) \<Rightarrow>
     (case load_state_ca hkdf c token start f of
        (Inl e, f) \<Rightarrow> (Inl e, f)
      | (Inr (ca_crt_file, _, ca), f) \<Rightarrow>
     (case load_state_agent_ca hkdf c token start f of
        (Inl e, f) \<Rightarrow> (Inl e, f)
      | (Inr (agent_ca_crt_file, _, agent_ca), f) \<Rightarrow>
     (case load_state_peer_crt seed now c ca f of
        (Inl e, f) \<Rightarrow> (Inl e, f)
      | (Inr (server_crt_file, server_key_file, server_key_pair), f) \<Rightarrow>
          (Inr \<lparr>st_token = token, st_etcd_dir = path_join (cf_dir c) ''etcd'',
             st_ca = ca, st_ca_crt_file = ca_crt_file,
             st_agent_ca = agent_ca, st_agent_ca_crt_file = agent_ca_crt_file,
             st_server_key_pair = server_key_pair, st_server_crt_file = server_crt_file,
             st_server_key_file = server_key_file\<rparr>, f))))))"

section \<open>Facts\<close>

lemma show_int_no_colon: "CHR '':'' \<notin> set (show_int i)"
proof -
  have "\<not> is_digit (CHR '':'')" by (simp add: is_digit_def)
  then show ?thesis by (auto simp: show_int_def dest: digit_notin_show_nat)
qed

lemma decode_share_token:
  assumes "- (2 ^ 63) \<le> unix_milli start" "unix_milli start < 2 ^ 63"
  shows "decode_token (share_token token start) = Inr (token, from_unix_milli (unix_milli start))"
proof -
  have "split_n2 ''::'' (share_token token start) = [show_int (unix_milli start), b64_encode token]"
    using split_first_append [OF show_int_no_colon, of "'':''" "unix_milli start" "b64_encode token"]
    by (simp add: split_n2_def share_token_def)
  moreover have "parse_int 64 (show_int (unix_milli start)) = (unix_milli start, None)"
    using assms by (intro parse_int_show_int) simp_all
  ultimately show ?thesis by (simp add: decode_token_def b64_decode_encode)
qed

definition token_codec_valid :: "string \<times> int \<Rightarrow> bool" where
  "token_codec_valid p \<longleftrightarrow> (\<exists>ms. snd p = from_unix_milli ms \<and> - (2 ^ 63) \<le> ms \<and> ms < 2 ^ 63)"

lemma unix_milli_from [simp]: "unix_milli (from_unix_milli ms) = ms"
  by (simp add: unix_milli_def from_unix_milli_def millisecond_def)

interpretation token: codec token_codec_valid "\<lambda>(t, s). share_token t s"
  "\<lambda>e. case decode_token e of Inr p \<Rightarrow> Some p | Inl _ \<Rightarrow> None"
proof unfold_locales
  fix p :: "string \<times> int"
  assume "token_codec_valid p"
  then obtain t ms where "p = (t, from_unix_milli ms)" "- (2 ^ 63) \<le> ms" "ms < 2 ^ 63"
    by (cases p) (auto simp: token_codec_valid_def)
  then show "(case decode_token (case p of (t, s) \<Rightarrow> share_token t s) of Inr p \<Rightarrow> Some p | Inl _ \<Rightarrow> None) = Some p"
    using decode_share_token [of "from_unix_milli ms" t] by simp
qed

lemma whole_second_milli: "whole_second (from_unix_milli (unix_milli t)) = whole_second t"
proof -
  have "t div 1000000 * 1000000 div 1000000000 = t div (1000000 :: int) div 1000"
    using zdiv_zmult2_eq [of 1000 "t div 1000000 * 1000000" 1000000] by simp
  also have "\<dots> = t div 1000000000" using zdiv_zmult2_eq [of 1000 t 1000000] by simp
  finally show ?thesis
    by (simp add: whole_second_def from_unix_milli_def unix_milli_def millisecond_def second_def)
qed

lemma whole_second_add_days: "whole_second (t + n * day) = whole_second t + n * day"
proof -
  have eq: "t + n * day = t + (n * 86400) * second" by (simp add: day_def)
  have "(t + (n * 86400) * second) div second = n * 86400 + t div second"
    by (rule div_mult_self1) (simp add: second_def)
  then have "(t + n * day) div second = t div second + n * 86400" by (simp only: eq add.commute)
  then show ?thesis by (simp add: whole_second_def day_def algebra_simps)
qed

text \<open>Only the whole seconds of the start time enter an authority's certificate.\<close>

lemma create_ca_seconds:
  assumes "whole_second s = whole_second t"
  shows "create_ca hkdf token s i ou = create_ca hkdf token t i ou"
  using assms whole_second_add_days [of s 3650] whole_second_add_days [of t 3650]
  by (simp add: create_ca_def create_certificate_def Let_def)

lemma store_pair_ok:
  assumes "store_pair made cf kf f = (Inr (x, y, kp), f')"
  obtains crt key where "made = Inr (crt, key)" "x509_key_pair crt key = Inr kp" "x = cf" "y = kf"
  using assms by (auto simp: store_pair_def split: sum.splits prod.splits)

lemma store_pair_frame:
  assumes "store_pair made cf kf f = (r, f')"
  shows "p \<noteq> cf \<Longrightarrow> p \<noteq> kf \<Longrightarrow> fs_files f' p = fs_files f p"
    "fs_readable f' = fs_readable f" "fs_writable f' = fs_writable f" "fs_dirs f' = fs_dirs f"
  using assms
  by (auto simp: store_pair_def write_file_def split: sum.splits prod.splits if_splits)

lemma store_pair_writes:
  assumes "x509_key_pair crt key = Inr kp" "fs_writable f cf" "fs_writable f kf"
  obtains f' where "store_pair (Inr (crt, key)) cf kf f = (Inr (cf, kf, kp), f')"
  using assms by (simp add: store_pair_def write_file_def)

lemma store_pair_writable:
  assumes "store_pair made cf kf f = (Inr r, f')"
  shows "fs_writable f cf" "fs_writable f kf"
  using assms by (auto simp: store_pair_def write_file_def split: sum.splits prod.splits if_splits)

lemma create_ca_pair:
  assumes "create_ca hkdf token start i ou = Inr (crt, key)"
  obtains kp where "x509_key_pair crt key = Inr kp"
  using assms that by (auto simp: create_ca_def create_certificate_def x509_key_pair_def Let_def split: if_splits)

lemma add_hostname_subject [simp]: "crt_subject (add_hostname_to_cert c h) = crt_subject c"
  by (simp add: add_hostname_to_cert_def Let_def)

text \<open>Whether a server certificate can be made depends on the registry's name and on the names, if they are
  not addresses, that it advertises.\<close>

definition advertisable_name :: "hostname \<Rightarrow> bool" where
  "advertisable_name h \<longleftrightarrow> hostname_is_address h \<or> ascii (hostname_fqdn h)"

definition advertisable :: "config \<Rightarrow> bool" where
  "advertisable c \<longleftrightarrow> utf8_valid (cf_name c) \<and> advertisable_name (cf_peer_advertise_hostname c)
     \<and> advertisable_name (cf_agent_api_advertise_hostname c)"

lemma add_hostname_ascii:
  "list_all ascii (crt_dns_names (add_hostname_to_cert c h)) \<longleftrightarrow> list_all ascii (crt_dns_names c) \<and> advertisable_name h"
  by (auto simp: add_hostname_to_cert_def advertisable_name_def list_all_iff Let_def)

lemma create_peer_crt_iff:
  "(\<exists>crt key. create_peer_crt seed now c ca = Inr (crt, key)) \<longleftrightarrow> advertisable c"
proof -
  have "utf8_valid ''SSLE Project 01''" "utf8_valid ''Servers''" by (rule utf8_valid_ascii, simp)+
  moreover have "ascii ''registry.cluster.internal''" by (simp add: ascii_def)
  ultimately show ?thesis
    by (simp add: create_peer_crt_def create_certificate_def name_encodes_def ssle_organization_def advertisable_def
        add_hostname_ascii Let_def)
qed

text \<open>A registry whose advertised name is not ASCII, a name with an umlaut say, cannot start: it stops where it makes
  its certificate, after it has written its token and its authorities.\<close>

lemma unadvertisable_panics:
  assumes "\<not> advertisable c"
  shows "create_peer_crt seed now c ca = Inl (Panic ''x509.CreateCertificate'')"
  using assms create_peer_crt_iff [of seed now c ca] by (auto simp: create_peer_crt_def Let_def split: sum.splits)

lemma create_peer_crt_pair:
  assumes "create_peer_crt seed now c ca = Inr (crt, key)"
  obtains kp where "x509_key_pair crt key = Inr kp"
  using assms that by (auto simp: create_peer_crt_def create_certificate_def x509_key_pair_def Let_def split: if_splits)

lemma create_ca_ok: "\<exists>crt key kp. create_ca hkdf token start i ou = Inr (crt, key) \<and> x509_key_pair crt key = Inr kp"
  if "utf8_valid ou"
proof -
  have "utf8_valid ''SSLE Project 01''" "utf8_valid []" by (rule utf8_valid_ascii, simp)+
  then show ?thesis using that
    by (simp add: create_ca_def create_certificate_def name_encodes_def ssle_organization_def
        x509_key_pair_def der_sorted_def Let_def)
qed

text \<open>The two authorities that a token and its time determine.\<close>

definition authority :: "kdf \<Rightarrow> string \<Rightarrow> int \<Rightarrow> string \<Rightarrow> string \<Rightarrow> key_pair option" where
  "authority hkdf token start i ou =
     (case create_ca hkdf token start i ou of
        Inl _ \<Rightarrow> None
      | Inr (crt, key) \<Rightarrow> (case x509_key_pair crt key of Inl _ \<Rightarrow> None | Inr kp \<Rightarrow> Some kp))"

lemma authority_seconds:
  "authority hkdf token (from_unix_milli (unix_milli start)) i ou = authority hkdf token start i ou"
  unfolding authority_def create_ca_seconds [OF whole_second_milli] ..

lemma load_state_parts:
  assumes "load_state hkdf rnd seed now c f = (Inr s, f')"
  obtains fd ft token start where "make_dir f (cf_dir c) = (Inr (), fd)"
    "load_state_token c rnd now fd = (Inr (token, start), ft)" "st_token s = token"
    "authority hkdf token start ''CA'' ''Servers'' = Some (st_ca s)"
    "authority hkdf token start ''Agent-CA'' ''Agents'' = Some (st_agent_ca s)"
    "advertisable c"
    "\<forall>file \<in> {''ca.crt'', ''ca.key'', ''agent-ca.crt'', ''agent-ca.key'', ''peer.crt'', ''peer.key''}.
       fs_writable ft (path_join (cf_dir c) file)"
    "fs_readable f' = fs_readable ft" "fs_writable f' = fs_writable ft" "fs_dirs f' = fs_dirs ft"
    "fs_files f' (path_join (cf_dir c) ''token'') = fs_files ft (path_join (cf_dir c) ''token'')"
proof -
  let ?j = "path_join (cf_dir c)"
  from assms obtain fd ft token start fa fb a b d e x y ca ag sv where
    dir: "make_dir f (cf_dir c) = (Inr (), fd)" and tok: "load_state_token c rnd now fd = (Inr (token, start), ft)"
    and ca: "store_pair (create_ca hkdf token start ''CA'' ''Servers'') (?j ''ca.crt'') (?j ''ca.key'') ft = (Inr (a, b, ca), fa)"
    and ag: "store_pair (create_ca hkdf token start ''Agent-CA'' ''Agents'') (?j ''agent-ca.crt'') (?j ''agent-ca.key'') fa = (Inr (d, e, ag), fb)"
    and sv: "store_pair (create_peer_crt seed now c ca) (?j ''peer.crt'') (?j ''peer.key'') fb = (Inr (x, y, sv), f')"
    and s: "st_token s = token" "st_ca s = ca" "st_agent_ca s = ag"
    by (auto simp: load_state_def load_state_ca_def load_state_agent_ca_def load_state_peer_crt_def
        split: prod.splits sum.splits)
  note w = store_pair_writable [OF ca] store_pair_writable [OF ag] store_pair_writable [OF sv]
  note fr = store_pair_frame [OF ca] store_pair_frame [OF ag] store_pair_frame [OF sv]
  obtain crt key where "create_peer_crt seed now c ca = Inr (crt, key)" using sv by (rule store_pair_ok)
  then have "advertisable c" using create_peer_crt_iff by blast
  moreover have "authority hkdf token start ''CA'' ''Servers'' = Some ca"
    using ca by (auto simp: authority_def elim!: store_pair_ok)
  moreover have "authority hkdf token start ''Agent-CA'' ''Agents'' = Some ag"
    using ag by (auto simp: authority_def elim!: store_pair_ok)
  ultimately show thesis
    using dir tok s w fr by (intro that [of fd token start ft]) auto
qed

definition state_files :: "string list" where
  "state_files = [''ca.crt'', ''ca.key'', ''agent-ca.crt'', ''agent-ca.key'', ''peer.crt'', ''peer.key'']"

lemma load_state_succeeds:
  assumes "make_dir f (cf_dir c) = (Inr (), fd)" "load_state_token c rnd now fd = (Inr (token, start), ft)"
    "advertisable c" "\<forall>file \<in> set state_files. fs_writable ft (path_join (cf_dir c) file)"
  obtains s f' where "load_state hkdf rnd seed now c f = (Inr s, f')" "st_token s = token"
    "authority hkdf token start ''CA'' ''Servers'' = Some (st_ca s)"
    "authority hkdf token start ''Agent-CA'' ''Agents'' = Some (st_agent_ca s)"
proof -
  let ?j = "path_join (cf_dir c)"
  have utf: "utf8_valid ''Servers''" "utf8_valid ''Agents''" by (rule utf8_valid_ascii, simp)+
  have w: "fs_writable ft (?j ''ca.crt'')" "fs_writable ft (?j ''ca.key'')" "fs_writable ft (?j ''agent-ca.crt'')"
    "fs_writable ft (?j ''agent-ca.key'')" "fs_writable ft (?j ''peer.crt'')" "fs_writable ft (?j ''peer.key'')"
    using assms(4) by (simp_all add: state_files_def)
  obtain c1 k1 ca where ca: "create_ca hkdf token start ''CA'' ''Servers'' = Inr (c1, k1)" "x509_key_pair c1 k1 = Inr ca"
    using create_ca_ok [OF utf(1)] by blast
  obtain c2 k2 ag where ag: "create_ca hkdf token start ''Agent-CA'' ''Agents'' = Inr (c2, k2)" "x509_key_pair c2 k2 = Inr ag"
    using create_ca_ok [OF utf(2)] by blast
  obtain c3 k3 where sv: "create_peer_crt seed now c ca = Inr (c3, k3)"
    using create_peer_crt_iff [of seed now c ca] assms(3) by blast
  obtain kp where kp: "x509_key_pair c3 k3 = Inr kp" using sv by (rule create_peer_crt_pair)
  obtain fa where fa: "store_pair (Inr (c1, k1)) (?j ''ca.crt'') (?j ''ca.key'') ft = (Inr (?j ''ca.crt'', ?j ''ca.key'', ca), fa)"
    using w by (elim store_pair_writes [OF ca(2), rotated 2])
  have wa: "fs_writable fa = fs_writable ft" using store_pair_frame(3) [OF fa] .
  obtain fb where fb: "store_pair (Inr (c2, k2)) (?j ''agent-ca.crt'') (?j ''agent-ca.key'') fa =
      (Inr (?j ''agent-ca.crt'', ?j ''agent-ca.key'', ag), fb)"
    using w by (elim store_pair_writes [OF ag(2), rotated 2]) (simp_all add: wa)
  have wb: "fs_writable fb = fs_writable ft" using store_pair_frame(3) [OF fb] wa by simp
  obtain fc where fc: "store_pair (Inr (c3, k3)) (?j ''peer.crt'') (?j ''peer.key'') fb =
      (Inr (?j ''peer.crt'', ?j ''peer.key'', kp), fc)"
    using w by (elim store_pair_writes [OF kp, rotated 2]) (simp_all add: wb)
  have auth: "authority hkdf token start ''CA'' ''Servers'' = Some ca"
    "authority hkdf token start ''Agent-CA'' ''Agents'' = Some ag"
    using ca ag by (simp_all add: authority_def)
  obtain s where "load_state hkdf rnd seed now c f = (Inr s, fc)" "st_token s = token" "st_ca s = ca" "st_agent_ca s = ag"
    using assms(1,2) ca(1) ag(1) sv fa fb fc
    by (simp add: load_state_def load_state_ca_def load_state_agent_ca_def load_state_peer_crt_def)
  with auth show thesis by (intro that [of s fc]) simp_all
qed

text \<open>What the token file of a first start holds.\<close>

lemma load_state_token_fresh:
  assumes "fs_files f (path_join (cf_dir c) ''token'') = None" "cf_initial_token c = []"
    "fs_writable f (path_join (cf_dir c) ''token'')"
  shows "load_state_token c rnd now f = (Inr (rnd, now),
    f\<lparr>fs_files := (fs_files f)(path_join (cf_dir c) ''token'' \<mapsto> Raw (share_token rnd now))\<rparr>)"
  using assms by (simp add: load_state_token_def write_file_def)

lemma make_dir_again:
  "make_dir f d = (Inr (), f1) \<Longrightarrow> fs_dirs f2 = fs_dirs f1 \<Longrightarrow> make_dir f2 d = (Inr (), f2)"
  by (auto simp: make_dir_def split: if_splits)

lemma make_dir_frame:
  "make_dir f d = (r, f1) \<Longrightarrow> fs_files f1 = fs_files f \<and> fs_readable f1 = fs_readable f \<and> fs_writable f1 = fs_writable f"
  by (auto simp: make_dir_def split: if_splits)

section \<open>Properties\<close>

definition sample_config :: config where
  "sample_config = \<lparr>cf_name = ''r1'', cf_dir = ''state'', cf_initial_token = [], cf_initial_token_file = [],
     cf_join_url = [], cf_peer_listen_addr = AddrZero, cf_peer_advertise_hostname = hostname_from_fqdn ''r1.example'',
     cf_etcd_listen_port = 40, cf_etcd_client_listen_port = 41, cf_peer_api_listen_port = 42,
     cf_agent_api_listen_addr = AddrZero, cf_agent_api_advertise_hostname = hostname_from_fqdn ''r1.example'',
     cf_agent_api_listen_port = 43\<rparr>"

definition sample_fs :: fs where
  "sample_fs = \<lparr>fs_files = (\<lambda>p. None), fs_dirs = [], fs_readable = (\<lambda>p. True), fs_writable = (\<lambda>p. True)\<rparr>"

lemma sample_advertisable: "advertisable sample_config"
  by (simp add: advertisable_def advertisable_name_def sample_config_def hostname_from_fqdn_def ascii_def utf8_valid_ascii)

lemma sample_first_start:
  obtains s f1 where "load_state (\<lambda>t i n. t @ i) ''rnd'' ''seed'' 0 sample_config sample_fs = (Inr s, f1)"
    "fs_files f1 (path_join ''state'' ''token'') = Some (Raw (share_token ''rnd'' 0))"
proof -
  let ?fd = "sample_fs\<lparr>fs_dirs := [''state'']\<rparr>"
  let ?ft = "?fd\<lparr>fs_files := [path_join ''state'' ''token'' \<mapsto> Raw (share_token ''rnd'' 0)]\<rparr>"
  have dir: "make_dir sample_fs (cf_dir sample_config) = (Inr (), ?fd)"
    by (simp add: make_dir_def sample_fs_def sample_config_def)
  have tok: "load_state_token sample_config ''rnd'' 0 ?fd = (Inr (''rnd'', 0), ?ft)"
    by (simp add: load_state_token_def write_file_def sample_fs_def sample_config_def)
  have utf: "advertisable sample_config" by (rule sample_advertisable)
  obtain s f1 where load: "load_state (\<lambda>t i n. t @ i) ''rnd'' ''seed'' 0 sample_config sample_fs = (Inr s, f1)"
    by (rule load_state_succeeds [OF dir tok utf]) (simp_all add: sample_fs_def)
  obtain fd ft t st where "make_dir sample_fs (cf_dir sample_config) = (Inr (), fd)"
    "load_state_token sample_config ''rnd'' 0 fd = (Inr (t, st), ft)"
    "fs_files f1 (path_join (cf_dir sample_config) ''token'') = fs_files ft (path_join (cf_dir sample_config) ''token'')"
    using load by (rule load_state_parts)
  with dir tok have "fs_files f1 (path_join ''state'' ''token'') = Some (Raw (share_token ''rnd'' 0))"
    by (auto simp: sample_config_def)
  with load show thesis by (rule that)
qed

text \<open>A token that one registry shares is decoded by another to the same secret and the same time in
  whole milliseconds, whatever bytes the secret has.\<close>
theorem shared_token_decodes:
  assumes "- (2 ^ 63) \<le> unix_milli start" "unix_milli start < 2 ^ 63"
  shows "decode_token (share_token token start) = Inr (token, from_unix_milli (unix_milli start))"
  by (rule decode_share_token [OF assms])

theorem shared_token_decodes_witness:
  "decode_token (share_token ''secret'' 1700000000123456789) = Inr (''secret'', 1700000000123000000)"
  using shared_token_decodes [of 1700000000123456789 "''secret''"]
  by (simp add: unix_milli_def from_unix_milli_def millisecond_def)

text \<open>C20: a registry that restarts in its directory, at another time and with fresh randomness, comes
  back with the same secret and the same two certificate authorities, key and certificate, as at its
  first start.\<close>
theorem restart_keeps_authorities:
  assumes "load_state hkdf rnd seed now c f = (Inr s, f1)"
    and "fs_files f (path_join (cf_dir c) ''token'') = None" "cf_initial_token c = []"
    and "fs_writable f (path_join (cf_dir c) ''token'')" "fs_readable f (path_join (cf_dir c) ''token'')"
    and "- (2 ^ 63) \<le> unix_milli now" "unix_milli now < 2 ^ 63"
  shows "\<exists>s' f2. load_state hkdf rnd' seed' now' c f1 = (Inr s', f2) \<and> st_token s' = st_token s
    \<and> st_ca s' = st_ca s \<and> st_agent_ca s' = st_agent_ca s"
proof -
  let ?tok = "path_join (cf_dir c) ''token''"
  obtain fd ft token start where dir: "make_dir f (cf_dir c) = (Inr (), fd)"
    and tok: "load_state_token c rnd now fd = (Inr (token, start), ft)" and s: "st_token s = token"
    "authority hkdf token start ''CA'' ''Servers'' = Some (st_ca s)"
    "authority hkdf token start ''Agent-CA'' ''Agents'' = Some (st_agent_ca s)"
    and utf: "advertisable c"
    and w: "\<forall>file \<in> {''ca.crt'', ''ca.key'', ''agent-ca.crt'', ''agent-ca.key'', ''peer.crt'', ''peer.key''}.
       fs_writable ft (path_join (cf_dir c) file)"
    and fr: "fs_readable f1 = fs_readable ft" "fs_writable f1 = fs_writable ft" "fs_dirs f1 = fs_dirs ft"
      "fs_files f1 ?tok = fs_files ft ?tok"
    using assms(1) by (rule load_state_parts)
  have fd: "fs_files fd = fs_files f" "fs_readable fd = fs_readable f" "fs_writable fd = fs_writable f"
    using make_dir_frame [OF dir] by auto
  then have fresh: "load_state_token c rnd now fd = (Inr (rnd, now), fd\<lparr>fs_files := (fs_files fd)(?tok \<mapsto> Raw (share_token rnd now))\<rparr>)"
    using assms(2-4) by (intro load_state_token_fresh) simp_all
  with tok have now: "token = rnd" "start = now" and ft: "fs_files ft ?tok = Some (Raw (share_token rnd now))"
    "fs_dirs ft = fs_dirs fd" "fs_readable ft = fs_readable f"
    using fd by auto
  have dir1: "make_dir f1 (cf_dir c) = (Inr (), f1)"
    using make_dir_again [OF dir] fr ft by simp
  have "fs_files f1 ?tok = Some (Raw (share_token rnd now))" "fs_readable f1 ?tok"
    using fr ft assms(5) by simp_all
  then have again: "load_state_token c rnd' now' f1 = (Inr (rnd, from_unix_milli (unix_milli now)), f1)"
    using decode_share_token [OF assms(6,7)] by (simp add: load_state_token_def read_file_def)
  have w1: "\<forall>file \<in> set state_files. fs_writable f1 (path_join (cf_dir c) file)"
    using w fr by (simp add: state_files_def)
  obtain s' f2 where "load_state hkdf rnd' seed' now' c f1 = (Inr s', f2)" "st_token s' = rnd"
    "authority hkdf rnd (from_unix_milli (unix_milli now)) ''CA'' ''Servers'' = Some (st_ca s')"
    "authority hkdf rnd (from_unix_milli (unix_milli now)) ''Agent-CA'' ''Agents'' = Some (st_agent_ca s')"
    by (rule load_state_succeeds [OF dir1 again utf w1])
  then show ?thesis using s now by (simp add: authority_seconds)
qed

theorem restart_keeps_authorities_witness:
  "\<exists>s f1 s' f2. load_state (\<lambda>t i n. t @ i) ''rnd'' ''seed'' 0 sample_config sample_fs = (Inr s, f1)
    \<and> load_state (\<lambda>t i n. t @ i) ''other'' ''seed2'' 90 sample_config f1 = (Inr s', f2)
    \<and> st_token s' = st_token s \<and> st_agent_ca s' = st_agent_ca s"
proof -
  obtain s f1 where load: "load_state (\<lambda>t i n. t @ i) ''rnd'' ''seed'' 0 sample_config sample_fs = (Inr s, f1)"
    by (rule sample_first_start)
  have f: "fs_files sample_fs p = None" "fs_writable sample_fs p" "fs_readable sample_fs p"
    "cf_initial_token sample_config = []" for p
    by (simp_all add: sample_fs_def sample_config_def)
  have t: "- (2 ^ 63) \<le> unix_milli 0" "unix_milli 0 < 2 ^ 63" by (simp_all add: unix_milli_def)
  from restart_keeps_authorities [OF load f(1,4,2,3) t, of "''other''" "''seed2''" 90] load
  show ?thesis by blast
qed

text \<open>The token file of one registry as the initial token of another.\<close>

lemma join_authorities:
  assumes "load_state hkdf rnd seed now c f = (Inr s, f1)"
    and "fs_files f (path_join (cf_dir c) ''token'') = None" "cf_initial_token c = []"
    and "fs_writable f (path_join (cf_dir c) ''token'')"
    and "- (2 ^ 63) \<le> unix_milli now" "unix_milli now < 2 ^ 63"
    and "fs_files f1 (path_join (cf_dir c) ''token'') = Some (Raw (cf_initial_token c'))"
    and "fs_files g (path_join (cf_dir c') ''token'') = None" "\<And>p. fs_writable g p" "advertisable c'"
  shows "\<exists>s' g'. load_state hkdf rnd' seed' now' c' g = (Inr s', g') \<and> st_token s' = st_token s
    \<and> st_ca s' = st_ca s \<and> st_agent_ca s' = st_agent_ca s"
proof -
  let ?tok = "path_join (cf_dir c) ''token''" and ?tok' = "path_join (cf_dir c') ''token''"
  obtain fd ft token start where dir: "make_dir f (cf_dir c) = (Inr (), fd)"
    and tok: "load_state_token c rnd now fd = (Inr (token, start), ft)" and s: "st_token s = token"
    "authority hkdf token start ''CA'' ''Servers'' = Some (st_ca s)"
    "authority hkdf token start ''Agent-CA'' ''Agents'' = Some (st_agent_ca s)"
    and fr: "fs_files f1 ?tok = fs_files ft ?tok"
    using assms(1) by (rule load_state_parts)
  have fd: "fs_files fd = fs_files f" "fs_writable fd = fs_writable f" using make_dir_frame [OF dir] by auto
  then have "load_state_token c rnd now fd = (Inr (rnd, now), fd\<lparr>fs_files := (fs_files fd)(?tok \<mapsto> Raw (share_token rnd now))\<rparr>)"
    using assms(2-4) by (intro load_state_token_fresh) simp_all
  with tok fr assms(7) have now: "token = rnd" "start = now" and init: "cf_initial_token c' = share_token rnd now"
    by auto
  have "\<exists>gd. make_dir g (cf_dir c') = (Inr (), gd)" using assms(9) by (simp add: make_dir_def)
  then obtain gd where gd: "make_dir g (cf_dir c') = (Inr (), gd)" ..
  have g: "fs_files gd ?tok' = None" "\<And>p. fs_writable gd p" using make_dir_frame [OF gd] assms(8,9) by auto
  have "share_token rnd now \<noteq> []" by (simp add: share_token_def)
  then obtain gt where gt: "load_state_token c' rnd' now' gd = (Inr (rnd, from_unix_milli (unix_milli now)), gt)"
    "\<And>p. fs_writable gt p"
    using g decode_share_token [OF assms(5,6)] init
    by (simp add: load_state_token_def write_file_def)
  obtain s' g' where "load_state hkdf rnd' seed' now' c' g = (Inr s', g')" "st_token s' = rnd"
    "authority hkdf rnd (from_unix_milli (unix_milli now)) ''CA'' ''Servers'' = Some (st_ca s')"
    "authority hkdf rnd (from_unix_milli (unix_milli now)) ''Agent-CA'' ''Agents'' = Some (st_agent_ca s')"
    by (rule load_state_succeeds [OF gd gt(1) assms(10)]) (use gt(2) in simp)
  then show ?thesis using s now by (simp add: authority_seconds)
qed

end
