(* ===== verification/Etcd.thy ===== *)
theory Etcd
  imports Prelude "HOL-Library.Word"
begin

text \<open>
  The embedded etcd server as the registry uses it. etcd is not part of the repository: its
  operations are a parameter (record \<open>'e etcd\<close> over an arbitrary state type \<open>'e\<close>), and what the
  registry relies on is the contract of locale \<open>etcd_store\<close>, taken from etcd's documented
  behaviour: key ranges are half-open and returned in key order, a transaction is atomic,
  deleting a lease deletes the keys attached to it. \<open>etcd_live\<close> adds that a server in a good
  state answers. The contract describes one handler's calls with no other client in between.
\<close>

section \<open>Requests\<close>

record kv =
  kv_key :: string
  kv_value :: string
  kv_create_rev :: int
  kv_version :: int
  kv_lease :: int

record range_request =
  rr_key :: string
  rr_end :: string
  rr_limit :: int

text \<open>The comparisons the registry uses are all equalities.\<close>

datatype compare =
    CompareVersion string int
  | CompareCreate string int

datatype request_op =
    PutOp string string int
  | DeleteOp string

record txn_request =
  txn_compare :: "compare list"
  txn_success :: "request_op list"

record member =
  mem_id :: "64 word"
  mem_name :: string
  mem_peer_urls :: "string list"
  mem_client_urls :: "string list"

text \<open>An operation may fail with any error; its second component is the server's next state.\<close>

record 'e etcd =
  etcd_range :: "'e \<Rightarrow> range_request \<Rightarrow> kv list outcome \<times> 'e"
  etcd_txn :: "'e \<Rightarrow> txn_request \<Rightarrow> bool outcome \<times> 'e"
  etcd_put :: "'e \<Rightarrow> string \<Rightarrow> string \<Rightarrow> unit outcome \<times> 'e"
  etcd_lease_grant :: "'e \<Rightarrow> int \<Rightarrow> int outcome \<times> 'e"
  etcd_lease_renew :: "'e \<Rightarrow> int \<Rightarrow> int outcome \<times> 'e"
  etcd_lease_revoke :: "'e \<Rightarrow> int \<Rightarrow> unit outcome \<times> 'e"
  etcd_members :: "'e \<Rightarrow> member list"
  etcd_add_member :: "'e \<Rightarrow> string \<Rightarrow> string list \<Rightarrow> unit outcome \<times> 'e"
  etcd_update_member :: "'e \<Rightarrow> member \<Rightarrow> unit outcome \<times> 'e"
  etcd_member_id :: "'e \<Rightarrow> 64 word"

definition err_lease_not_found :: fault where
  "err_lease_not_found = Failure ''requested lease not found''"

section \<open>What the operations mean\<close>

text \<open>An empty range end asks for the one key, a zero byte for every key from \<open>rr_key\<close> on.\<close>

definition in_key_range :: "range_request \<Rightarrow> string \<Rightarrow> bool" where
  "in_key_range r k =
     (if rr_end r = [] then k = rr_key r
      else if rr_end r = [CHR 0x00] then rr_key r \<le> k
      else rr_key r \<le> k \<and> k < rr_end r)"

definition limit_to :: "int \<Rightarrow> 'a list \<Rightarrow> 'a list" where
  "limit_to n xs = (if n \<le> 0 then xs else take (nat n) xs)"

definition range_kvs :: "(string \<rightharpoonup> kv) \<Rightarrow> range_request \<Rightarrow> kv list" where
  "range_kvs m r =
     limit_to (rr_limit r)
       (map (\<lambda>k. the (m k)) (sorted_list_of_set {k \<in> dom m. in_key_range r k}))"

definition compare_holds :: "(string \<rightharpoonup> kv) \<Rightarrow> compare \<Rightarrow> bool" where
  "compare_holds m c =
     (case c of
        CompareVersion k n \<Rightarrow> (case m k of None \<Rightarrow> 0 | Some e \<Rightarrow> kv_version e) = n
      | CompareCreate k n \<Rightarrow> (case m k of None \<Rightarrow> 0 | Some e \<Rightarrow> kv_create_rev e) = n)"

definition put_entry :: "int \<Rightarrow> string \<Rightarrow> string \<Rightarrow> int \<Rightarrow> kv option \<Rightarrow> kv" where
  "put_entry rv k v l old =
     (case old of
        None \<Rightarrow> \<lparr>kv_key = k, kv_value = v, kv_create_rev = rv, kv_version = 1, kv_lease = l\<rparr>
      | Some e \<Rightarrow> e\<lparr>kv_value := v, kv_version := kv_version e + 1, kv_lease := l\<rparr>)"

lemma put_entry_fields [simp]:
  "kv_value (put_entry rv k v l old) = v" "kv_lease (put_entry rv k v l old) = l"
  by (simp_all add: put_entry_def split: option.split)

fun apply_op :: "int \<Rightarrow> request_op \<Rightarrow> (string \<rightharpoonup> kv) \<Rightarrow> (string \<rightharpoonup> kv)" where
  "apply_op rv (PutOp k v l) m = m(k \<mapsto> put_entry rv k v l (m k))"
| "apply_op rv (DeleteOp k) m = m(k := None)"

fun op_lease :: "request_op \<Rightarrow> int" where
  "op_lease (PutOp k v l) = l"
| "op_lease (DeleteOp k) = 0"

text \<open>The bytes of keys and values in a transaction, which etcd bounds.\<close>

fun op_size :: "request_op \<Rightarrow> nat" where
  "op_size (PutOp k v l) = length k + length v"
| "op_size (DeleteOp k) = length k"

fun compare_size :: "compare \<Rightarrow> nat" where
  "compare_size (CompareVersion k n) = length k"
| "compare_size (CompareCreate k n) = length k"

definition txn_size :: "txn_request \<Rightarrow> nat" where
  "txn_size t = sum_list (map compare_size (txn_compare t)) + sum_list (map op_size (txn_success t))"

definition drop_lease :: "int \<Rightarrow> (string \<rightharpoonup> kv) \<Rightarrow> (string \<rightharpoonup> kv)" where
  "drop_lease l m = (\<lambda>k. case m k of None \<Rightarrow> None | Some e \<Rightarrow> if kv_lease e = l then None else Some e)"

definition entry_ok :: "int set \<Rightarrow> string \<Rightarrow> kv \<Rightarrow> bool" where
  "entry_ok ls k e \<longleftrightarrow> kv_key e = k \<and> 0 < kv_create_rev e \<and> 0 < kv_version e
     \<and> (kv_lease e = 0 \<or> kv_lease e \<in> ls)"

lemma set_limit_to: "set (limit_to n xs) \<subseteq> set xs"
  by (auto simp: limit_to_def dest: in_set_takeD)

lemma range_kvs_limit:
  "range_kvs m r = map (\<lambda>k. the (m k)) (limit_to (rr_limit r) (sorted_list_of_set {k \<in> dom m. in_key_range r k}))"
  by (simp add: range_kvs_def limit_to_def take_map)

lemma range_kvs_keys:
  assumes "\<And>k x. m k = Some x \<Longrightarrow> kv_key x = k" "finite (dom m)"
  shows "map kv_key (range_kvs m r) =
    limit_to (rr_limit r) (sorted_list_of_set {k \<in> dom m. in_key_range r k})"
proof -
  let ?ks = "limit_to (rr_limit r) (sorted_list_of_set {k \<in> dom m. in_key_range r k})"
  have "set ?ks \<subseteq> dom m" using set_limit_to [of "rr_limit r"] assms(2) by fastforce
  moreover have "map (kv_key \<circ> (\<lambda>k. the (m k))) ks = ks" if "set ks \<subseteq> dom m" for ks
    using that assms(1) by (induction ks) (auto simp: domIff)
  ultimately show ?thesis by (simp add: range_kvs_limit)
qed

lemma range_kvs_values:
  assumes "\<And>k x. m k = Some x \<Longrightarrow> kv_key x = k" "finite (dom m)" "x \<in> set (range_kvs m r)"
  shows "m (kv_key x) = Some x \<and> in_key_range r (kv_key x)"
proof -
  have "finite {k \<in> dom m. in_key_range r k}" using assms(2) by simp
  then have sub: "set (limit_to (rr_limit r) (sorted_list_of_set {k \<in> dom m. in_key_range r k}))
      \<subseteq> {k \<in> dom m. in_key_range r k}"
    using set_limit_to by force
  from assms(3) obtain k where
    "k \<in> set (limit_to (rr_limit r) (sorted_list_of_set {k \<in> dom m. in_key_range r k}))" "x = the (m k)"
    by (auto simp: range_kvs_limit)
  with sub assms(1) show ?thesis by auto
qed

lemma range_kvs_all:
  assumes "finite (dom m)" "m k = Some x" "in_key_range r k" "rr_limit r = 0"
  shows "x \<in> set (range_kvs m r)"
proof -
  have "finite {k \<in> dom m. in_key_range r k}" using assms(1) by simp
  with assms(2-) show ?thesis by (force simp: range_kvs_def limit_to_def)
qed

lemma range_kvs_key:
  assumes "0 \<le> n"
  shows "range_kvs m \<lparr>rr_key = k, rr_end = [], rr_limit = n\<rparr> = (case m k of None \<Rightarrow> [] | Some x \<Rightarrow> [x])"
proof -
  have keys: "{k' \<in> dom m. in_key_range \<lparr>rr_key = k, rr_end = [], rr_limit = n\<rparr> k'} = (if m k = None then {} else {k})"
    by (auto simp: in_key_range_def domIff)
  show ?thesis
    unfolding range_kvs_def keys using assms by (auto simp: limit_to_def take_Cons' split: option.splits)
qed

section \<open>The contract\<close>

locale etcd_store =
  fixes E :: "'e etcd"
    and wf :: "'e \<Rightarrow> bool"
    and kvs :: "'e \<Rightarrow> string \<rightharpoonup> kv"
    and leases :: "'e \<Rightarrow> int set"
  assumes finite_kvs: "wf e \<Longrightarrow> finite (dom (kvs e))"
    and entries: "wf e \<Longrightarrow> kvs e k = Some x \<Longrightarrow> entry_ok (leases e) k x"
    and finite_leases: "wf e \<Longrightarrow> finite (leases e)"
    and lease_nonzero: "wf e \<Longrightarrow> 0 \<notin> leases e"
    and range_frame: "wf e \<Longrightarrow> etcd_range E e r = (res, e') \<Longrightarrow>
      wf e' \<and> kvs e' = kvs e \<and> leases e' = leases e"
    and range_result: "wf e \<Longrightarrow> etcd_range E e r = (Inr ks, e') \<Longrightarrow> ks = range_kvs (kvs e) r"
    and txn_frame: "wf e \<Longrightarrow> etcd_txn E e t = (Inr b, e') \<Longrightarrow> wf e' \<and> leases e' = leases e"
    and txn_result: "wf e \<Longrightarrow> etcd_txn E e t = (Inr b, e') \<Longrightarrow>
      b = list_all (compare_holds (kvs e)) (txn_compare t)"
    and txn_effect: "wf e \<Longrightarrow> etcd_txn E e t = (Inr b, e') \<Longrightarrow>
      \<exists>rv > 0. kvs e' = (if b then fold (apply_op rv) (txn_success t) (kvs e) else kvs e)"
    and put_result: "wf e \<Longrightarrow> etcd_put E e k v = (Inr (), e') \<Longrightarrow>
      wf e' \<and> leases e' = leases e \<and> (\<exists>rv > 0. kvs e' = (kvs e)(k \<mapsto> put_entry rv k v 0 (kvs e k)))"
    and update_member_frame: "wf e \<Longrightarrow> etcd_update_member E e m = (updated, e') \<Longrightarrow>
      wf e' \<and> kvs e' = kvs e \<and> leases e' = leases e"
    and grant_result: "wf e \<Longrightarrow> etcd_lease_grant E e ttl = (Inr l, e') \<Longrightarrow>
      wf e' \<and> kvs e' = kvs e \<and> l \<noteq> 0 \<and> l \<notin> leases e \<and> leases e' = insert l (leases e)
      \<and> - (2 ^ 63) \<le> l \<and> l < 2 ^ 63"
    and renew_frame: "wf e \<Longrightarrow> etcd_lease_renew E e l = (renewed, e') \<Longrightarrow>
      wf e' \<and> kvs e' = kvs e \<and> leases e' = leases e"
    and renew_result: "wf e \<Longrightarrow> etcd_lease_renew E e l = (Inr ttl, e') \<Longrightarrow> l \<in> leases e"
    and revoke_result: "wf e \<Longrightarrow> etcd_lease_revoke E e l = (Inr (), e') \<Longrightarrow>
      wf e' \<and> l \<in> leases e \<and> leases e' = leases e - {l} \<and> kvs e' = drop_lease l (kvs e)"
    and revoke_missing: "wf e \<Longrightarrow> etcd_lease_revoke E e l = (Inl err_lease_not_found, e') \<Longrightarrow>
      wf e' \<and> l \<notin> leases e \<and> leases e' = leases e \<and> kvs e' = kvs e"
begin

lemma lookup_result:
  assumes "wf e" "etcd_range E e \<lparr>rr_key = k, rr_end = [], rr_limit = n\<rparr> = (Inr ks, e')" "0 \<le> n"
  shows "ks = (case kvs e k of None \<Rightarrow> [] | Some x \<Rightarrow> [x])"
  using range_result [OF assms(1,2)] range_kvs_key [OF assms(3)] by simp

lemma entry_key: "wf e \<Longrightarrow> kvs e k = Some x \<Longrightarrow> kv_key x = k"
  by (drule (1) entries) (simp add: entry_ok_def)

end

text \<open>A server whose failed requests leave no trace other than the whole request: an error, such as a
  timeout, does not tell whether the request was applied.\<close>

locale etcd_atomic = etcd_store +
  assumes txn_leases: "wf e \<Longrightarrow> etcd_txn E e t = (Inr True, e') \<Longrightarrow>
      list_all (\<lambda>op. op_lease op = 0 \<or> op_lease op \<in> leases e) (txn_success t)"
    and txn_failed: "wf e \<Longrightarrow> etcd_txn E e t = (Inl err, e') \<Longrightarrow> wf e' \<and> leases e' = leases e
      \<and> (kvs e' = kvs e \<or> list_all (compare_holds (kvs e)) (txn_compare t)
           \<and> list_all (\<lambda>op. op_lease op = 0 \<or> op_lease op \<in> leases e) (txn_success t)
           \<and> (\<exists>rv > 0. kvs e' = fold (apply_op rv) (txn_success t) (kvs e)))"
    and put_failed: "wf e \<Longrightarrow> etcd_put E e k v = (Inl err, e') \<Longrightarrow> wf e' \<and> leases e' = leases e
      \<and> (kvs e' = kvs e \<or> (\<exists>rv > 0. kvs e' = (kvs e)(k \<mapsto> put_entry rv k v 0 (kvs e k))))"
    and grant_failed: "wf e \<Longrightarrow> etcd_lease_grant E e ttl = (Inl err, e') \<Longrightarrow> wf e' \<and> kvs e' = kvs e
      \<and> (leases e' = leases e \<or> (\<exists>l. l \<noteq> 0 \<and> l \<notin> leases e \<and> leases e' = insert l (leases e)))"
    and revoke_failed: "wf e \<Longrightarrow> etcd_lease_revoke E e l = (Inl err, e') \<Longrightarrow> wf e'
      \<and> (leases e' = leases e \<and> kvs e' = kvs e
         \<or> l \<in> leases e \<and> leases e' = leases e - {l} \<and> kvs e' = drop_lease l (kvs e))"
    and add_member_frame: "wf e \<Longrightarrow> etcd_add_member E e name urls = (added, e') \<Longrightarrow>
      wf e' \<and> kvs e' = kvs e \<and> leases e' = leases e"

text \<open>A server that answers: every operation returns where its preconditions hold. A lease can be
  granted while fewer than \<open>2 ^ 62\<close> are live, far below the number of 64-bit identifiers, and a
  transaction whose keys and values take less than a mebibyte is within etcd's default limit of
  1.5 mebibytes for the encoded request.\<close>

locale etcd_live = etcd_store +
  assumes range_returns: "wf e \<Longrightarrow> \<exists>ks e'. etcd_range E e r = (Inr ks, e')"
    and txn_returns: "wf e \<Longrightarrow> \<forall>op \<in> set (txn_success t). op_lease op = 0 \<or> op_lease op \<in> leases e \<Longrightarrow>
      txn_size t < 2 ^ 20 \<Longrightarrow> \<exists>b e'. etcd_txn E e t = (Inr b, e')"
    and put_returns: "wf e \<Longrightarrow> length k + length v < 2 ^ 20 \<Longrightarrow> \<exists>e'. etcd_put E e k v = (Inr (), e')"
    and grant_returns: "wf e \<Longrightarrow> card (leases e) < 2 ^ 62 \<Longrightarrow> \<exists>l e'. etcd_lease_grant E e ttl = (Inr l, e')"
    and renew_returns: "wf e \<Longrightarrow> l \<in> leases e \<Longrightarrow> \<exists>ttl e'. etcd_lease_renew E e l = (Inr ttl, e')"
    and renew_missing: "wf e \<Longrightarrow> l \<notin> leases e \<Longrightarrow>
      \<exists>e'. etcd_lease_renew E e l = (Inl err_lease_not_found, e')"
    and revoke_returns: "wf e \<Longrightarrow> l \<in> leases e \<Longrightarrow> \<exists>e'. etcd_lease_revoke E e l = (Inr (), e')"
    and revoke_returns_missing: "wf e \<Longrightarrow> l \<notin> leases e \<Longrightarrow>
      \<exists>e'. etcd_lease_revoke E e l = (Inl err_lease_not_found, e')"
begin

lemma range_total:
  assumes "wf e"
  obtains e' where "etcd_range E e r = (Inr (range_kvs (kvs e) r), e')"
    "wf e'" "kvs e' = kvs e" "leases e' = leases e"
  using range_returns [OF assms, of r] range_result [OF assms] range_frame [OF assms] by metis

lemma lookup_total:
  assumes "wf e" "0 \<le> n"
  obtains e' where "etcd_range E e \<lparr>rr_key = k, rr_end = [], rr_limit = n\<rparr> =
      (Inr (case kvs e k of None \<Rightarrow> [] | Some x \<Rightarrow> [x]), e')"
    "wf e'" "kvs e' = kvs e" "leases e' = leases e"
  using range_returns [OF assms(1), of "\<lparr>rr_key = k, rr_end = [], rr_limit = n\<rparr>"]
    lookup_result [OF assms(1) _ assms(2)] range_frame [OF assms(1)] by metis

end

end
