(* ===== verification/RegUtils.thy ===== *)
theory RegUtils
  imports RegState Etcd
begin

text \<open>
  registry/utils/utils.go: who is calling (the peer certificate and the node it stands for), the
  lease that keeps a node's services alive, key prefixes, and the certificates of nodes.
\<close>

section \<open>Constants and keys\<close>

definition auth_failure :: fault where
  "auth_failure = Status Unauthenticated ''Authentication failure''"

definition server_error :: fault where
  "server_error = Status Internal ''Internal server error''"

definition agent_certificate_ou :: string where "agent_certificate_ou = ''Agents''"
definition observer_certificate_ou :: string where "observer_certificate_ou = ''Observers''"
definition node_certificate_expiry :: int where "node_certificate_expiry = 7 * day"
definition node_keepalive_ttl :: "32 word" where "node_keepalive_ttl = 30"

text \<open>Keys are path segments joined by slashes, as the format strings build them.\<close>

definition key_path :: "string list \<Rightarrow> string" where
  "key_path ps = join_with ''/'' ps"

definition node_key :: "string \<Rightarrow> string \<Rightarrow> string" where
  "node_key dc name = key_path [''nodes'', dc, name]"

definition lease_key :: "string \<Rightarrow> string \<Rightarrow> string" where
  "lease_key dc name = key_path [''node_lease'', dc, name]"

section \<open>The caller\<close>

datatype auth_info = TLSInfo "certificate list" | OtherAuth

record rpc_peer =
  peer_address :: string
  peer_auth :: auth_info

definition extract_peer_certificate :: "rpc_peer option \<Rightarrow> certificate outcome" where
  "extract_peer_certificate ctx =
     (case ctx of
        None \<Rightarrow> Inl auth_failure
      | Some p \<Rightarrow>
          (case peer_auth p of
             OtherAuth \<Rightarrow> Inl auth_failure
           | TLSInfo [] \<Rightarrow> Inl auth_failure
           | TLSInfo (c # _) \<Rightarrow> Inr c))"

definition extract_peer_datacenter_node :: "certificate \<Rightarrow> (string \<times> string) outcome" where
  "extract_peer_datacenter_node cert =
     (if length (pn_ou (crt_subject cert)) \<noteq> 2 then Inl (Failure ''Malformed agent certificate'')
      else Inr (pn_ou (crt_subject cert) ! 0, pn_cn (crt_subject cert)))"

definition get_node_schema ::
  "'e etcd \<Rightarrow> string \<Rightarrow> string \<Rightarrow> 'e \<Rightarrow> node_schema option outcome \<times> 'e" where
  "get_node_schema E dc name e =
     (case etcd_range E e \<lparr>rr_key = node_key dc name, rr_end = [], rr_limit = 1\<rparr> of
        (Inl err, e) \<Rightarrow> (Inl err, e)
      | (Inr [], e) \<Rightarrow> (Inr None, e)
      | (Inr (kv # _), e) \<Rightarrow>
          (case unmarshal_node (kv_value kv) of
             None \<Rightarrow> (Inl (Failure ''json''), e)
           | Some node \<Rightarrow> (Inr (Some node), e)))"

text \<open>\<open>None\<close> for the certificate is the nil pointer, whose first use panics.\<close>

definition authenticate_from_certificate ::
  "'e etcd \<Rightarrow> certificate option \<Rightarrow> 'e \<Rightarrow> (string \<times> node_schema) outcome \<times> 'e" where
  "authenticate_from_certificate E cert e =
     (case cert of
        None \<Rightarrow> (Inl (Panic ''nil pointer dereference''), e)
      | Some cert \<Rightarrow>
          (case extract_peer_datacenter_node cert of
             Inl _ \<Rightarrow> (Inl auth_failure, e)
           | Inr (dc, name) \<Rightarrow>
               (case get_node_schema E dc name e of
                  (Inl _, e) \<Rightarrow> (Inl auth_failure, e)
                | (Inr None, e) \<Rightarrow> (Inl auth_failure, e)
                | (Inr (Some node), e) \<Rightarrow> (Inr (pn_ou (crt_subject cert) ! 1, node), e))))"

text \<open>The error of \<^verbatim>\<open>ExtractPeerCertificate\<close> is overwritten by the next call, so a caller without a
  certificate reaches \<^verbatim>\<open>AuthenticateNodeFromCertificate\<close> with a nil certificate.\<close>

definition authenticate_node ::
  "'e etcd \<Rightarrow> rpc_peer option \<Rightarrow> string \<Rightarrow> 'e \<Rightarrow> node_schema outcome \<times> 'e" where
  "authenticate_node E ctx implicit e =
     (let cert = (case extract_peer_certificate ctx of Inl _ \<Rightarrow> None | Inr c \<Rightarrow> Some c) in
      case authenticate_from_certificate E cert e of
        (Inl err, e) \<Rightarrow> (Inl err, e)
      | (Inr (role, node), e) \<Rightarrow>
          if role \<noteq> implicit then (Inl auth_failure, e) else (Inr node, e))"

definition authenticate_agent :: "'e etcd \<Rightarrow> rpc_peer option \<Rightarrow> 'e \<Rightarrow> node_schema outcome \<times> 'e" where
  "authenticate_agent E ctx e = authenticate_node E ctx agent_certificate_ou e"

definition authenticate_observer :: "'e etcd \<Rightarrow> rpc_peer option \<Rightarrow> 'e \<Rightarrow> node_schema outcome \<times> 'e" where
  "authenticate_observer E ctx e = authenticate_node E ctx observer_certificate_ou e"

section \<open>\<^verbatim>\<open>GetNodeLease\<close>\<close>

definition unmarshal_int64 :: "string \<Rightarrow> int option" where
  "unmarshal_int64 data =
     (case json_parse data of
        Some JNull \<Rightarrow> Some 0
      | Some (JNum lit) \<Rightarrow> parse_int_opt 64 lit
      | _ \<Rightarrow> None)"

definition marshal_int64 :: "int \<Rightarrow> string" where
  "marshal_int64 i = json_print (JNum (show_int i))"

text \<open>Renewing the lease that the key names, if it names one that is still alive.\<close>

definition renew_stored :: "'e etcd \<Rightarrow> kv list \<Rightarrow> 'e \<Rightarrow> int option \<times> 'e" where
  "renew_stored E ks e =
     (case ks of
        [] \<Rightarrow> (None, e)
      | kv # _ \<Rightarrow>
          (case unmarshal_int64 (kv_value kv) of
             None \<Rightarrow> (None, e)
           | Some l \<Rightarrow>
               (case etcd_lease_renew E e l of
                  (Inr _, e) \<Rightarrow> (Some l, e)
                | (Inl _, e) \<Rightarrow> (None, e))))"

definition lease_txn :: "string \<Rightarrow> kv list \<Rightarrow> int \<Rightarrow> txn_request" where
  "lease_txn key ks l =
     \<lparr>txn_compare = [case ks of kv # _ \<Rightarrow> CompareVersion key (kv_version kv) | [] \<Rightarrow> CompareCreate key 0],
      txn_success = [PutOp key (marshal_int64 l) 0]\<rparr>"

text \<open>The loop \<^verbatim>\<open>for range 5\<close>, with the number of rounds left.\<close>

fun lease_rounds :: "nat \<Rightarrow> 'e etcd \<Rightarrow> string \<Rightarrow> 'e \<Rightarrow> int outcome \<times> 'e" where
  "lease_rounds 0 E key e = (Inl server_error, e)"
| "lease_rounds (Suc n) E key e =
     (case etcd_range E e \<lparr>rr_key = key, rr_end = [], rr_limit = 0\<rparr> of
        (Inl _, e) \<Rightarrow> (Inl server_error, e)
      | (Inr ks, e) \<Rightarrow>
          (case renew_stored E ks e of
             (Some l, e) \<Rightarrow> (Inr l, e)
           | (None, e) \<Rightarrow>
               (case etcd_lease_grant E e (uint node_keepalive_ttl) of
                  (Inl _, e) \<Rightarrow> (Inl server_error, e)
                | (Inr l, e) \<Rightarrow>
                    (case etcd_txn E e (lease_txn key ks l) of
                       (Inl _, e) \<Rightarrow> (Inl server_error, e)
                     | (Inr True, e) \<Rightarrow> (Inr l, e)
                     | (Inr False, e) \<Rightarrow> lease_rounds n E key e))))"

definition get_node_lease :: "'e etcd \<Rightarrow> string \<Rightarrow> string \<Rightarrow> 'e \<Rightarrow> int outcome \<times> 'e" where
  "get_node_lease E dc name e = lease_rounds 5 E (lease_key dc name) e"

text \<open>How a round of the loop goes.\<close>

lemma lease_rounds_cases:
  assumes "lease_rounds n E key e = (res, e')"
  obtains
    (Exhausted) "n = 0" "res = Inl server_error" "e' = e"
  | (Unread) m err where "n = Suc m" "etcd_range E e \<lparr>rr_key = key, rr_end = [], rr_limit = 0\<rparr> = (Inl err, e')"
      "res = Inl server_error"
  | (Renewed) m ks e1 l where "n = Suc m" "etcd_range E e \<lparr>rr_key = key, rr_end = [], rr_limit = 0\<rparr> = (Inr ks, e1)"
      "renew_stored E ks e1 = (Some l, e')" "res = Inr l"
  | (Ungranted) m ks e1 e2 err where "n = Suc m" "etcd_range E e \<lparr>rr_key = key, rr_end = [], rr_limit = 0\<rparr> = (Inr ks, e1)"
      "renew_stored E ks e1 = (None, e2)" "etcd_lease_grant E e2 (uint node_keepalive_ttl) = (Inl err, e')" "res = Inl server_error"
  | (Unsent) m ks e1 e2 l e3 err where "n = Suc m" "etcd_range E e \<lparr>rr_key = key, rr_end = [], rr_limit = 0\<rparr> = (Inr ks, e1)"
      "renew_stored E ks e1 = (None, e2)" "etcd_lease_grant E e2 (uint node_keepalive_ttl) = (Inr l, e3)"
      "etcd_txn E e3 (lease_txn key ks l) = (Inl err, e')" "res = Inl server_error"
  | (Stored) m ks e1 e2 l e3 where "n = Suc m" "etcd_range E e \<lparr>rr_key = key, rr_end = [], rr_limit = 0\<rparr> = (Inr ks, e1)"
      "renew_stored E ks e1 = (None, e2)" "etcd_lease_grant E e2 (uint node_keepalive_ttl) = (Inr l, e3)"
      "etcd_txn E e3 (lease_txn key ks l) = (Inr True, e')" "res = Inr l"
  | (Overtaken) m ks e1 e2 l e3 e4 where "n = Suc m" "etcd_range E e \<lparr>rr_key = key, rr_end = [], rr_limit = 0\<rparr> = (Inr ks, e1)"
      "renew_stored E ks e1 = (None, e2)" "etcd_lease_grant E e2 (uint node_keepalive_ttl) = (Inr l, e3)"
      "etcd_txn E e3 (lease_txn key ks l) = (Inr False, e4)" "lease_rounds m E key e4 = (res, e')"
  using assms by (cases n) (auto split: prod.splits sum.splits option.splits bool.splits)

section \<open>\<^verbatim>\<open>PrefixEnd\<close>\<close>

text \<open>On the reversed prefix: the last byte below 255 is incremented, the bytes after it stay.\<close>

fun inc_first_below :: "string \<Rightarrow> string" where
  "inc_first_below [] = []"
| "inc_first_below (v # vs) =
     (if of_char v < (255 :: nat) then byte_inc v # vs else v # inc_first_below vs)"

definition prefix_end :: "string \<Rightarrow> string" where
  "prefix_end p = rev (inc_first_below (rev p))"

definition prefix_request :: "string \<Rightarrow> int \<Rightarrow> range_request" where
  "prefix_request p n = \<lparr>rr_key = p, rr_end = prefix_end p, rr_limit = n\<rparr>"

section \<open>\<^verbatim>\<open>CreateNodeCrt\<close>\<close>

definition create_node_crt ::
  "string \<Rightarrow> int \<Rightarrow> state \<Rightarrow> string \<Rightarrow> string \<Rightarrow> string \<Rightarrow> (blob \<times> blob) outcome" where
  "create_node_crt seed now st datacenter node implicit =
     (let priv = EdPrivate seed;
          subject = \<lparr>pn_organization = ssle_organization, pn_ou = [implicit, datacenter], pn_cn = node\<rparr>;
          template = \<lparr>crt_subject = subject, crt_issuer = subject, crt_dns_names = [], crt_ips = [],
            crt_not_before = now, crt_not_after = now + node_certificate_expiry,
            crt_key_usage = SignAndAgree, crt_ext_usage = [ClientAuth], crt_is_ca = False,
            crt_public = public_of priv, crt_signer = public_of priv\<rparr>
      in case create_certificate template (kp_leaf (st_agent_ca st)) (public_of priv)
                (kp_private (st_agent_ca st)) of
           Inl _ \<Rightarrow> Inl (Panic ''x509.CreateCertificate'')
         | Inr crt \<Rightarrow> Inr (CertPem crt, KeyPem priv))"

section \<open>Keys\<close>

definition slash_free :: "string \<Rightarrow> bool" where
  "slash_free s \<longleftrightarrow> CHR ''/'' \<notin> set s"

lemma key_path_split:
  "ps \<noteq> [] \<Longrightarrow> list_all slash_free ps \<Longrightarrow> split_on (CHR ''/'') (key_path ps) = ps"
  unfolding key_path_def slash_free_def by (rule split_join)

interpretation key_codec: codec "\<lambda>ps. ps \<noteq> [] \<and> list_all slash_free ps" key_path
  "\<lambda>k. Some (split_on (CHR ''/'') k)"
  by unfold_locales (simp add: key_path_split)

lemma node_key_inject [key_eqs]:
  "slash_free a \<Longrightarrow> slash_free b \<Longrightarrow> slash_free c \<Longrightarrow> slash_free d \<Longrightarrow>
   node_key a b = node_key c d \<longleftrightarrow> a = c \<and> b = d"
  using key_codec.enc_inject [of "[''nodes'', a, b]" "[''nodes'', c, d]"]
  by (auto simp: node_key_def slash_free_def)

lemma lease_key_inject [key_eqs]:
  "slash_free a \<Longrightarrow> slash_free b \<Longrightarrow> slash_free c \<Longrightarrow> slash_free d \<Longrightarrow>
   lease_key a b = lease_key c d \<longleftrightarrow> a = c \<and> b = d"
  using key_codec.enc_inject [of "[''node_lease'', a, b]" "[''node_lease'', c, d]"]
  by (auto simp: lease_key_def slash_free_def)

lemma key_path_two: "key_path (p # q # ps) = p @ CHR ''/'' # key_path (q # ps)"
  by (simp add: key_path_def)

lemma node_key_not_lease_key [key_eqs]: "node_key a b \<noteq> lease_key c d" "lease_key c d \<noteq> node_key a b"
  by (simp_all add: node_key_def lease_key_def key_path_two)

section \<open>Prefix queries\<close>

lemma prefix_end_snoc: "of_char c < (255 :: nat) \<Longrightarrow> prefix_end (q @ [c]) = q @ [byte_inc c]"
  by (simp add: prefix_end_def)

lemma length_prefix_end: "length (prefix_end p) = length p"
proof -
  have "length (inc_first_below xs) = length xs" for xs by (induction xs) auto
  then show ?thesis by (simp add: prefix_end_def)
qed

lemma in_prefix_range:
  assumes "p \<noteq> []" "of_char (last p) < (255 :: nat)"
  shows "in_key_range (prefix_request p n) k \<longleftrightarrow> prefix p k"
proof -
  obtain q c where p: "p = q @ [c]" using assms(1) by (metis rev_exhaust)
  with assms have c: "of_char c < (255 :: nat)" by simp
  have "of_char (byte_inc c) = (of_char c + 1 :: nat)" using c by (rule of_char_byte_inc)
  then have z: "byte_inc c \<noteq> CHR 0x00" by auto
  then have "prefix_end p \<noteq> [CHR 0x00]" "prefix_end p \<noteq> []"
    using c p by (auto simp: prefix_end_snoc append_eq_Cons_conv)
  then show ?thesis
    using snoc_interval_prefix [OF c, of q k] c p z
    by (simp add: in_key_range_def prefix_request_def prefix_end_snoc)
qed

section \<open>Lease identifiers in the store\<close>

lemma unmarshal_marshal_int64:
  assumes "- (2 ^ 63) \<le> i" "i < 2 ^ 63"
  shows "unmarshal_int64 (marshal_int64 i) = Some i"
proof -
  have "json_parse (marshal_int64 i) = Some (JNum (show_int i))"
    using json_parse_print [of "JNum (show_int i)"] by (auto simp: marshal_int64_def)
  then show ?thesis using assms int64_dec.dec_enc [of i] by (simp add: unmarshal_int64_def)
qed

lemma length_show_nat: "n < 10 ^ Suc k \<Longrightarrow> length (show_nat n) \<le> Suc k"
proof (induction n arbitrary: k rule: show_nat.induct)
  case (1 n)
  show ?case
  proof (cases "n < 10")
    case True
    then show ?thesis by (subst show_nat.simps) simp
  next
    case False
    with "1.prems" obtain j where k: "k = Suc j" by (cases k) auto
    with "1.prems" have "n div 10 < 10 ^ Suc j" by (simp add: less_mult_imp_div_less)
    with False "1.IH" have "length (show_nat (n div 10)) \<le> Suc j" by simp
    with False k show ?thesis by (subst show_nat.simps) simp
  qed
qed

lemma length_marshal_int64:
  assumes "- (2 ^ 63) \<le> i" "i < 2 ^ 63"
  shows "length (marshal_int64 i) \<le> 21"
proof -
  have "nat \<bar>i\<bar> < 10 ^ Suc 19" using assms by simp
  then have "length (show_nat (nat \<bar>i\<bar>)) \<le> Suc 19" by (rule length_show_nat)
  then show ?thesis by (auto simp: marshal_int64_def show_int_def)
qed

interpretation lease_codec: codec "\<lambda>i. - (2 ^ 63) \<le> i \<and> i < 2 ^ 63" marshal_int64 unmarshal_int64
  by unfold_locales (simp add: unmarshal_marshal_int64)

section \<open>What the helpers do to a store that keeps its contract\<close>

text \<open>The key of a node names a live lease after \<^verbatim>\<open>GetNodeLease\<close> and every other key is as before.\<close>

definition lease_stored :: "(string \<rightharpoonup> kv) \<Rightarrow> string \<Rightarrow> int \<Rightarrow> bool" where
  "lease_stored m key l \<longleftrightarrow> (\<exists>x. m key = Some x \<and> unmarshal_int64 (kv_value x) = Some l)"

text \<open>
  The abstract meaning of the lookups: the node that the keys hold, and the node that a caller is,
  for a caller who may act in the given role.
\<close>

definition stored_node :: "(string \<rightharpoonup> kv) \<Rightarrow> string \<Rightarrow> string \<Rightarrow> node_schema option outcome" where
  "stored_node m dc name =
     (case m (node_key dc name) of
        None \<Rightarrow> Inr None
      | Some x \<Rightarrow>
          (case unmarshal_node (kv_value x) of
             None \<Rightarrow> Inl (Failure ''json'')
           | Some node \<Rightarrow> Inr (Some node)))"

definition caller :: "(string \<rightharpoonup> kv) \<Rightarrow> rpc_peer option \<Rightarrow> string \<Rightarrow> node_schema outcome" where
  "caller m ctx role =
     (case extract_peer_certificate ctx of
        Inl _ \<Rightarrow> Inl (Panic ''nil pointer dereference'')
      | Inr c \<Rightarrow>
          if length (pn_ou (crt_subject c)) \<noteq> 2 then Inl auth_failure
          else (case stored_node m (pn_ou (crt_subject c) ! 0) (pn_cn (crt_subject c)) of
             Inr (Some node) \<Rightarrow> if pn_ou (crt_subject c) ! 1 = role then Inr node else Inl auth_failure
           | _ \<Rightarrow> Inl auth_failure))"

context etcd_store
begin

lemma get_node_schema_frame:
  assumes "wf e" "get_node_schema E dc name e = (res, e')"
  shows "wf e' \<and> kvs e' = kvs e \<and> leases e' = leases e"
proof -
  obtain r e1 where rg: "etcd_range E e \<lparr>rr_key = node_key dc name, rr_end = [], rr_limit = 1\<rparr> = (r, e1)"
    by fastforce
  with assms(2) have "e' = e1"
    by (auto simp: get_node_schema_def split: sum.splits list.splits option.splits)
  with range_frame [OF assms(1) rg] show ?thesis by simp
qed

lemma get_node_schema_result:
  assumes "wf e" "get_node_schema E dc name e = (Inr r, e')"
  shows "r = (case kvs e (node_key dc name) of None \<Rightarrow> None | Some x \<Rightarrow> unmarshal_node (kv_value x))"
    "\<forall>x. kvs e (node_key dc name) = Some x \<longrightarrow> unmarshal_node (kv_value x) \<noteq> None"
proof -
  from assms(2) obtain ks where
    rg: "etcd_range E e \<lparr>rr_key = node_key dc name, rr_end = [], rr_limit = 1\<rparr> = (Inr ks, e')"
    by (auto simp: get_node_schema_def split: prod.splits sum.splits list.splits option.splits)
  have r: "case ks of [] \<Rightarrow> r = None | x # _ \<Rightarrow> r \<noteq> None \<and> unmarshal_node (kv_value x) = r"
  proof (cases ks)
    case (Cons x xs)
    with rg assms(2) show ?thesis
      by (cases "unmarshal_node (kv_value x)") (auto simp: get_node_schema_def)
  qed (use rg assms(2) in \<open>simp add: get_node_schema_def\<close>)
  have ks: "ks = (case kvs e (node_key dc name) of None \<Rightarrow> [] | Some x \<Rightarrow> [x])"
    using lookup_result [OF assms(1) rg] by simp
  show "r = (case kvs e (node_key dc name) of None \<Rightarrow> None | Some x \<Rightarrow> unmarshal_node (kv_value x))"
    using r ks by (simp split: option.splits)
  show "\<forall>x. kvs e (node_key dc name) = Some x \<longrightarrow> unmarshal_node (kv_value x) \<noteq> None"
    using r ks by (auto split: option.splits)
qed

lemma authenticate_from_certificate_frame:
  "wf e \<Longrightarrow> authenticate_from_certificate E cert e = (res, e') \<Longrightarrow>
   wf e' \<and> kvs e' = kvs e \<and> leases e' = leases e"
  by (auto simp: authenticate_from_certificate_def dest: get_node_schema_frame
      split: prod.splits sum.splits option.splits)

lemma authenticate_node_frame:
  "wf e \<Longrightarrow> authenticate_node E ctx implicit e = (res, e') \<Longrightarrow>
   wf e' \<and> kvs e' = kvs e \<and> leases e' = leases e"
  by (auto simp: authenticate_node_def Let_def dest: authenticate_from_certificate_frame
      split: prod.splits sum.splits if_splits)

lemma authenticate_from_certificate_result:
  assumes "wf e" "authenticate_from_certificate E (Some c) e = (Inr (role, node), e')"
  obtains dc x where "pn_ou (crt_subject c) = [dc, role]"
    "kvs e (node_key dc (pn_cn (crt_subject c))) = Some x" "unmarshal_node (kv_value x) = Some node"
proof -
  from assms(2) obtain e1 where len: "length (pn_ou (crt_subject c)) = 2"
    and node: "get_node_schema E (pn_ou (crt_subject c) ! 0) (pn_cn (crt_subject c)) e = (Inr (Some node), e1)"
    and role: "role = pn_ou (crt_subject c) ! 1"
    by (auto simp: authenticate_from_certificate_def extract_peer_datacenter_node_def
        split: prod.splits sum.splits option.splits if_splits)
  from len role have "pn_ou (crt_subject c) = [pn_ou (crt_subject c) ! 0, role]"
    by (auto simp: numeral_2_eq_2 length_Suc_conv)
  moreover from get_node_schema_result(1) [OF assms(1) node]
  obtain x where "kvs e (node_key (pn_ou (crt_subject c) ! 0) (pn_cn (crt_subject c))) = Some x"
    "unmarshal_node (kv_value x) = Some node"
    by (auto split: option.splits)
  ultimately show thesis by (rule that)
qed

lemma authenticate_node_result:
  assumes "wf e" "authenticate_node E ctx implicit e = (Inr node, e')"
  obtains c dc x where "extract_peer_certificate ctx = Inr c" "pn_ou (crt_subject c) = [dc, implicit]"
    "kvs e (node_key dc (pn_cn (crt_subject c))) = Some x" "unmarshal_node (kv_value x) = Some node"
proof -
  from assms(2) obtain c e1 where c: "extract_peer_certificate ctx = Inr c"
    "authenticate_from_certificate E (Some c) e = (Inr (implicit, node), e1)"
    by (auto simp: authenticate_node_def authenticate_from_certificate_def Let_def
        split: prod.splits sum.splits option.splits if_splits)
  show thesis
    by (rule authenticate_from_certificate_result [OF assms(1) c(2)]) (rule that [OF c(1)])
qed

lemma renew_stored_frame:
  "wf e \<Longrightarrow> renew_stored E ks e = (r, e') \<Longrightarrow> wf e' \<and> kvs e' = kvs e \<and> leases e' = leases e"
  by (auto simp: renew_stored_def dest: renew_frame split: list.splits option.splits prod.splits sum.splits)

lemma renew_stored_Some:
  assumes "wf e" "renew_stored E ks e = (Some l, e')"
  shows "l \<in> leases e \<and> (\<exists>x r. ks = x # r \<and> unmarshal_int64 (kv_value x) = Some l)"
  using assms by (auto simp: renew_stored_def dest: renew_result
      split: list.splits option.splits prod.splits sum.splits)

lemma lease_rounds_result:
  assumes "wf e" "lease_rounds n E key e = (Inr l, e')"
  shows "wf e' \<and> l \<in> leases e' \<and> l \<noteq> 0 \<and> leases e \<subseteq> leases e' \<and> lease_stored (kvs e') key l
    \<and> (\<forall>k. k \<noteq> key \<longrightarrow> kvs e' k = kvs e k)"
  using assms
proof (induction n arbitrary: e)
  case (Suc n)
  have offered: "wf e2" "kvs e2 = kvs e" "leases e2 = leases e"
    if "etcd_range E e \<lparr>rr_key = key, rr_end = [], rr_limit = 0\<rparr> = (Inr ks, e1)" "renew_stored E ks e1 = (m, e2)" for ks e1 m e2
    using range_frame [OF Suc.prems(1) that(1)] renew_stored_frame [OF _ that(2)] by auto
  from Suc.prems(2) show ?case
  proof (cases rule: lease_rounds_cases)
    case (Renewed m ks e1 l2)
    have "ks = (case kvs e key of None \<Rightarrow> [] | Some x \<Rightarrow> [x])" using lookup_result [OF Suc.prems(1) Renewed(2)] by simp
    moreover have "l \<in> leases e" "\<exists>x r. ks = x # r \<and> unmarshal_int64 (kv_value x) = Some l"
      using renew_stored_Some [OF _ Renewed(3)] range_frame [OF Suc.prems(1) Renewed(2)] Renewed(4) by auto
    moreover from this have "l \<noteq> 0" using lease_nonzero [OF Suc.prems(1)] by auto
    ultimately show ?thesis using offered [OF Renewed(2,3)] by (auto simp: lease_stored_def split: option.splits)
  next
    case (Stored m ks e1 e2 l3 e3)
    note g = grant_result [OF offered(1) [OF Stored(2,3)] Stored(4)]
    obtain rv where "kvs e' = fold (apply_op rv) (txn_success (lease_txn key ks l3)) (kvs e3)"
      using txn_effect [OF _ Stored(5)] g by auto
    moreover have "wf e'" "leases e' = leases e3" using txn_frame [OF _ Stored(5)] g by auto
    ultimately show ?thesis
      using g Stored(6) offered [OF Stored(2,3)]
      by (auto simp: lease_txn_def lease_stored_def put_entry_def unmarshal_marshal_int64 split: option.splits)
  next
    case (Overtaken m ks e1 e2 l3 e3 e4)
    note g = grant_result [OF offered(1) [OF Overtaken(2,3)] Overtaken(4)]
    have "kvs e4 = kvs e3" using txn_effect [OF _ Overtaken(5)] g by auto
    moreover have "wf e4" "leases e4 = leases e3" using txn_frame [OF _ Overtaken(5)] g by auto
    ultimately show ?thesis using Suc.IH [of e4] Overtaken(1,6) g offered [OF Overtaken(2,3)] by auto
  qed simp_all
qed simp

lemma get_node_lease_result:
  assumes "wf e" "get_node_lease E dc name e = (Inr l, e')"
  shows "wf e'" "l \<in> leases e'" "l \<noteq> 0" "leases e \<subseteq> leases e'"
    "lease_stored (kvs e') (lease_key dc name) l" "k \<noteq> lease_key dc name \<Longrightarrow> kvs e' k = kvs e k"
  using lease_rounds_result [OF assms(1), of 5 "lease_key dc name" l e'] assms(2)
  by (auto simp: get_node_lease_def)

end

context etcd_live
begin

lemma lease_rounds_total:
  assumes "wf e" "card (leases e) < 2 ^ 62" "length key < 2 ^ 17"
  shows "\<exists>l e'. lease_rounds (Suc n) E key e = (Inr l, e')"
proof -
  let ?ks = "case kvs e key of None \<Rightarrow> [] | Some x \<Rightarrow> [x]"
  obtain e1 where rg: "etcd_range E e \<lparr>rr_key = key, rr_end = [], rr_limit = 0\<rparr> = (Inr ?ks, e1)"
    and e1: "wf e1" "kvs e1 = kvs e" "leases e1 = leases e"
    by (rule lookup_total [OF assms(1), of 0 key]) auto
  obtain m e2 where rn: "renew_stored E ?ks e1 = (m, e2)" by fastforce
  then have e2: "wf e2" "kvs e2 = kvs e" "leases e2 = leases e"
    using renew_stored_frame [OF e1(1)] e1 by auto
  show ?thesis
  proof (cases m)
    case (Some l)
    with rg rn show ?thesis by auto
  next
    case None
    obtain l e3 where gr: "etcd_lease_grant E e2 (uint node_keepalive_ttl) = (Inr l, e3)"
      using grant_returns [OF e2(1)] assms(2) e2 by metis
    have e3: "wf e3" "kvs e3 = kvs e" using grant_result [OF e2(1) gr] e2 by auto
    have l: "- (2 ^ 63) \<le> l" "l < 2 ^ 63" using grant_result [OF e2(1) gr] by auto
    have "txn_size (lease_txn key ?ks l) < 2 ^ 20"
      using assms(3) length_marshal_int64 [OF l]
      by (simp add: lease_txn_def txn_size_def split: option.splits)
    then obtain b e4 where tx: "etcd_txn E e3 (lease_txn key ?ks l) = (Inr b, e4)"
      using txn_returns [OF e3(1), of "lease_txn key ?ks l"] by (auto simp: lease_txn_def)
    have "b" using txn_result [OF e3(1) tx] e3
      by (auto simp: lease_txn_def compare_holds_def split: option.splits)
    with rg rn None gr tx show ?thesis by auto
  qed
qed

lemma get_node_lease_total:
  assumes "wf e" "card (leases e) < 2 ^ 62" "length (lease_key dc name) < 2 ^ 17"
  obtains l e' where "get_node_lease E dc name e = (Inr l, e')"
  using lease_rounds_total [OF assms, of 4]
  by (auto simp: get_node_lease_def eval_nat_numeral)

text \<open>A second call finds the lease of the first.\<close>

lemma get_node_lease_again:
  assumes "wf e" "l \<in> leases e" "lease_stored (kvs e) (lease_key dc name) l"
  obtains e' where "get_node_lease E dc name e = (Inr l, e')" "kvs e' = kvs e" "leases e' = leases e"
proof -
  obtain x where x: "kvs e (lease_key dc name) = Some x" "unmarshal_int64 (kv_value x) = Some l"
    using assms(3) by (auto simp: lease_stored_def)
  obtain e1 where rg: "etcd_range E e \<lparr>rr_key = lease_key dc name, rr_end = [], rr_limit = 0\<rparr> = (Inr [x], e1)"
    and e1: "wf e1" "kvs e1 = kvs e" "leases e1 = leases e"
    by (rule lookup_total [OF assms(1), of 0 "lease_key dc name"]) (use x(1) in auto)
  obtain ttl e2 where rn: "etcd_lease_renew E e1 l = (Inr ttl, e2)"
    using renew_returns [OF e1(1)] assms(2) e1(3) by metis
  have "get_node_lease E dc name e = (Inr l, e2)"
    using rg rn x(2) by (simp add: get_node_lease_def eval_nat_numeral renew_stored_def)
  then show thesis using renew_frame [OF e1(1) rn] e1 by (intro that [of e2]) simp_all
qed

text \<open>What the two lookups answer, as functions of the keys alone.\<close>

lemma get_node_schema_total:
  assumes "wf e"
  obtains e' where "get_node_schema E dc name e = (stored_node (kvs e) dc name, e')"
    "wf e'" "kvs e' = kvs e" "leases e' = leases e"
proof -
  obtain e' where rg: "etcd_range E e \<lparr>rr_key = node_key dc name, rr_end = [], rr_limit = 1\<rparr> =
      (Inr (case kvs e (node_key dc name) of None \<Rightarrow> [] | Some x \<Rightarrow> [x]), e')"
    and e': "wf e'" "kvs e' = kvs e" "leases e' = leases e"
    by (rule lookup_total [OF assms, of 1 "node_key dc name"]) auto
  have "get_node_schema E dc name e = (stored_node (kvs e) dc name, e')"
    using rg by (simp add: get_node_schema_def stored_node_def split: option.splits)
  then show thesis using e' by (rule that)
qed

lemma authenticate_node_total:
  assumes "wf e"
  obtains e' where "authenticate_node E ctx implicit e = (caller (kvs e) ctx implicit, e')"
    "wf e'" "kvs e' = kvs e" "leases e' = leases e"
proof (cases "extract_peer_certificate ctx")
  case (Inl err)
  then show thesis
    using that [of e] assms
    by (simp add: authenticate_node_def authenticate_from_certificate_def caller_def)
next
  case (Inr c)
  show thesis
  proof (cases "length (pn_ou (crt_subject c)) = 2")
    case True
    obtain e' where "get_node_schema E (pn_ou (crt_subject c) ! 0) (pn_cn (crt_subject c)) e =
        (stored_node (kvs e) (pn_ou (crt_subject c) ! 0) (pn_cn (crt_subject c)), e')"
      and e': "wf e'" "kvs e' = kvs e" "leases e' = leases e"
      by (rule get_node_schema_total [OF assms])
    with Inr True have "authenticate_node E ctx implicit e = (caller (kvs e) ctx implicit, e')"
      by (auto simp: authenticate_node_def authenticate_from_certificate_def
          extract_peer_datacenter_node_def caller_def split: sum.splits option.splits)
    then show thesis using e' by (rule that)
  next
    case False
    with Inr show thesis
      using that [of e] assms
      by (simp add: authenticate_node_def authenticate_from_certificate_def
          extract_peer_datacenter_node_def caller_def)
  qed
qed

end

end
