(* ===== verification/EtcdStore.thy ===== *)
theory EtcdStore
  imports Etcd
begin

text \<open>
  An executable key-value store with revisions and leases that meets the contract of theory
  Etcd: an association list in key order. It shows that the contract can be met, and it is the
  server at which the witnesses of the handler properties are evaluated.
\<close>

record store =
  st_rev :: int
  st_entries :: "(string \<times> kv) list"
  st_leases :: "int list"
  st_members :: "member list"

fun upd_sorted :: "string \<Rightarrow> kv \<Rightarrow> (string \<times> kv) list \<Rightarrow> (string \<times> kv) list" where
  "upd_sorted k v [] = [(k, v)]"
| "upd_sorted k v ((a, b) # ps) =
     (if k < a then (k, v) # (a, b) # ps else if k = a then (k, v) # ps else (a, b) # upd_sorted k v ps)"

definition del_entry :: "string \<Rightarrow> (string \<times> kv) list \<Rightarrow> (string \<times> kv) list" where
  "del_entry k ps = filter (\<lambda>p. fst p \<noteq> k) ps"

fun store_op :: "int \<Rightarrow> request_op \<Rightarrow> (string \<times> kv) list \<Rightarrow> (string \<times> kv) list" where
  "store_op rv (PutOp k v l) ps = upd_sorted k (put_entry rv k v l (map_of ps k)) ps"
| "store_op rv (DeleteOp k) ps = del_entry k ps"

definition store_range :: "store \<Rightarrow> range_request \<Rightarrow> kv list outcome \<times> store" where
  "store_range s r =
     (Inr (limit_to (rr_limit r) (map snd (filter (\<lambda>p. in_key_range r (fst p)) (st_entries s)))), s)"

definition store_txn :: "store \<Rightarrow> txn_request \<Rightarrow> bool outcome \<times> store" where
  "store_txn s t =
     (if list_all (\<lambda>op. op_lease op = 0 \<or> op_lease op \<in> set (st_leases s)) (txn_success t) then
        (if list_all (compare_holds (map_of (st_entries s))) (txn_compare t) then
           (Inr True, s\<lparr>st_rev := st_rev s + 1,
              st_entries := fold (store_op (st_rev s + 1)) (txn_success t) (st_entries s)\<rparr>)
         else (Inr False, s))
      else (Inl err_lease_not_found, s))"

definition store_put :: "store \<Rightarrow> string \<Rightarrow> string \<Rightarrow> unit outcome \<times> store" where
  "store_put s k v =
     (Inr (), s\<lparr>st_rev := st_rev s + 1,
        st_entries := store_op (st_rev s + 1) (PutOp k v 0) (st_entries s)\<rparr>)"

text \<open>The least positive identifier that is not in use.\<close>

definition fresh_lease :: "int list \<Rightarrow> int" where
  "fresh_lease ls = (case find (\<lambda>i. i \<notin> set ls) [1..int (length ls) + 1] of None \<Rightarrow> 0 | Some i \<Rightarrow> i)"

definition store_grant :: "store \<Rightarrow> int \<Rightarrow> int outcome \<times> store" where
  "store_grant s ttl =
     (let l = fresh_lease (st_leases s) in
      if l < 2 ^ 63 then (Inr l, s\<lparr>st_leases := l # st_leases s\<rparr>)
      else (Inl (Failure ''too many leases''), s))"

definition store_renew :: "store \<Rightarrow> int \<Rightarrow> int outcome \<times> store" where
  "store_renew s l = (if l \<in> set (st_leases s) then (Inr 30, s) else (Inl err_lease_not_found, s))"

definition store_revoke :: "store \<Rightarrow> int \<Rightarrow> unit outcome \<times> store" where
  "store_revoke s l =
     (if l \<in> set (st_leases s) then
        (Inr (), s\<lparr>st_leases := filter (\<lambda>x. x \<noteq> l) (st_leases s),
           st_entries := filter (\<lambda>p. kv_lease (snd p) \<noteq> l) (st_entries s)\<rparr>)
      else (Inl err_lease_not_found, s))"

definition store_add_member :: "store \<Rightarrow> string \<Rightarrow> string list \<Rightarrow> unit outcome \<times> store" where
  "store_add_member s n urls =
     (Inr (), s\<lparr>st_members := st_members s @
        [\<lparr>mem_id = of_nat (length (st_members s) + 1), mem_name = n, mem_peer_urls = urls, mem_client_urls = []\<rparr>]\<rparr>)"

definition store_update_member :: "store \<Rightarrow> member \<Rightarrow> unit outcome \<times> store" where
  "store_update_member s m =
     (Inr (), s\<lparr>st_members := map (\<lambda>x. if mem_id x = mem_id m then m else x) (st_members s)\<rparr>)"

definition store_etcd :: "store etcd" where
  "store_etcd = \<lparr>etcd_range = store_range, etcd_txn = store_txn, etcd_put = store_put,
     etcd_lease_grant = store_grant, etcd_lease_renew = store_renew,
     etcd_lease_revoke = store_revoke, etcd_members = st_members,
     etcd_add_member = store_add_member, etcd_update_member = store_update_member,
     etcd_member_id = (\<lambda>s. 1)\<rparr>"

definition store_kvs :: "store \<Rightarrow> string \<rightharpoonup> kv" where
  "store_kvs s = map_of (st_entries s)"

definition store_leases :: "store \<Rightarrow> int set" where
  "store_leases s = set (st_leases s)"

definition keys_sorted :: "(string \<times> kv) list \<Rightarrow> bool" where
  "keys_sorted ps = sorted_wrt (<) (map fst ps)"

definition entries_ok :: "int set \<Rightarrow> (string \<times> kv) list \<Rightarrow> bool" where
  "entries_ok ls ps \<longleftrightarrow> (\<forall>p \<in> set ps. entry_ok ls (fst p) (snd p))"

definition store_wf :: "store \<Rightarrow> bool" where
  "store_wf s \<longleftrightarrow> keys_sorted (st_entries s) \<and> 0 \<le> st_rev s \<and> distinct (st_leases s)
     \<and> entries_ok (set (st_leases s)) (st_entries s)
     \<and> 0 \<notin> set (st_leases s)"

definition empty_store :: store where
  "empty_store = \<lparr>st_rev = 0, st_entries = [], st_leases = [], st_members = []\<rparr>"

section \<open>The store meets the contract\<close>

lemma set_upd_sorted: "fst ` set (upd_sorted k v ps) = insert k (fst ` set ps)"
  by (induction k v ps rule: upd_sorted.induct) auto

lemma keys_sorted_upd: "keys_sorted ps \<Longrightarrow> keys_sorted (upd_sorted k v ps)"
  unfolding keys_sorted_def
proof (induction k v ps rule: upd_sorted.induct)
  case (2 k v a b ps)
  have "\<forall>x \<in> fst ` set (upd_sorted k v ps). a < x" if "a < k"
    using 2 that unfolding set_upd_sorted by auto
  with 2 show ?case by (auto simp: not_less order.order_iff_strict)
qed simp

lemma keys_sorted_filter: "keys_sorted ps \<Longrightarrow> keys_sorted (filter P ps)"
  unfolding keys_sorted_def by (induction ps) auto

lemma keys_sorted_del: "keys_sorted ps \<Longrightarrow> keys_sorted (del_entry k ps)"
  by (simp add: del_entry_def keys_sorted_filter)

lemma map_of_upd_sorted: "keys_sorted ps \<Longrightarrow> map_of (upd_sorted k v ps) = (map_of ps)(k \<mapsto> v)"
  unfolding keys_sorted_def
  by (induction k v ps rule: upd_sorted.induct) (auto simp: fun_eq_iff)

lemma map_of_del_entry: "map_of (del_entry k ps) = (map_of ps)(k := None)"
  by (induction ps) (auto simp: del_entry_def fun_eq_iff)

lemma map_of_sorted_iff: "keys_sorted ps \<Longrightarrow> map_of ps k = Some v \<longleftrightarrow> (k, v) \<in> set ps"
  unfolding keys_sorted_def
  by (meson map_of_eq_Some_iff strict_sorted_iff)

lemma store_op_refines:
  "keys_sorted ps \<Longrightarrow> keys_sorted (store_op rv op ps) \<and> map_of (store_op rv op ps) = apply_op rv op (map_of ps)"
  by (cases op) (auto simp: keys_sorted_upd map_of_upd_sorted map_of_del_entry keys_sorted_del)

lemma fold_store_op:
  "keys_sorted ps \<Longrightarrow>
   keys_sorted (fold (store_op rv) ops ps) \<and> map_of (fold (store_op rv) ops ps) = fold (apply_op rv) ops (map_of ps)"
  by (induction ops arbitrary: ps) (auto simp: store_op_refines)

lemma apply_op_entries:
  assumes "\<forall>k e. m k = Some e \<longrightarrow> entry_ok ls k e" "op_lease op = 0 \<or> op_lease op \<in> ls" "0 < rv"
  shows "\<forall>k e. apply_op rv op m k = Some e \<longrightarrow> entry_ok ls k e"
  using assms by (cases op) (auto simp: put_entry_def entry_ok_def intro: less_imp_le split: option.splits)

lemma fold_apply_op_entries:
  assumes "\<forall>k e. m k = Some e \<longrightarrow> entry_ok ls k e" "\<forall>op \<in> set ops. op_lease op = 0 \<or> op_lease op \<in> ls" "0 < rv"
  shows "\<forall>k e. fold (apply_op rv) ops m k = Some e \<longrightarrow> entry_ok ls k e"
  using assms(1,2)
proof (induction ops arbitrary: m)
  case (Cons op ops)
  have "\<forall>k e. apply_op rv op m k = Some e \<longrightarrow> entry_ok ls k e"
    using Cons.prems assms(3) by (intro apply_op_entries) auto
  with Cons show ?case by simp
qed simp

lemma store_wf_entries:
  "store_wf s \<Longrightarrow> \<forall>k e. map_of (st_entries s) k = Some e \<longrightarrow> entry_ok (set (st_leases s)) k e"
  by (fastforce simp: store_wf_def entries_ok_def dest: map_of_SomeD)

lemma entries_from_map:
  assumes "keys_sorted ps" "\<forall>k e. map_of ps k = Some e \<longrightarrow> entry_ok ls k e"
  shows "entries_ok ls ps"
  using assms by (auto simp: map_of_sorted_iff entries_ok_def)

lemma store_txn_wf:
  assumes "store_wf s" "store_txn s t = (Inr b, s')"
  shows "store_wf s'"
proof -
  let ?ops = "txn_success t"
  have s: "keys_sorted (st_entries s)" "0 \<le> st_rev s" using assms by (auto simp: store_wf_def)
  have "keys_sorted (fold (store_op (st_rev s + 1)) ?ops (st_entries s))"
    "map_of (fold (store_op (st_rev s + 1)) ?ops (st_entries s)) = fold (apply_op (st_rev s + 1)) ?ops (map_of (st_entries s))"
    using fold_store_op [OF s(1)] by auto
  moreover have "\<forall>k e. fold (apply_op (st_rev s + 1)) ?ops (map_of (st_entries s)) k = Some e \<longrightarrow> entry_ok (set (st_leases s)) k e"
    if "list_all (\<lambda>op. op_lease op = 0 \<or> op_lease op \<in> set (st_leases s)) ?ops"
    using that store_wf_entries [OF assms(1)] s by (intro fold_apply_op_entries) (auto simp: list_all_iff)
  ultimately have "entries_ok (set (st_leases s)) (fold (store_op (st_rev s + 1)) ?ops (st_entries s))"
    if "list_all (\<lambda>op. op_lease op = 0 \<or> op_lease op \<in> set (st_leases s)) ?ops"
    using that by (intro entries_from_map) auto
  with assms fold_store_op [OF s(1)] show ?thesis
    by (auto simp: store_txn_def store_wf_def split: if_splits)
qed

lemma store_range_kvs:
  assumes "store_wf s"
  shows "limit_to (rr_limit r) (map snd (filter (\<lambda>p. in_key_range r (fst p)) (st_entries s))) = range_kvs (store_kvs s) r"
proof -
  let ?ps = "st_entries s" and ?P = "in_key_range r"
  have ks: "sorted_wrt (<) (map fst ?ps)" using assms by (simp add: store_wf_def keys_sorted_def)
  have "sorted_list_of_set {k \<in> dom (map_of ?ps). ?P k} = filter ?P (map fst ?ps)"
  proof -
    have "{k \<in> dom (map_of ?ps). ?P k} = set (filter ?P (map fst ?ps))"
      by (auto simp: dom_map_of_conv_image_fst)
    moreover have "sorted_wrt (<) (filter ?P (map fst ?ps))" using ks by (rule sorted_wrt_filter)
    ultimately show ?thesis
      by (metis sorted_list_of_set.idem_if_sorted_distinct strict_sorted_iff)
  qed
  moreover have "map (\<lambda>k. the (map_of ?ps k)) (filter ?P (map fst ?ps)) = map snd (filter (\<lambda>p. ?P (fst p)) ?ps)"
    using ks by (auto simp: filter_map comp_def strict_sorted_iff intro!: map_cong)
  ultimately show ?thesis by (simp add: range_kvs_def store_kvs_def)
qed

lemmas store_ops = store_etcd_def store_range_def store_grant_def store_renew_def store_revoke_def

lemma entry_ok_mono: "entry_ok ls k e \<Longrightarrow> ls \<subseteq> ls' \<Longrightarrow> entry_ok ls' k e"
  by (auto simp: entry_ok_def)

lemma entries_ok_insert: "entries_ok ls ps \<Longrightarrow> entries_ok (insert l ls) ps"
  by (fastforce simp: entries_ok_def intro: entry_ok_mono)

lemma entries_ok_drop: "entries_ok ls ps \<Longrightarrow> entries_ok (ls - {l}) (filter (\<lambda>p. kv_lease (snd p) \<noteq> l) ps)"
  by (auto simp: entries_ok_def entry_ok_def)

lemma fresh_lease:
  "fresh_lease ls \<notin> set ls" "0 < fresh_lease ls" "fresh_lease ls \<le> int (length ls) + 1"
proof -
  let ?is = "[1..int (length ls) + 1]"
  have "find (\<lambda>i. i \<notin> set ls) ?is \<noteq> None"
  proof
    assume "find (\<lambda>i. i \<notin> set ls) ?is = None"
    then have "set ?is \<subseteq> set ls" by (auto simp: find_None_iff)
    then have "card (set ?is) \<le> card (set ls)" by (intro card_mono) auto
    also have "\<dots> \<le> length ls" by (rule card_length)
    finally show False by simp
  qed
  then obtain i where i: "find (\<lambda>i. i \<notin> set ls) ?is = Some i" by auto
  then have "i \<notin> set ls" "i \<in> set ?is" by (auto simp: find_Some_iff in_set_conv_nth)
  with i show "fresh_lease ls \<notin> set ls" "0 < fresh_lease ls" "fresh_lease ls \<le> int (length ls) + 1"
    by (simp_all add: fresh_lease_def)
qed

lemma store_grant_wf: "store_wf s \<Longrightarrow> store_wf (snd (store_grant s ttl))"
  using fresh_lease [of "st_leases s"]
  by (auto simp: store_wf_def store_grant_def Let_def entries_ok_insert)

lemma store_revoke_wf: "store_wf s \<Longrightarrow> store_wf (snd (store_revoke s l))"
  by (auto simp: store_wf_def store_revoke_def keys_sorted_filter set_diff_eq
      dest: entries_ok_drop [where l = l])

lemma store_revoke_kvs:
  assumes "store_wf s"
  shows "map_of (filter (\<lambda>p. kv_lease (snd p) \<noteq> l) (st_entries s)) = drop_lease l (store_kvs s)"
proof
  fix k
  have s: "keys_sorted (st_entries s)" using assms by (simp add: store_wf_def)
  note f = keys_sorted_filter [OF s, of "\<lambda>p. kv_lease (snd p) \<noteq> l"]
  show "map_of (filter (\<lambda>p. kv_lease (snd p) \<noteq> l) (st_entries s)) k = drop_lease l (store_kvs s) k"
  proof (cases "map_of (filter (\<lambda>p. kv_lease (snd p) \<noteq> l) (st_entries s)) k")
    case None
    then have "\<forall>v. (k, v) \<in> set (st_entries s) \<longrightarrow> kv_lease v = l"
      using map_of_sorted_iff [OF f, of k] by auto
    then show ?thesis
      using None map_of_sorted_iff [OF s, of k] by (auto simp: drop_lease_def store_kvs_def split: option.splits)
  next
    case (Some v)
    then have "(k, v) \<in> set (st_entries s)" "kv_lease v \<noteq> l"
      using map_of_sorted_iff [OF f, of k v] by auto
    then show ?thesis
      using Some map_of_sorted_iff [OF s, of k v] by (simp add: drop_lease_def store_kvs_def)
  qed
qed

lemma store_txn_effect:
  assumes "store_wf s" "store_txn s t = (Inr b, s')"
  shows "\<exists>rv > 0. store_kvs s' = (if b then fold (apply_op rv) (txn_success t) (store_kvs s) else store_kvs s)"
proof -
  have s: "keys_sorted (st_entries s)" "0 < st_rev s + 1" using assms by (auto simp: store_wf_def)
  then show ?thesis
    using assms(2) fold_store_op [OF s(1), of "st_rev s + 1"]
    by (intro exI [of _ "st_rev s + 1"]) (auto simp: store_txn_def store_kvs_def split: if_splits)
qed

lemma store_put_txn: "store_put s k v = (Inr (), snd (store_txn s \<lparr>txn_compare = [], txn_success = [PutOp k v 0]\<rparr>))"
  by (simp add: store_put_def store_txn_def)

lemma store_put_effect:
  assumes "store_wf s" "store_put s k v = (Inr (), s')"
  shows "store_wf s' \<and> store_leases s' = store_leases s
    \<and> (\<exists>rv > 0. store_kvs s' = (store_kvs s)(k \<mapsto> put_entry rv k v 0 (store_kvs s k)))"
proof -
  let ?t = "\<lparr>txn_compare = [], txn_success = [PutOp k v 0]\<rparr>"
  have tx: "store_txn s ?t = (Inr True, s')" using assms(2) by (simp add: store_put_def store_txn_def)
  from store_txn_wf [OF assms(1) tx] store_txn_effect [OF assms(1) tx] assms(2) show ?thesis
    by (auto simp: store_put_def store_leases_def)
qed

lemma store_grant_returns:
  assumes "store_wf s" "card (store_leases s) < 2 ^ 62"
  shows "\<exists>l s'. etcd_lease_grant store_etcd s ttl = (Inr l, s')"
proof -
  have "length (st_leases s) < 2 ^ 62" using assms by (simp add: store_wf_def store_leases_def distinct_card)
  then have "int (length (st_leases s)) < 2 ^ 62" by simp
  then have "fresh_lease (st_leases s) < 2 ^ 63" using fresh_lease(3) [of "st_leases s"] by simp
  then show ?thesis by (simp add: store_etcd_def store_grant_def Let_def)
qed

interpretation etcd_ref: etcd_live store_etcd store_wf store_kvs store_leases
proof unfold_locales
  show "finite (dom (store_kvs e))" for e by (simp add: store_kvs_def finite_dom_map_of)
  show "entry_ok (store_leases e) k x" if "store_wf e" "store_kvs e k = Some x" for e k x
    using store_wf_entries [OF that(1)] that(2) by (simp add: store_kvs_def store_leases_def)
  show "store_wf e' \<and> store_kvs e' = store_kvs e \<and> store_leases e' = store_leases e"
    if "store_wf e" "etcd_range store_etcd e r = (res, e')" for e r res e'
    using that by (simp add: store_ops)
  show "ks = range_kvs (store_kvs e) r"
    if "store_wf e" "etcd_range store_etcd e r = (Inr ks, e')" for e r ks e'
    using that store_range_kvs [OF that(1), of r] by (auto simp: store_ops)
  show "store_wf e' \<and> store_leases e' = store_leases e"
    if "store_wf e" "etcd_txn store_etcd e t = (Inr b, e')" for e t b e'
    using that store_txn_wf [OF that(1), of t b e']
    by (auto simp: store_etcd_def store_txn_def store_leases_def split: if_splits)
  show "b = list_all (compare_holds (store_kvs e)) (txn_compare t)"
    if "store_wf e" "etcd_txn store_etcd e t = (Inr b, e')" for e t b e'
    using that by (auto simp: store_etcd_def store_txn_def store_kvs_def split: if_splits)
  show "\<exists>rv > 0. store_kvs e' = (if b then fold (apply_op rv) (txn_success t) (store_kvs e) else store_kvs e)"
    if "store_wf e" "etcd_txn store_etcd e t = (Inr b, e')" for e t b e'
    using that store_txn_effect [OF that(1), of t b e'] by (simp add: store_etcd_def)
  show "store_wf e' \<and> store_leases e' = store_leases e
      \<and> (\<exists>rv > 0. store_kvs e' = (store_kvs e)(k \<mapsto> put_entry rv k v 0 (store_kvs e k)))"
    if "store_wf e" "etcd_put store_etcd e k v = (Inr (), e')" for e k v e'
    using that store_put_effect [OF that(1), of k v e'] by (simp add: store_etcd_def)
  show "store_wf e' \<and> store_kvs e' = store_kvs e \<and> store_leases e' = store_leases e"
    if "store_wf e" "etcd_update_member store_etcd e m = (updated, e')" for e m updated e'
    using that by (auto simp: store_etcd_def store_update_member_def store_wf_def store_kvs_def store_leases_def)
  show "store_wf e' \<and> store_kvs e' = store_kvs e \<and> l \<noteq> 0 \<and> l \<notin> store_leases e \<and> store_leases e' = insert l (store_leases e)
      \<and> - (2 ^ 63) \<le> l \<and> l < 2 ^ 63"
    if "store_wf e" "etcd_lease_grant store_etcd e ttl = (Inr l, e')" for e ttl l e'
    using that store_grant_wf [OF that(1), of ttl] fresh_lease [of "st_leases e"]
    by (auto simp: store_etcd_def store_grant_def store_kvs_def store_leases_def Let_def split: if_splits)
  show "store_wf e' \<and> store_kvs e' = store_kvs e \<and> store_leases e' = store_leases e"
    if "store_wf e" "etcd_lease_renew store_etcd e l = (res, e')" for e l res e'
    using that by (auto simp: store_ops split: if_splits)
  show "l \<in> store_leases e" if "store_wf e" "etcd_lease_renew store_etcd e l = (Inr ttl, e')" for e l ttl e'
    using that by (auto simp: store_ops store_leases_def split: if_splits)
  show "store_wf e' \<and> l \<in> store_leases e \<and> store_leases e' = store_leases e - {l} \<and> store_kvs e' = drop_lease l (store_kvs e)"
    if "store_wf e" "etcd_lease_revoke store_etcd e l = (Inr (), e')" for e l e'
    using that store_revoke_wf [OF that(1), of l] store_revoke_kvs [OF that(1), of l]
    by (auto simp: store_etcd_def store_revoke_def store_kvs_def store_leases_def split: if_splits)
  show "store_wf e' \<and> l \<notin> store_leases e \<and> store_leases e' = store_leases e \<and> store_kvs e' = store_kvs e"
    if "store_wf e" "etcd_lease_revoke store_etcd e l = (Inl err_lease_not_found, e')" for e l e'
    using that by (auto simp: store_ops store_leases_def split: if_splits)
  show "\<exists>l e'. etcd_lease_grant store_etcd e ttl = (Inr l, e')"
    if "store_wf e" "card (store_leases e) < 2 ^ 62" for e ttl
    using that by (rule store_grant_returns)
qed (auto simp: store_etcd_def store_range_def store_put_def store_txn_def store_renew_def
    store_revoke_def store_leases_def list_all_iff store_wf_def)

interpretation etcd_ref_atomic: etcd_atomic store_etcd store_wf store_kvs store_leases
  by unfold_locales (auto simp: store_etcd_def store_txn_def store_put_def store_grant_def store_revoke_def
      store_add_member_def store_wf_def store_kvs_def store_leases_def Let_def split: if_splits)

lemma empty_store_wf: "store_wf empty_store"
  by (simp add: store_wf_def empty_store_def keys_sorted_def entries_ok_def)

end
