(* ===== verification/Sample.thy ===== *)
theory Sample
  imports RegUtils EtcdStore
begin

text \<open>
  A small cluster at which the handler properties are instantiated: the reference store of theory
  EtcdStore with one agent and one observer of datacenter dc1, and the callers they are.
\<close>

definition sample_node :: node_schema where
  "sample_node = \<lparr>ns_name = ''n1'', ns_datacenter = ''dc1'', ns_location = ''eu'', ns_type = ''Agents''\<rparr>"

definition sample_observer :: node_schema where
  "sample_observer = \<lparr>ns_name = ''p1'', ns_datacenter = ''dc1'', ns_location = ''eu'', ns_type = ''Observers''\<rparr>"

definition sample_cert :: "string \<Rightarrow> string \<Rightarrow> int \<Rightarrow> certificate" where
  "sample_cert name role expiry =
     \<lparr>crt_subject = \<lparr>pn_organization = [], pn_ou = [''dc1'', role], pn_cn = name\<rparr>,
      crt_issuer = \<lparr>pn_organization = [], pn_ou = [], pn_cn = ''ca''\<rparr>, crt_dns_names = [], crt_ips = [],
      crt_not_before = 0, crt_not_after = expiry, crt_key_usage = SignAndAgree,
      crt_ext_usage = [ClientAuth], crt_is_ca = False, crt_public = EdPublic ''k'', crt_signer = EdPublic ''ca''\<rparr>"

definition sample_peer :: "certificate \<Rightarrow> rpc_peer" where
  "sample_peer c = \<lparr>peer_address = ''10.0.0.7:41000'', peer_auth = TLSInfo [c]\<rparr>"

definition agent_peer :: rpc_peer where
  "agent_peer = sample_peer (sample_cert ''n1'' ''Agents'' 0)"

definition observer_peer :: rpc_peer where
  "observer_peer = sample_peer (sample_cert ''p1'' ''Observers'' 0)"

definition node_entry :: "node_schema \<Rightarrow> string \<times> kv" where
  "node_entry n =
     (let k = node_key (ns_datacenter n) (ns_name n) in
      (k, \<lparr>kv_key = k, kv_value = marshal_node n, kv_create_rev = 1, kv_version = 1, kv_lease = 0\<rparr>))"

definition sample_store :: store where
  "sample_store = \<lparr>st_rev = 1, st_entries = [node_entry sample_node, node_entry sample_observer],
     st_leases = [], st_members = []\<rparr>"

definition sample_authority :: certificate where
  "sample_authority =
     \<lparr>crt_subject = \<lparr>pn_organization = ssle_organization, pn_ou = [''Agents''], pn_cn = []\<rparr>,
      crt_issuer = \<lparr>pn_organization = ssle_organization, pn_ou = [''Agents''], pn_cn = []\<rparr>,
      crt_dns_names = [], crt_ips = [], crt_not_before = 0, crt_not_after = 3650 * day,
      crt_key_usage = CertSign, crt_ext_usage = [], crt_is_ca = True,
      crt_public = EdPublic ''seed'', crt_signer = EdPublic ''seed''\<rparr>"

definition sample_state :: state where
  "sample_state =
     (let kp = \<lparr>kp_leaf = sample_authority, kp_private = EdPrivate ''seed''\<rparr> in
      \<lparr>st_token = [], st_etcd_dir = [], st_ca = kp, st_ca_crt_file = [], st_agent_ca = kp,
       st_agent_ca_crt_file = [], st_server_key_pair = kp, st_server_crt_file = [], st_server_key_file = []\<rparr>)"

lemmas sample_defs = sample_node_def sample_observer_def sample_cert_def sample_peer_def
  agent_peer_def observer_peer_def

lemma sample_nodes_valid: "node_valid sample_node" "node_valid sample_observer"
  by code_simp+

lemma sample_node_keys:
  "node_key ''dc1'' ''n1'' = ''nodes/dc1/n1''" "node_key ''dc1'' ''p1'' = ''nodes/dc1/p1''"
  by code_simp+

lemma sample_node_entries:
  "node_entry sample_node = (''nodes/dc1/n1'',
     \<lparr>kv_key = ''nodes/dc1/n1'', kv_value = marshal_node sample_node, kv_create_rev = 1, kv_version = 1, kv_lease = 0\<rparr>)"
  "node_entry sample_observer = (''nodes/dc1/p1'',
     \<lparr>kv_key = ''nodes/dc1/p1'', kv_value = marshal_node sample_observer, kv_create_rev = 1, kv_version = 1, kv_lease = 0\<rparr>)"
  by (simp_all add: node_entry_def Let_def sample_node_def sample_observer_def sample_node_keys)

lemma sample_store_wf: "store_wf sample_store"
  by (simp add: store_wf_def sample_store_def keys_sorted_def entries_ok_def entry_ok_def node_entry_def
      Let_def sample_node_def sample_observer_def sample_node_keys)

lemma sample_no_leases: "store_leases sample_store = {}"
  by (simp add: store_leases_def sample_store_def)

lemma sample_empty: "card (store_leases sample_store) < 2 ^ 62"
  by (simp add: sample_no_leases)

lemma sample_stored:
  "stored_node (store_kvs sample_store) ''dc1'' ''n1'' = Inr (Some sample_node)"
  "stored_node (store_kvs sample_store) ''dc1'' ''p1'' = Inr (Some sample_observer)"
  using node_codec.dec_enc [OF sample_nodes_valid(1)] node_codec.dec_enc [OF sample_nodes_valid(2)]
  by (simp_all add: stored_node_def store_kvs_def sample_store_def node_entry_def Let_def sample_node_keys
      sample_node_def sample_observer_def)

lemma sample_caller:
  "caller (store_kvs sample_store) (Some agent_peer) agent_certificate_ou = Inr sample_node"
  "caller (store_kvs sample_store) (Some observer_peer) observer_certificate_ou = Inr sample_observer"
  by (simp_all add: caller_def extract_peer_certificate_def agent_peer_def observer_peer_def
      sample_peer_def sample_cert_def agent_certificate_ou_def observer_certificate_ou_def sample_stored)

lemma etcd_ref_live: "etcd_live store_etcd store_wf store_kvs store_leases"
  by unfold_locales

end
