(* ===== verification/NodeApi.thy ===== *)
theory NodeApi
  imports Sample
begin

text \<open>
  registry/agent_api/node_api.go: what every node, agent or observer, asks of the registry. \<^verbatim>\<open>Config\<close>
  hands out the registries' addresses and, in the second half of a certificate's life, a new
  certificate; \<^verbatim>\<open>Heartbeat\<close> keeps the node's lease alive.
\<close>

record config_response =
  cfg_certificate :: "blob option"
  cfg_key :: "blob option"
  cfg_heartbeat_period :: "32 word"
  cfg_renew_period :: "64 word"
  cfg_registry_addrs :: "string list"

section \<open>Durations\<close>

text \<open>\<^verbatim>\<open>Time.Sub\<close> saturates at the bounds of a 64-bit count of nanoseconds.\<close>

definition time_sub :: "int \<Rightarrow> int \<Rightarrow> int" where
  "time_sub t u = max (- (2 ^ 63)) (min (2 ^ 63 - 1) (t - u))"

text \<open>The subtraction of two durations wraps.\<close>

definition dur_sub :: "int \<Rightarrow> int \<Rightarrow> int" where
  "dur_sub a b = sint (word_of_int (a - b) :: 64 word)"

text \<open>\<^verbatim>\<open>uint64(d.Seconds())\<close> of a duration that is not negative: the whole seconds. The float64 in
  between is exact to the nanosecond for the certificate lifetimes of the program.\<close>

definition dur_seconds :: "int \<Rightarrow> 64 word" where
  "dur_seconds d = word_of_int (d div second)"

definition renew_period :: int where
  "renew_period = node_certificate_expiry div 2"

section \<open>Handlers\<close>

definition config_request ::
  "'e etcd \<Rightarrow> state \<Rightarrow> string \<Rightarrow> int \<Rightarrow> int \<Rightarrow> rpc_peer option \<Rightarrow> 'e \<Rightarrow> config_response outcome \<times> 'e" where
  "config_request E st seed now issued ctx e =
     (case extract_peer_certificate ctx of
        Inl err \<Rightarrow> (Inl err, e)
      | Inr cert \<Rightarrow>
     (case authenticate_from_certificate E (Some cert) e of
        (Inl err, e) \<Rightarrow> (Inl err, e)
      | (Inr (role, node), e) \<Rightarrow>
          (let renew_at = dur_sub (time_sub (crt_not_after cert) now) renew_period;
               res = \<lparr>cfg_certificate = None, cfg_key = None,
                 cfg_heartbeat_period = node_keepalive_ttl div 2, cfg_renew_period = 0, cfg_registry_addrs = []\<rparr>;
               renewed =
                 (if renew_at < 0 then
                    (case create_node_crt seed issued st (ns_datacenter node) (ns_name node) role of
                       Inl err \<Rightarrow> Inl err
                     | Inr (crt, key) \<Rightarrow>
                         Inr (res\<lparr>cfg_certificate := Some crt, cfg_key := Some key,
                           cfg_renew_period := dur_seconds renew_period\<rparr>))
                  else Inr (res\<lparr>cfg_renew_period := dur_seconds renew_at\<rparr>))
           in case renewed of
                Inl err \<Rightarrow> (Inl err, e)
              | Inr res \<Rightarrow>
                  (case etcd_range E e (prefix_request ''peer_agent_api'' 0) of
                     (Inl _, e) \<Rightarrow> (Inl server_error, e)
                   | (Inr ks, e) \<Rightarrow> (Inr (res\<lparr>cfg_registry_addrs := map kv_value ks\<rparr>), e)))))"

text \<open>The result of \<^verbatim>\<open>GetNodeLease\<close>, an error included, is dropped.\<close>

definition heartbeat :: "'e etcd \<Rightarrow> rpc_peer option \<Rightarrow> 'e \<Rightarrow> unit outcome \<times> 'e" where
  "heartbeat E ctx e =
     (case extract_peer_certificate ctx of
        Inl err \<Rightarrow> (Inl err, e)
      | Inr cert \<Rightarrow>
     (case authenticate_from_certificate E (Some cert) e of
        (Inl err, e) \<Rightarrow> (Inl err, e)
      | (Inr (_, node), e) \<Rightarrow> (Inr (), snd (get_node_lease E (ns_datacenter node) (ns_name node) e))))"

section \<open>What the handlers answer\<close>

text \<open>The identity that the store gives a certificate: the role it claims and the stored node.\<close>

definition cert_node :: "(string \<rightharpoonup> kv) \<Rightarrow> certificate \<Rightarrow> (string \<times> node_schema) option" where
  "cert_node m c =
     (case pn_ou (crt_subject c) of
        [dc, role] \<Rightarrow>
          (case stored_node m dc (pn_cn (crt_subject c)) of
             Inr (Some node) \<Rightarrow> Some (role, node)
           | _ \<Rightarrow> None)
      | _ \<Rightarrow> None)"

lemma cert_node_cong:
  assumes "\<And>dc name. m' (node_key dc name) = m (node_key dc name)"
  shows "cert_node m' c = cert_node m c"
proof -
  have eq: "stored_node m' = stored_node m" using assms by (simp add: stored_node_def fun_eq_iff)
  show ?thesis unfolding cert_node_def eq by (rule refl)
qed

lemma dur_sub_exact:
  assumes "- (2 ^ 63) \<le> a - b" "a - b < 2 ^ 63"
  shows "dur_sub a b = a - b"
proof -
  have "signed_take_bit 63 (a - b) = a - b" using assms by (rule signed_take_bit_int_eq_self)
  then show ?thesis unfolding dur_sub_def sint_sbintrunc' by simp
qed

context etcd_live
begin

lemma authenticate_certificate_total:
  assumes "wf e" "cert_node (kvs e) c = Some (role, node)"
  obtains e' where "authenticate_from_certificate E (Some c) e = (Inr (role, node), e')"
    "wf e'" "kvs e' = kvs e" "leases e' = leases e"
proof -
  from assms(2) obtain dc where ou: "pn_ou (crt_subject c) = [dc, role]"
    and node: "stored_node (kvs e) dc (pn_cn (crt_subject c)) = Inr (Some node)"
    by (auto simp: cert_node_def split: list.splits sum.splits option.splits)
  obtain e' where "get_node_schema E dc (pn_cn (crt_subject c)) e = (Inr (Some node), e')"
    and e': "wf e'" "kvs e' = kvs e" "leases e' = leases e"
    using get_node_schema_total [OF assms(1), of dc "pn_cn (crt_subject c)"] node by metis
  with ou show thesis
    by (intro that [of e']) (simp_all add: authenticate_from_certificate_def extract_peer_datacenter_node_def)
qed

lemma config_request_total:
  assumes "wf e" "extract_peer_certificate ctx = Inr c" "cert_node (kvs e) c = Some (role, node)"
    "create_node_crt seed issued st (ns_datacenter node) (ns_name node) role = Inr (crt, key)"
    "\<bar>crt_not_after c - now\<bar> < 2 ^ 62"
  shows "\<exists>e'. config_request E st seed now issued ctx e =
      (Inr \<lparr>cfg_certificate = (if crt_not_after c - now < renew_period then Some crt else None),
            cfg_key = (if crt_not_after c - now < renew_period then Some key else None),
            cfg_heartbeat_period = 15,
            cfg_renew_period =
              dur_seconds (if crt_not_after c - now < renew_period then renew_period
                           else crt_not_after c - now - renew_period),
            cfg_registry_addrs = map kv_value (range_kvs (kvs e) (prefix_request ''peer_agent_api'' 0))\<rparr>, e')
    \<and> wf e' \<and> kvs e' = kvs e \<and> leases e' = leases e"
proof -
  let ?r = "prefix_request ''peer_agent_api'' 0"
  obtain e1 where auth: "authenticate_from_certificate E (Some c) e = (Inr (role, node), e1)"
    and e1: "wf e1" "kvs e1 = kvs e" "leases e1 = leases e"
    by (rule authenticate_certificate_total [OF assms(1,3)])
  obtain e2 where rg: "etcd_range E e1 ?r = (Inr (range_kvs (kvs e1) ?r), e2)"
    and e2: "wf e2" "kvs e2 = kvs e1" "leases e2 = leases e1"
    by (rule range_total [OF e1(1)])
  have "time_sub (crt_not_after c) now = crt_not_after c - now"
    using assms(5) by (simp add: time_sub_def)
  moreover have "dur_sub (crt_not_after c - now) renew_period = crt_not_after c - now - renew_period"
    using assms(5) by (intro dur_sub_exact) (simp_all add: renew_period_def node_certificate_expiry_def day_def second_def)
  moreover have "node_keepalive_ttl div 2 = 15" by (simp add: node_keepalive_ttl_def)
  ultimately show ?thesis
    using assms(2,4) auth rg e1 e2 by (auto simp: config_request_def Let_def)
qed

lemma heartbeat_total:
  assumes "wf e" "extract_peer_certificate ctx = Inr c" "cert_node (kvs e) c = Some (role, node)"
    "card (leases e) < 2 ^ 62" "length (lease_key (ns_datacenter node) (ns_name node)) < 2 ^ 17"
  shows "\<exists>e' l. heartbeat E ctx e = (Inr (), e') \<and> wf e' \<and> l \<in> leases e' \<and> leases e \<subseteq> leases e'
    \<and> lease_stored (kvs e') (lease_key (ns_datacenter node) (ns_name node)) l
    \<and> (\<forall>k. k \<noteq> lease_key (ns_datacenter node) (ns_name node) \<longrightarrow> kvs e' k = kvs e k)"
proof -
  obtain e1 where auth: "authenticate_from_certificate E (Some c) e = (Inr (role, node), e1)"
    and e1: "wf e1" "kvs e1 = kvs e" "leases e1 = leases e"
    by (rule authenticate_certificate_total [OF assms(1,3)])
  obtain l e2 where lease: "get_node_lease E (ns_datacenter node) (ns_name node) e1 = (Inr l, e2)"
    using get_node_lease_total [OF e1(1)] assms(4,5) e1 by metis
  have "heartbeat E ctx e = (Inr (), e2)" using auth lease assms(2) by (simp add: heartbeat_def)
  then show ?thesis using get_node_lease_result [OF e1(1) lease] e1 by metis
qed

end

section \<open>Properties\<close>

lemma sample_cert_node:
  "cert_node (store_kvs sample_store) (sample_cert ''n1'' ''Agents'' x) = Some (''Agents'', sample_node)"
  by (simp add: cert_node_def sample_cert_def sample_stored)

lemma sample_issue:
  obtains crt key where "create_node_crt ''key'' 0 sample_state (ns_datacenter sample_node) (ns_name sample_node) ''Agents'' =
    Inr (crt, key)"
proof -
  have "utf8_valid (ns_datacenter sample_node)" "utf8_valid (ns_name sample_node)" "utf8_valid ''Agents''"
    "utf8_valid ''SSLE Project 01''"
    using sample_nodes_valid(1) by (auto simp: node_valid_def intro: utf8_valid_ascii)
  then show thesis
    using that by (simp add: create_node_crt_def create_certificate_def name_encodes_def ssle_organization_def Let_def)
qed

text \<open>\<^verbatim>\<open>Config\<close> renews a certificate exactly when less than half of the seven days is left, tells the
  node to come back after the time until then (or half a life, after a renewal), asks for a
  heartbeat every 15 seconds, half of the lease's life, and lists the stored registry addresses.\<close>
theorem config_renews_in_second_half:
  assumes "etcd_live E ok kvs leases" "ok e"
    and "extract_peer_certificate ctx = Inr c" "cert_node (kvs e) c = Some (role, node)"
    and "create_node_crt seed issued st (ns_datacenter node) (ns_name node) role = Inr (crt, key)"
    and "\<bar>crt_not_after c - now\<bar> < 2 ^ 62"
  shows "\<exists>e' res. config_request E st seed now issued ctx e = (Inr res, e') \<and> kvs e' = kvs e
    \<and> (cfg_certificate res = Some crt \<and> cfg_key res = Some key \<and> cfg_renew_period res = 302400 \<longleftrightarrow>
        crt_not_after c - now < 302400 * second)
    \<and> (cfg_certificate res = None \<and> cfg_key res = None
         \<and> cfg_renew_period res = dur_seconds (crt_not_after c - now - 302400 * second) \<longleftrightarrow>
        302400 * second \<le> crt_not_after c - now)
    \<and> cfg_heartbeat_period res = 15
    \<and> cfg_registry_addrs res = map kv_value (range_kvs (kvs e) (prefix_request ''peer_agent_api'' 0))"
proof -
  have p: "renew_period = 302400 * second"
    by (simp add: renew_period_def node_certificate_expiry_def day_def second_def)
  have "dur_seconds renew_period = 302400" by (simp add: p dur_seconds_def second_def)
  then show ?thesis
    using etcd_live.config_request_total [OF assms] unfolding p by fastforce
qed

theorem config_renews_in_second_half_witness:
  "\<exists>e' res. config_request store_etcd sample_state ''key'' 0 0
      (Some (sample_peer (sample_cert ''n1'' ''Agents'' (100 * second)))) sample_store = (Inr res, e')
    \<and> cfg_certificate res \<noteq> None \<and> cfg_renew_period res = 302400"
proof -
  obtain crt key where issue: "create_node_crt ''key'' 0 sample_state (ns_datacenter sample_node) (ns_name sample_node) ''Agents'' =
    Inr (crt, key)" by (rule sample_issue)
  let ?c = "sample_cert ''n1'' ''Agents'' (100 * second)"
  have c: "extract_peer_certificate (Some (sample_peer ?c)) = Inr ?c"
    by (simp add: extract_peer_certificate_def sample_peer_def)
  have t: "\<bar>crt_not_after ?c - 0\<bar> < 2 ^ 62" "crt_not_after ?c - 0 < 302400 * second"
    by (simp_all add: sample_cert_def second_def)
  show ?thesis
    using config_renews_in_second_half [OF etcd_ref_live sample_store_wf c sample_cert_node issue t(1)] t(2)
    by (auto simp del: diff_0_right)
qed

text \<open>A heartbeat of a stored node, whatever role its certificate claims, always succeeds and leaves
  the node's key naming a live lease; leases that were live stay so, and no other key changes.\<close>
theorem heartbeat_keeps_lease:
  assumes "etcd_live E ok kvs leases" "ok e"
    and "extract_peer_certificate ctx = Inr c" "cert_node (kvs e) c = Some (role, node)"
    and "card (leases e) < 2 ^ 62" "length (lease_key (ns_datacenter node) (ns_name node)) < 2 ^ 17"
  shows "\<exists>e' l. heartbeat E ctx e = (Inr (), e') \<and> l \<in> leases e' \<and> leases e \<subseteq> leases e'
    \<and> lease_stored (kvs e') (lease_key (ns_datacenter node) (ns_name node)) l
    \<and> (\<forall>k. k \<noteq> lease_key (ns_datacenter node) (ns_name node) \<longrightarrow> kvs e' k = kvs e k)"
  using etcd_live.heartbeat_total [OF assms] by blast

theorem heartbeat_keeps_lease_witness:
  "\<exists>e' l. heartbeat store_etcd (Some agent_peer) sample_store = (Inr (), e') \<and> l \<in> store_leases e'
    \<and> lease_stored (store_kvs e') ''node_lease/dc1/n1'' l"
proof -
  have c: "extract_peer_certificate (Some agent_peer) = Inr (sample_cert ''n1'' ''Agents'' 0)"
    by (simp add: extract_peer_certificate_def agent_peer_def sample_peer_def)
  have k: "lease_key (ns_datacenter sample_node) (ns_name sample_node) = ''node_lease/dc1/n1''" by code_simp
  show ?thesis
    using heartbeat_keeps_lease [OF etcd_ref_live sample_store_wf c sample_cert_node] sample_no_leases k by auto
qed

end
