(* ===== verification/AgentApi.thy ===== *)
theory AgentApi
  imports Sample "HOL-Library.Multiset"
begin

text \<open>
  registry/agent_api: the handlers that agents call. \<^verbatim>\<open>Register\<close> stores a service under two keys,
  one ordered for discovery and one for the observers of a datacenter, both attached to the lease
  of the node; \<^verbatim>\<open>Deregister\<close> deletes the two keys; \<^verbatim>\<open>Reset\<close> revokes the lease; \<^verbatim>\<open>Discover\<close> widens
  its search from the node to the datacenter, the location and the whole cluster.
\<close>

section \<open>Keys of a service\<close>

definition svc_key :: "node_schema \<Rightarrow> string \<Rightarrow> string \<Rightarrow> string" where
  "svc_key node service inst =
     key_path [''svc'', service, ns_location node, ns_datacenter node, ns_name node, inst]"

definition ds_svc_key :: "node_schema \<Rightarrow> string \<Rightarrow> string \<Rightarrow> string" where
  "ds_svc_key node service inst =
     key_path [''dcsvc'', ns_datacenter node, ns_name node, service, inst]"

section \<open>\<^verbatim>\<open>Register\<close>\<close>

definition registered_spec :: "node_schema \<Rightarrow> register_request \<Rightarrow> service_spec" where
  "registered_spec node req =
     \<lparr>spec_service_name = Some (reg_service req), spec_instance = Some (reg_instance req),
      spec_location = Some (ns_location node), spec_datacenter = Some (ns_datacenter node),
      spec_node = Some (ns_name node), spec_addresses = reg_addresses req,
      spec_ports = reg_ports req, spec_metrics_port = reg_metrics_port req\<rparr>"

text \<open>A service without an address gets that of the caller.\<close>

definition fill_addresses :: "rpc_peer \<Rightarrow> service_spec \<Rightarrow> service_spec outcome" where
  "fill_addresses p spec =
     (if spec_addresses spec = [] then
        (case split_host_port (peer_address p) of
           Inl _ \<Rightarrow> Inl server_error
         | Inr (ip, _) \<Rightarrow> Inr (spec\<lparr>spec_addresses := [ip]\<rparr>))
      else Inr spec)"

definition register_txn :: "node_schema \<Rightarrow> register_request \<Rightarrow> service_spec \<Rightarrow> int \<Rightarrow> txn_request" where
  "register_txn node req spec l =
     \<lparr>txn_compare = [],
      txn_success =
        [PutOp (svc_key node (reg_service req) (reg_instance req)) (marshal_spec spec) l,
         PutOp (ds_svc_key node (reg_service req) (reg_instance req)) (marshal_spec spec) l]\<rparr>"

definition register ::
  "'e etcd \<Rightarrow> rpc_peer option \<Rightarrow> register_request \<Rightarrow> 'e \<Rightarrow> service_spec outcome \<times> 'e" where
  "register E ctx req e =
     (case authenticate_agent E ctx e of
        (Inl err, e) \<Rightarrow> (Inl err, e)
      | (Inr node, e) \<Rightarrow>
          (case ctx of
             None \<Rightarrow> (Inl auth_failure, e)
           | Some p \<Rightarrow>
               (case fill_addresses p (registered_spec node req) of
                  Inl err \<Rightarrow> (Inl err, e)
                | Inr spec \<Rightarrow>
                    (case get_node_lease E (ns_datacenter node) (ns_name node) e of
                       (Inl err, e) \<Rightarrow> (Inl err, e)
                     | (Inr l, e) \<Rightarrow>
                         (case etcd_txn E e (register_txn node req spec l) of
                            (Inl _, e) \<Rightarrow> (Inl server_error, e)
                          | (Inr False, e) \<Rightarrow> (Inl server_error, e)
                          | (Inr True, e) \<Rightarrow> (Inr spec, e))))))"

section \<open>\<^verbatim>\<open>Deregister\<close> and \<^verbatim>\<open>Reset\<close>\<close>

definition deregister_txn :: "node_schema \<Rightarrow> deregister_request \<Rightarrow> txn_request" where
  "deregister_txn node req =
     \<lparr>txn_compare = [],
      txn_success =
        [DeleteOp (svc_key node (dereg_service req) (dereg_instance req)),
         DeleteOp (ds_svc_key node (dereg_service req) (dereg_instance req))]\<rparr>"

definition deregister ::
  "'e etcd \<Rightarrow> rpc_peer option \<Rightarrow> deregister_request \<Rightarrow> 'e \<Rightarrow> unit outcome \<times> 'e" where
  "deregister E ctx req e =
     (case authenticate_agent E ctx e of
        (Inl err, e) \<Rightarrow> (Inl err, e)
      | (Inr node, e) \<Rightarrow>
          (case etcd_txn E e (deregister_txn node req) of
             (Inl _, e) \<Rightarrow> (Inl server_error, e)
           | (Inr False, e) \<Rightarrow> (Inl server_error, e)
           | (Inr True, e) \<Rightarrow> (Inr (), e)))"

text \<open>A value that does not decode, and a lease that is gone, count as nothing to revoke.\<close>

definition revoke_stored :: "'e etcd \<Rightarrow> kv list \<Rightarrow> 'e \<Rightarrow> unit outcome \<times> 'e" where
  "revoke_stored E ks e =
     (case ks of
        [] \<Rightarrow> (Inr (), e)
      | kv # _ \<Rightarrow>
          (case unmarshal_int64 (kv_value kv) of
             None \<Rightarrow> (Inr (), e)
           | Some l \<Rightarrow>
               (case etcd_lease_revoke E e l of
                  (Inr _, e) \<Rightarrow> (Inr (), e)
                | (Inl err, e) \<Rightarrow> (if err = err_lease_not_found then Inr () else Inl server_error, e))))"

definition reset :: "'e etcd \<Rightarrow> rpc_peer option \<Rightarrow> 'e \<Rightarrow> unit outcome \<times> 'e" where
  "reset E ctx e =
     (case authenticate_agent E ctx e of
        (Inl err, e) \<Rightarrow> (Inl err, e)
      | (Inr node, e) \<Rightarrow>
          (case etcd_range E e \<lparr>rr_key = lease_key (ns_datacenter node) (ns_name node), rr_end = [], rr_limit = 0\<rparr> of
             (Inl _, e) \<Rightarrow> (Inl server_error, e)
           | (Inr ks, e) \<Rightarrow> revoke_stored E ks e))"

section \<open>\<^verbatim>\<open>Discover\<close>\<close>

definition max_get_service_limit :: nat where
  "max_get_service_limit = 3"

text \<open>The specifications found, by key, in a Go map.\<close>

fun decode_specs :: "kv list \<Rightarrow> (string, service_spec) gomap \<Rightarrow> (string, service_spec) gomap outcome" where
  "decode_specs [] m = Inr m"
| "decode_specs (kv # ks) m =
     (case unmarshal_spec (kv_value kv) of
        None \<Rightarrow> Inl (Failure ''json'')
      | Some spec \<Rightarrow> decode_specs ks (map_put (kv_key kv) spec m))"

definition get_service_internal ::
  "'e etcd \<Rightarrow> string \<Rightarrow> int \<Rightarrow> 'e \<Rightarrow> (string, service_spec) gomap outcome \<times> 'e" where
  "get_service_internal E pfx limit e =
     (case etcd_range E e (prefix_request pfx limit) of
        (Inl err, e) \<Rightarrow> (Inl err, e)
      | (Inr ks, e) \<Rightarrow> (decode_specs ks [], e))"

fun fill_loop :: "(string, service_spec) gomap \<Rightarrow> (string, service_spec) gomap \<Rightarrow> (string, service_spec) gomap" where
  "fill_loop [] svcs = svcs"
| "fill_loop ((k, v) # extra) svcs =
     (if max_get_service_limit \<le> length svcs then svcs else fill_loop extra (map_put k v svcs))"

text \<open>
  \<open>ord\<close> is the order in which Go ranges over the map, which the language leaves open. An error of
  the query is dropped.
\<close>

definition fill_services ::
  "'e etcd \<Rightarrow> ((string, service_spec) gomap \<Rightarrow> (string, service_spec) gomap) \<Rightarrow> string \<Rightarrow>
   (string, service_spec) gomap \<Rightarrow> 'e \<Rightarrow> (string, service_spec) gomap \<times> 'e" where
  "fill_services E ord pfx svcs e =
     (case get_service_internal E pfx (int max_get_service_limit) e of
        (Inl _, e) \<Rightarrow> (svcs, e)
      | (Inr extra, e) \<Rightarrow> (fill_loop (ord extra) svcs, e))"

definition discover_prefixes :: "string \<Rightarrow> string \<Rightarrow> string \<Rightarrow> string \<Rightarrow> string \<times> string \<times> string \<times> string" where
  "discover_prefixes svc location dc name =
     (let svc_prefix = ''svc/'' @ svc @ ''/'';
          loc_prefix = svc_prefix @ location @ ''/'';
          dc_prefix = loc_prefix @ dc @ ''/''
      in (svc_prefix, loc_prefix, dc_prefix, dc_prefix @ name @ ''/''))"

text \<open>One widening step: done when the request leaves this level open and there is room.\<close>

definition widen ::
  "bool \<Rightarrow> 'e etcd \<Rightarrow> ((string, service_spec) gomap \<Rightarrow> (string, service_spec) gomap) \<Rightarrow> string \<Rightarrow>
   (string, service_spec) gomap \<times> 'e \<Rightarrow> (string, service_spec) gomap \<times> 'e" where
  "widen open_level E ord pfx = (\<lambda>(svcs, e).
     if length svcs < max_get_service_limit \<and> open_level then fill_services E ord pfx svcs e
     else (svcs, e))"

text \<open>
  \<open>ptr\<close> is the text of the pointer \<^verbatim>\<open>req.Instance\<close>: the format verb \<open>%v\<close> prints the address, not
  the instance it points to. \<open>ord n\<close> is the order of the n-th loop over a map.
\<close>

definition discover ::
  "'e etcd \<Rightarrow> (nat \<Rightarrow> (string, service_spec) gomap \<Rightarrow> (string, service_spec) gomap) \<Rightarrow> string \<Rightarrow>
   rpc_peer option \<Rightarrow> discover_request \<Rightarrow> 'e \<Rightarrow> service_spec list outcome \<times> 'e" where
  "discover E ord ptr ctx req e =
     (case authenticate_agent E ctx e of
        (Inl err, e) \<Rightarrow> (Inl err, e)
      | (Inr node, e) \<Rightarrow>
          (let name = (case disc_node req of None \<Rightarrow> ns_name node | Some n \<Rightarrow> n);
               dc = (case disc_datacenter req of None \<Rightarrow> ns_datacenter node | Some d \<Rightarrow> d);
               location = (case disc_location req of None \<Rightarrow> ns_location node | Some l \<Rightarrow> l);
               (svc_prefix, loc_prefix, dc_prefix, name_prefix) =
                 discover_prefixes (disc_service req) location dc name;
               found = (case disc_instance req of
                   Some _ \<Rightarrow> get_service_internal E (name_prefix @ ptr) 1 e
                 | None \<Rightarrow> get_service_internal E name_prefix (int max_get_service_limit) e)
           in case found of
                (Inl err, e) \<Rightarrow> (Inl err, e)
              | (Inr svcs, e) \<Rightarrow>
                  (let (svcs, e) =
                      widen (disc_location req = None) E (ord 2) svc_prefix
                        (widen (disc_datacenter req = None) E (ord 1) loc_prefix
                          (widen (disc_node req = None) E (ord 0) dc_prefix (svcs, e)))
                   in (Inr (map snd (ord 3 svcs)), e))))"

section \<open>Keys of services are apart from each other and from the other namespaces\<close>

definition node_slash_free :: "node_schema \<Rightarrow> bool" where
  "node_slash_free n \<longleftrightarrow> slash_free (ns_name n) \<and> slash_free (ns_datacenter n) \<and> slash_free (ns_location n)"

lemma svc_key_not_ds [key_eqs]: "svc_key n s i \<noteq> ds_svc_key n' s' i'" "ds_svc_key n' s' i' \<noteq> svc_key n s i"
  by (simp_all add: svc_key_def ds_svc_key_def key_path_two)

lemma svc_keys_not_lease [key_eqs]:
  "svc_key n s i \<noteq> lease_key a b" "ds_svc_key n s i \<noteq> lease_key a b"
  "lease_key a b \<noteq> svc_key n s i" "lease_key a b \<noteq> ds_svc_key n s i"
  by (simp_all add: svc_key_def ds_svc_key_def lease_key_def key_path_two)

lemma svc_keys_not_node [key_eqs]:
  "svc_key n s i \<noteq> node_key a b" "ds_svc_key n s i \<noteq> node_key a b"
  "node_key a b \<noteq> svc_key n s i" "node_key a b \<noteq> ds_svc_key n s i"
  by (simp_all add: svc_key_def ds_svc_key_def node_key_def key_path_two)

lemma svc_key_inject:
  assumes "node_slash_free n" "slash_free s" "slash_free i"
    "node_slash_free n'" "slash_free s'" "slash_free i'"
  shows "svc_key n s i = svc_key n' s' i' \<longleftrightarrow>
    s = s' \<and> i = i' \<and> ns_location n = ns_location n' \<and> ns_datacenter n = ns_datacenter n' \<and> ns_name n = ns_name n'"
  using key_codec.enc_inject [of "[''svc'', s, ns_location n, ns_datacenter n, ns_name n, i]"
      "[''svc'', s', ns_location n', ns_datacenter n', ns_name n', i']"] assms
  by (auto simp: svc_key_def node_slash_free_def slash_free_def)

lemma ds_svc_key_split:
  assumes "node_slash_free n" "slash_free s" "slash_free i"
  shows "split_on (CHR ''/'') (ds_svc_key n s i) = [''dcsvc'', ns_datacenter n, ns_name n, s, i]"
  unfolding ds_svc_key_def using assms
  by (intro key_path_split) (auto simp: node_slash_free_def slash_free_def)

section \<open>What the handlers do to the store\<close>

definition holds_spec :: "(string \<rightharpoonup> kv) \<Rightarrow> string \<Rightarrow> service_spec \<Rightarrow> int \<Rightarrow> bool" where
  "holds_spec m k spec l \<longleftrightarrow>
     (\<exists>x. m k = Some x \<and> kv_value x = marshal_spec spec \<and> kv_lease x = l)"

text \<open>The keys of a service, in both namespaces.\<close>

definition service_keys :: "node_schema \<Rightarrow> string \<Rightarrow> string \<Rightarrow> string set" where
  "service_keys node s i = {svc_key node s i, ds_svc_key node s i}"

context etcd_live
begin

lemma authenticate_agent_total:
  assumes "wf e"
  obtains e' where "authenticate_agent E ctx e = (caller (kvs e) ctx agent_certificate_ou, e')"
    "wf e'" "kvs e' = kvs e" "leases e' = leases e"
  unfolding authenticate_agent_def by (rule authenticate_node_total [OF assms])

lemma register_total:
  assumes "wf e" "card (leases e) < 2 ^ 62"
    and node: "caller (kvs e) ctx agent_certificate_ou = Inr node"
    and ctx: "ctx = Some p" "fill_addresses p (registered_spec node req) = Inr spec"
    and size: "length (lease_key (ns_datacenter node) (ns_name node)) < 2 ^ 17"
      "txn_size (register_txn node req spec 0) < 2 ^ 20"
  shows "\<exists>e' l. register E ctx req e = (Inr spec, e') \<and> wf e' \<and> l \<in> leases e' \<and> leases e \<subseteq> leases e'
    \<and> lease_stored (kvs e') (lease_key (ns_datacenter node) (ns_name node)) l
    \<and> (\<forall>k \<in> service_keys node (reg_service req) (reg_instance req). holds_spec (kvs e') k spec l)
    \<and> (\<forall>k. k \<notin> service_keys node (reg_service req) (reg_instance req) \<and>
        k \<noteq> lease_key (ns_datacenter node) (ns_name node) \<longrightarrow> kvs e' k = kvs e k)"
proof -
  let ?dc = "ns_datacenter node" and ?nm = "ns_name node"
  obtain e1 where auth: "authenticate_agent E ctx e = (Inr node, e1)"
    and e1: "wf e1" "kvs e1 = kvs e" "leases e1 = leases e"
    using authenticate_agent_total [OF assms(1), of ctx] node by metis
  obtain l e2 where lease: "get_node_lease E ?dc ?nm e1 = (Inr l, e2)"
    using get_node_lease_total [OF e1(1), of ?dc ?nm] assms(2) size(1) e1 by metis
  note l = get_node_lease_result [OF e1(1) lease]
  have "txn_size (register_txn node req spec l) < 2 ^ 20"
    using size(2) by (simp add: register_txn_def txn_size_def)
  then obtain b e3 where tx: "etcd_txn E e2 (register_txn node req spec l) = (Inr b, e3)"
    using txn_returns [OF l(1), of "register_txn node req spec l"] l(2) by (auto simp: register_txn_def)
  have b: "b" using txn_result [OF l(1) tx] by (simp add: register_txn_def)
  obtain rv where kv: "kvs e3 = fold (apply_op rv) (txn_success (register_txn node req spec l)) (kvs e2)"
    using txn_effect [OF l(1) tx] b by auto
  have "register E ctx req e = (Inr spec, e3)"
    using auth lease tx b ctx by (simp add: register_def)
  moreover have "wf e3" "leases e3 = leases e2" using txn_frame [OF l(1) tx] by auto
  ultimately show ?thesis
    using l kv e1
    by (auto simp: register_txn_def service_keys_def holds_spec_def lease_stored_def key_eqs)
qed

lemma deregister_total:
  assumes "wf e" "caller (kvs e) ctx agent_certificate_ou = Inr node"
    "txn_size (deregister_txn node req) < 2 ^ 20"
  shows "\<exists>e'. deregister E ctx req e = (Inr (), e') \<and> wf e' \<and> leases e' = leases e
    \<and> (\<forall>k. kvs e' k = (if k \<in> service_keys node (dereg_service req) (dereg_instance req) then None else kvs e k))"
proof -
  obtain e1 where auth: "authenticate_agent E ctx e = (Inr node, e1)"
    and e1: "wf e1" "kvs e1 = kvs e" "leases e1 = leases e"
    using authenticate_agent_total [OF assms(1), of ctx] assms(2) by metis
  obtain b e2 where tx: "etcd_txn E e1 (deregister_txn node req) = (Inr b, e2)"
    using txn_returns [OF e1(1), of "deregister_txn node req"] assms(3) by (auto simp: deregister_txn_def)
  have b: "b" using txn_result [OF e1(1) tx] by (simp add: deregister_txn_def)
  obtain rv where kv: "kvs e2 = fold (apply_op rv) (txn_success (deregister_txn node req)) (kvs e1)"
    using txn_effect [OF e1(1) tx] b by auto
  have "deregister E ctx req e = (Inr (), e2)" using auth tx b by (simp add: deregister_def)
  then show ?thesis
    using kv e1 txn_frame [OF e1(1) tx] by (auto simp: deregister_txn_def service_keys_def)
qed

lemma revoke_stored_total:
  assumes "wf e"
  shows "\<exists>e'. revoke_stored E (case entry of None \<Rightarrow> [] | Some x \<Rightarrow> [x]) e = (Inr (), e') \<and> wf e' \<and>
    (case entry of
       None \<Rightarrow> kvs e' = kvs e \<and> leases e' = leases e
     | Some x \<Rightarrow>
         (case unmarshal_int64 (kv_value x) of
            None \<Rightarrow> kvs e' = kvs e \<and> leases e' = leases e
          | Some l \<Rightarrow>
              if l \<in> leases e then leases e' = leases e - {l} \<and> kvs e' = drop_lease l (kvs e)
              else kvs e' = kvs e \<and> leases e' = leases e))"
proof (cases "Option.bind entry (\<lambda>x. unmarshal_int64 (kv_value x))")
  case None
  with assms show ?thesis by (auto simp: revoke_stored_def split: option.splits)
next
  case (Some l)
  then obtain x where x: "entry = Some x" "unmarshal_int64 (kv_value x) = Some l" by (auto simp: bind_eq_Some_conv)
  show ?thesis
  proof (cases "l \<in> leases e")
    case True
    then obtain e' where "etcd_lease_revoke E e l = (Inr (), e')" using revoke_returns [OF assms] by metis
    with x True revoke_result [OF assms] show ?thesis by (auto simp: revoke_stored_def)
  next
    case False
    then obtain e' where rv: "etcd_lease_revoke E e l = (Inl err_lease_not_found, e')"
      using revoke_returns_missing [OF assms] by metis
    with x False revoke_missing [OF assms rv] show ?thesis by (auto simp: revoke_stored_def)
  qed
qed

lemma reset_total:
  assumes "wf e" "caller (kvs e) ctx agent_certificate_ou = Inr node"
  shows "\<exists>e'. reset E ctx e = (Inr (), e') \<and> wf e' \<and>
    (case kvs e (lease_key (ns_datacenter node) (ns_name node)) of
       None \<Rightarrow> kvs e' = kvs e \<and> leases e' = leases e
     | Some x \<Rightarrow>
         (case unmarshal_int64 (kv_value x) of
            None \<Rightarrow> kvs e' = kvs e \<and> leases e' = leases e
          | Some l \<Rightarrow>
              if l \<in> leases e then leases e' = leases e - {l} \<and> kvs e' = drop_lease l (kvs e)
              else kvs e' = kvs e \<and> leases e' = leases e))"
proof -
  let ?key = "lease_key (ns_datacenter node) (ns_name node)"
  obtain e1 where auth: "authenticate_agent E ctx e = (Inr node, e1)"
    and e1: "wf e1" "kvs e1 = kvs e" "leases e1 = leases e"
    using authenticate_agent_total [OF assms(1), of ctx] assms(2) by metis
  obtain e2 where rg: "etcd_range E e1 \<lparr>rr_key = ?key, rr_end = [], rr_limit = 0\<rparr> =
      (Inr (case kvs e1 ?key of None \<Rightarrow> [] | Some x \<Rightarrow> [x]), e2)"
    and e2: "wf e2" "kvs e2 = kvs e" "leases e2 = leases e"
    by (rule lookup_total [OF e1(1), of 0 ?key]) (use e1 in auto)
  have eq: "reset E ctx e = revoke_stored E (case kvs e ?key of None \<Rightarrow> [] | Some x \<Rightarrow> [x]) e2"
    using auth rg e1 by (simp add: reset_def)
  show ?thesis using revoke_stored_total [OF e2(1), of "kvs e ?key"] unfolding e2(2,3) eq .
qed

end

section \<open>What \<^verbatim>\<open>Discover\<close> finds\<close>

text \<open>The keys with a prefix, and the specification that a key holds.\<close>

definition matching :: "(string \<rightharpoonup> kv) \<Rightarrow> string \<Rightarrow> string set" where
  "matching m p = {k \<in> dom m. prefix p k}"

definition spec_at :: "(string \<rightharpoonup> kv) \<Rightarrow> string \<Rightarrow> service_spec option" where
  "spec_at m k = (case m k of None \<Rightarrow> None | Some x \<Rightarrow> unmarshal_spec (kv_value x))"

definition all_decode :: "(string \<rightharpoonup> kv) \<Rightarrow> string \<Rightarrow> bool" where
  "all_decode m p \<longleftrightarrow> (\<forall>k \<in> matching m p. spec_at m k \<noteq> None)"

text \<open>A search that has found as many services under a prefix as it may return.\<close>

definition found_at :: "(string \<rightharpoonup> kv) \<Rightarrow> string \<Rightarrow> nat \<Rightarrow> (string, service_spec) gomap \<Rightarrow> bool" where
  "found_at m p n svcs \<longleftrightarrow> gomap_ok svcs \<and> fst ` set svcs \<subseteq> matching m p
     \<and> (\<forall>x \<in> set svcs. spec_at m (fst x) = Some (snd x))
     \<and> length svcs = min n (card (matching m p))"

text \<open>The prefixes that a request lets the search use, from the narrowest on.\<close>

definition search_levels :: "node_schema \<Rightarrow> discover_request \<Rightarrow> string list" where
  "search_levels node req =
     (let (svc_prefix, loc_prefix, dc_prefix, name_prefix) =
            discover_prefixes (disc_service req)
              (case disc_location req of None \<Rightarrow> ns_location node | Some l \<Rightarrow> l)
              (case disc_datacenter req of None \<Rightarrow> ns_datacenter node | Some d \<Rightarrow> d)
              (case disc_node req of None \<Rightarrow> ns_name node | Some n \<Rightarrow> n)
      in name_prefix # (if disc_node req = None then [dc_prefix] else [])
           @ (if disc_datacenter req = None then [loc_prefix] else [])
           @ (if disc_location req = None then [svc_prefix] else []))"

definition map_order :: "((string, service_spec) gomap \<Rightarrow> (string, service_spec) gomap) \<Rightarrow> bool" where
  "map_order ord \<longleftrightarrow> (\<forall>m. mset (ord m) = mset m)"

lemma map_order_set: "map_order ord \<Longrightarrow> set (ord m) = set m"
  unfolding map_order_def by (metis set_mset_mset)

lemma set_map_put: "set (map_put k v m) \<subseteq> insert (k, v) (set m)"
  by (induction k v m rule: map_put.induct) auto

lemma matching_mono: "prefix q p \<Longrightarrow> matching m p \<subseteq> matching m q"
  by (auto simp: matching_def intro: prefix_order.trans)

lemma finite_matching: "finite (dom m) \<Longrightarrow> finite (matching m p)"
  by (simp add: matching_def)

lemma all_decode_mono: "prefix q p \<Longrightarrow> all_decode m q \<Longrightarrow> all_decode m p"
  using matching_mono by (fastforce simp: all_decode_def)

lemma decode_specs_ok:
  assumes "\<forall>x \<in> set ks. kvs (kv_key x) = Some x \<and> spec_at kvs (kv_key x) \<noteq> None" "gomap_ok m"
    "\<forall>x \<in> set m. spec_at kvs (fst x) = Some (snd x)"
  obtains r where "decode_specs ks m = Inr r" "gomap_ok r"
    "fst ` set r = fst ` set m \<union> kv_key ` set ks" "\<forall>x \<in> set r. spec_at kvs (fst x) = Some (snd x)"
  using assms
proof (induction ks arbitrary: m thesis)
  case (Cons x ks)
  from Cons.prems(2) obtain s where s: "unmarshal_spec (kv_value x) = Some s" and x: "kvs (kv_key x) = Some x"
    by (auto simp: spec_at_def)
  from Cons.prems(4) s x have put: "\<forall>y \<in> set (map_put (kv_key x) s m). spec_at kvs (fst y) = Some (snd y)"
    using set_map_put [of "kv_key x" s m] by (auto simp: spec_at_def)
  obtain r where "decode_specs ks (map_put (kv_key x) s m) = Inr r" "gomap_ok r"
    "fst ` set r = fst ` set (map_put (kv_key x) s m) \<union> kv_key ` set ks"
    "\<forall>x \<in> set r. spec_at kvs (fst x) = Some (snd x)"
    by (rule Cons.IH [OF _ _ _ put]) (use Cons.prems in auto)
  with s show ?case by (intro Cons.prems(1) [of r]) auto
qed simp

lemma fill_loop_result:
  assumes "gomap_ok svcs" "length svcs \<le> max_get_service_limit"
  shows "gomap_ok (fill_loop extra svcs)" "set (fill_loop extra svcs) \<subseteq> set svcs \<union> set extra"
    "fst ` set svcs \<subseteq> fst ` set (fill_loop extra svcs)"
    "length (fill_loop extra svcs) = min max_get_service_limit (card (fst ` set svcs \<union> fst ` set extra))"
proof -
  have "gomap_ok (fill_loop extra svcs) \<and> set (fill_loop extra svcs) \<subseteq> set svcs \<union> set extra
    \<and> fst ` set svcs \<subseteq> fst ` set (fill_loop extra svcs)
    \<and> length (fill_loop extra svcs) = min max_get_service_limit (card (fst ` set svcs \<union> fst ` set extra))"
    using assms
  proof (induction extra svcs rule: fill_loop.induct)
    case (1 svcs)
    then show ?case by (simp add: gomap_ok_length)
  next
    case (2 k v extra svcs)
    show ?case
    proof (cases "max_get_service_limit \<le> length svcs")
      case True
      have "card (fst ` set svcs) \<le> card (fst ` set svcs \<union> fst ` set ((k, v) # extra))"
        by (rule card_mono) auto
      then show ?thesis using True 2 by (auto simp: gomap_ok_length)
    next
      case False
      have "length (map_put k v svcs) \<le> max_get_service_limit"
        using False by (simp add: length_map_put)
      with False 2 have IH: "gomap_ok (fill_loop extra (map_put k v svcs))"
        "set (fill_loop extra (map_put k v svcs)) \<subseteq> set (map_put k v svcs) \<union> set extra"
        "fst ` set (map_put k v svcs) \<subseteq> fst ` set (fill_loop extra (map_put k v svcs))"
        "length (fill_loop extra (map_put k v svcs)) =
          min max_get_service_limit (card (fst ` set (map_put k v svcs) \<union> fst ` set extra))"
        by auto
      from IH(2) have "set (fill_loop extra (map_put k v svcs)) \<subseteq> set svcs \<union> set ((k, v) # extra)"
        using set_map_put [of k v svcs] by auto
      with IH False show ?thesis by simp
    qed
  qed
  then show "gomap_ok (fill_loop extra svcs)" "set (fill_loop extra svcs) \<subseteq> set svcs \<union> set extra"
    "fst ` set svcs \<subseteq> fst ` set (fill_loop extra svcs)"
    "length (fill_loop extra svcs) = min max_get_service_limit (card (fst ` set svcs \<union> fst ` set extra))"
    by auto
qed

lemma found_fill:
  assumes "found_at m p 3 svcs" "found_at m q 3 extra" "prefix q p" "finite (dom m)" "set xs = set extra"
  shows "found_at m q 3 (fill_loop xs svcs)" "fst ` set svcs \<subseteq> fst ` set (fill_loop xs svcs)"
proof -
  have 3: "max_get_service_limit = 3" by (simp add: max_get_service_limit_def)
  have ok: "gomap_ok svcs" "length svcs \<le> 3" using assms(1) by (auto simp: found_at_def)
  note r = fill_loop_result [of svcs xs, unfolded 3, OF ok]
  let ?U = "fst ` set svcs \<union> fst ` set extra"
  have fin: "finite (matching m q)" using assms(4) by (rule finite_matching)
  have "fst ` set svcs \<subseteq> matching m q"
    using assms(1,3) matching_mono [OF assms(3), of m] by (auto simp: found_at_def)
  then have U: "?U \<subseteq> matching m q" using assms(2) by (auto simp: found_at_def)
  have "min 3 (card (matching m q)) = card (fst ` set extra)"
    using assms(2) by (simp add: found_at_def flip: gomap_ok_length)
  also have "\<dots> \<le> card ?U" by (rule card_mono) auto
  finally have "min 3 (card ?U) = min 3 (card (matching m q))"
    using card_mono [OF fin U] by linarith
  then have len: "length (fill_loop xs svcs) = min 3 (card (matching m q))" using r(4) assms(5) by simp
  have sub: "set (fill_loop xs svcs) \<subseteq> set svcs \<union> set extra" using r(2) assms(5) by simp
  then have "fst ` set (fill_loop xs svcs) \<subseteq> ?U" by auto
  then have "fst ` set (fill_loop xs svcs) \<subseteq> matching m q" using U by (rule subset_trans)
  moreover have "\<forall>x \<in> set (fill_loop xs svcs). spec_at m (fst x) = Some (snd x)"
    using sub assms(1,2) unfolding found_at_def by blast
  ultimately show "found_at m q 3 (fill_loop xs svcs)" using r(1) len by (simp add: found_at_def)
  show "fst ` set svcs \<subseteq> fst ` set (fill_loop xs svcs)" by (rule r(3))
qed

lemma found_enough:
  assumes "found_at m p 3 svcs" "\<not> length svcs < 3" "prefix q p" "finite (dom m)"
  shows "found_at m q 3 svcs"
proof -
  have "card (matching m p) \<le> card (matching m q)"
    using assms(3,4) by (intro card_mono finite_matching matching_mono)
  with assms matching_mono [OF assms(3), of m] show ?thesis by (auto simp: found_at_def)
qed

context etcd_live
begin

lemma get_service_internal_total:
  assumes "wf e" "p \<noteq> []" "of_char (last p) < (255 :: nat)" "all_decode (kvs e) p" "0 < n"
  obtains svcs e' where "get_service_internal E p (int n) e = (Inr svcs, e')" "found_at (kvs e) p n svcs"
    "wf e'" "kvs e' = kvs e"
proof -
  obtain e' where rg: "etcd_range E e (prefix_request p (int n)) = (Inr (range_kvs (kvs e) (prefix_request p (int n))), e')"
    and e': "wf e'" "kvs e' = kvs e"
    by (rule range_total [OF assms(1)])
  let ?ks = "range_kvs (kvs e) (prefix_request p (int n))"
  have key: "kv_key x = k" if "kvs e k = Some x" for k x by (rule entry_key [OF assms(1) that])
  note fin = finite_kvs [OF assms(1)]
  have rng: "{k \<in> dom (kvs e). in_key_range (prefix_request p (int n)) k} = matching (kvs e) p"
    using in_prefix_range [OF assms(2,3)] by (auto simp: matching_def)
  have vals: "kvs e (kv_key x) = Some x \<and> kv_key x \<in> matching (kvs e) p" if "x \<in> set ?ks" for x
    using range_kvs_values [of "kvs e", OF key fin that] in_prefix_range [OF assms(2,3)]
    by (auto simp: matching_def)
  obtain svcs where d: "decode_specs ?ks [] = Inr svcs" "gomap_ok svcs"
    "fst ` set svcs = fst ` set [] \<union> kv_key ` set ?ks" "\<forall>x \<in> set svcs. spec_at (kvs e) (fst x) = Some (snd x)"
    by (rule decode_specs_ok [of ?ks "kvs e" "[]"]) (use vals assms(4) in \<open>auto simp: all_decode_def\<close>)
  have keys: "map kv_key ?ks = take n (sorted_list_of_set (matching (kvs e) p))"
    using range_kvs_keys [of "kvs e", OF key fin, of "prefix_request p (int n)"] assms(5) rng
    by (simp add: limit_to_def prefix_request_def)
  have "length svcs = card (set (map kv_key ?ks))" using d(3) by (simp add: gomap_ok_length [OF d(2)])
  also have "\<dots> = length (map kv_key ?ks)" unfolding keys by (intro distinct_card) simp
  also have "\<dots> = min n (card (matching (kvs e) p))"
    unfolding keys using finite_matching [OF fin] by (simp add: min.commute)
  finally have "found_at (kvs e) p n svcs" using d vals by (auto simp: found_at_def)
  moreover have "get_service_internal E p (int n) e = (Inr svcs, e')"
    using rg d(1) by (simp add: get_service_internal_def)
  ultimately show thesis using e' by (intro that)
qed

text \<open>Widening keeps what is found and, if the level is open, finds as many as there may be.\<close>

lemma widen_total:
  assumes "wf e" "found_at (kvs e) p 3 svcs" "prefix q p" "q \<noteq> []" "of_char (last q) < (255 :: nat)"
    "all_decode (kvs e) q" "map_order ord"
  obtains svcs' e' where "widen op E ord q (svcs, e) = (svcs', e')"
    "found_at (kvs e) (if op then q else p) 3 svcs'" "fst ` set svcs \<subseteq> fst ` set svcs'"
    "wf e'" "kvs e' = kvs e"
proof -
  have 3: "max_get_service_limit = 3" by (simp add: max_get_service_limit_def)
  note fin = finite_kvs [OF assms(1)]
  obtain extra e' where ex: "get_service_internal E q (int 3) e = (Inr extra, e')" "found_at (kvs e) q 3 extra"
    "wf e'" "kvs e' = kvs e"
    using get_service_internal_total [OF assms(1,4-6), of 3] by auto
  show thesis
  proof (cases "length svcs < 3 \<and> op")
    case True
    with ex have "widen op E ord q (svcs, e) = (fill_loop (ord extra) svcs, e')"
      by (simp add: widen_def fill_services_def 3)
    then show thesis
      using that True ex found_fill [OF assms(2) ex(2) assms(3) fin map_order_set [OF assms(7)]] by simp
  next
    case False
    then have "widen op E ord q (svcs, e) = (svcs, e)" by (auto simp: widen_def 3)
    then show thesis
      using that [of svcs e] False assms found_enough [OF assms(2) _ assms(3) fin] by (cases op) auto
  qed
qed

end

lemma found_at_order: "found_at m p n svcs \<Longrightarrow> map_order ord \<Longrightarrow> found_at m p n (ord svcs)"
  unfolding found_at_def gomap_ok_def map_order_def
  by (metis mset_eq_length mset_eq_setD mset_map mset_eq_imp_distinct_iff)

lemma found_enough_of:
  assumes "found_at m p n a" "fst ` set a \<subseteq> K" "finite K"
  shows "min n (card (matching m p)) \<le> card (K \<inter> matching m p)"
proof -
  have "card (fst ` set a) \<le> card (K \<inter> matching m p)"
    using assms by (intro card_mono) (auto simp: found_at_def)
  with assms(1) show ?thesis by (simp add: found_at_def flip: gomap_ok_length)
qed

lemma discover_prefixes_nested:
  assumes "discover_prefixes svc location dc name = (s, l, d, n)"
  shows "prefix s l" "prefix l d" "prefix d n"
    "\<forall>p \<in> {s, l, d, n}. p \<noteq> [] \<and> last p = CHR ''/''" "s = ''svc/'' @ svc @ ''/''"
  using assms by (auto simp: discover_prefixes_def Let_def)

context etcd_live
begin

text \<open>The search from the narrowest prefix \<open>n\<close> over \<open>d\<close> and \<open>l\<close> to \<open>s\<close>, each if its level is open.\<close>

lemma search_total:
  assumes "wf e" "prefix s l" "prefix l d" "prefix d n" "\<And>i. map_order (ord i)"
    and "\<And>p. p \<in> {s, l, d, n} \<Longrightarrow> p \<noteq> [] \<and> of_char (last p) < (255 :: nat) \<and> all_decode (kvs e) p"
    and up: "p2 = (if up2 then d else n)" "p3 = (if up3 then l else p2)" "p4 = (if up4 then s else p3)"
  obtains v1 e1 v2 e2 v3 e3 v4 e4 where "get_service_internal E n (int 3) e = (Inr v1, e1)"
    "widen up2 E (ord 0) d (v1, e1) = (v2, e2)" "widen up3 E (ord 1) l (v2, e2) = (v3, e3)"
    "widen up4 E (ord 2) s (v3, e3) = (v4, e4)" "wf e4" "kvs e4 = kvs e" "found_at (kvs e) p4 3 v4"
    "\<forall>q \<in> {n, p2, p3, p4}. min 3 (card (matching (kvs e) q)) \<le> card (fst ` set v4 \<inter> matching (kvs e) q)"
proof -
  have p: "prefix l p2" "prefix s p3" "p2 \<in> {s, l, d, n}" "p3 \<in> {s, l, d, n}"
    using assms(2-4) by (auto simp: up)
  obtain v1 e1 where 1: "get_service_internal E n (int 3) e = (Inr v1, e1)" "found_at (kvs e) n 3 v1" "wf e1" "kvs e1 = kvs e"
    using get_service_internal_total [OF assms(1), of n 3] assms(6) [of n] by auto
  obtain v2 e2 where 2: "widen up2 E (ord 0) d (v1, e1) = (v2, e2)" "found_at (kvs e) p2 3 v2"
    "fst ` set v1 \<subseteq> fst ` set v2" "wf e2" "kvs e2 = kvs e"
    using widen_total [OF 1(3), of n v1 d "ord 0" up2] 1 assms(4,5) assms(6) [of d] by (auto simp: up(1))
  obtain v3 e3 where 3: "widen up3 E (ord 1) l (v2, e2) = (v3, e3)" "found_at (kvs e) p3 3 v3"
    "fst ` set v2 \<subseteq> fst ` set v3" "wf e3" "kvs e3 = kvs e"
    using widen_total [OF 2(4), of p2 v2 l "ord 1" up3] 2 p(1) assms(5) assms(6) [of l]
    by (auto simp: up(2))
  obtain v4 e4 where 4: "widen up4 E (ord 2) s (v3, e3) = (v4, e4)" "found_at (kvs e) p4 3 v4"
    "fst ` set v3 \<subseteq> fst ` set v4" "wf e4" "kvs e4 = kvs e"
    using widen_total [OF 3(4), of p3 v3 s "ord 2" up4] 3 p(2) assms(5) assms(6) [of s]
    by (auto simp: up(3))
  note enough = found_enough_of [of "kvs e" _ 3 _ "fst ` set v4"]
  have "\<forall>q \<in> {n, p2, p3, p4}. min 3 (card (matching (kvs e) q)) \<le> card (fst ` set v4 \<inter> matching (kvs e) q)"
    using enough [OF 1(2)] enough [OF 2(2)] enough [OF 3(2)] enough [OF 4(2)] 2(3) 3(3) 4(3) by auto
  with 1(1) 2(1) 3(1) 4(1,2,4,5) show thesis by (intro that)
qed

lemma discover_total:
  assumes "wf e" "caller (kvs e) ctx agent_certificate_ou = Inr node" "\<And>n. map_order (ord n)"
    "disc_instance req = None" "all_decode (kvs e) (''svc/'' @ disc_service req @ ''/'')"
  shows "\<exists>svcs e'. discover E ord ptr ctx req e = (Inr (map snd svcs), e') \<and> wf e' \<and> kvs e' = kvs e
    \<and> found_at (kvs e) (last (search_levels node req)) 3 svcs
    \<and> (\<forall>p \<in> set (search_levels node req).
         min 3 (card (matching (kvs e) p)) \<le> card (fst ` set svcs \<inter> matching (kvs e) p))"
proof -
  let ?loc = "case disc_location req of None \<Rightarrow> ns_location node | Some l \<Rightarrow> l"
  let ?dc = "case disc_datacenter req of None \<Rightarrow> ns_datacenter node | Some d \<Rightarrow> d"
  let ?nm = "case disc_node req of None \<Rightarrow> ns_name node | Some n \<Rightarrow> n"
  obtain s l d n where pf: "discover_prefixes (disc_service req) ?loc ?dc ?nm = (s, l, d, n)"
    by (metis prod_cases4)
  note nest = discover_prefixes_nested [OF pf]
  obtain e0 where auth: "authenticate_agent E ctx e = (Inr node, e0)" and e0: "wf e0" "kvs e0 = kvs e"
    using authenticate_agent_total [OF assms(1), of ctx] assms(2) by metis
  have ok: "p \<noteq> [] \<and> of_char (last p) < (255 :: nat) \<and> all_decode (kvs e0) p" if "p \<in> {s, l, d, n}" for p
    using that assms(5) e0(2) nest by (auto intro: all_decode_mono prefix_order.trans)
  obtain v1 e1 v2 e2 v3 e3 v4 e4 where run: "get_service_internal E n (int 3) e0 = (Inr v1, e1)"
    "widen (disc_node req = None) E (ord 0) d (v1, e1) = (v2, e2)"
    "widen (disc_datacenter req = None) E (ord 1) l (v2, e2) = (v3, e3)"
    "widen (disc_location req = None) E (ord 2) s (v3, e3) = (v4, e4)" "wf e4" "kvs e4 = kvs e0"
    and found: "found_at (kvs e0) (last (search_levels node req)) 3 v4"
    "\<forall>p \<in> set (search_levels node req).
      min 3 (card (matching (kvs e0) p)) \<le> card (fst ` set v4 \<inter> matching (kvs e0) p)"
    by (rule search_total [where ord = ord and ?up2.0 = "disc_node req = None" and ?up3.0 = "disc_datacenter req = None"
          and ?up4.0 = "disc_location req = None", OF e0(1) nest(1-3) assms(3) ok refl refl refl])
      (use pf in \<open>auto simp: search_levels_def split: if_splits\<close>)
  have "discover E ord ptr ctx req e = (Inr (map snd (ord 3 v4)), e4)"
    using auth run pf assms(4) by (simp add: discover_def max_get_service_limit_def)
  moreover have "fst ` set (ord 3 v4) = fst ` set v4" using map_order_set [OF assms(3)] by simp
  ultimately show ?thesis
    using run(5,6) found e0(2) found_at_order [OF found(1) assms(3)] by metis
qed

text \<open>Only the first query can fail: the text of the pointer, if the request has an instance, continues its prefix.\<close>

lemma discover_answers:
  assumes "wf e" "caller (kvs e) ctx agent_certificate_ou = Inr node"
    and "ptr \<noteq> []" "of_char (last ptr) < (255 :: nat)" "all_decode (kvs e) (''svc/'' @ disc_service req @ ''/'')"
  shows "\<exists>svcs e'. discover E ord ptr ctx req e = (Inr svcs, e')"
proof -
  let ?loc = "case disc_location req of None \<Rightarrow> ns_location node | Some l \<Rightarrow> l"
  let ?dc = "case disc_datacenter req of None \<Rightarrow> ns_datacenter node | Some d \<Rightarrow> d"
  let ?nm = "case disc_node req of None \<Rightarrow> ns_name node | Some n \<Rightarrow> n"
  obtain s l d n where pf: "discover_prefixes (disc_service req) ?loc ?dc ?nm = (s, l, d, n)"
    by (metis prod_cases4)
  note nest = discover_prefixes_nested [OF pf]
  obtain e0 where auth: "authenticate_agent E ctx e = (Inr node, e0)" and e0: "wf e0" "kvs e0 = kvs e"
    using authenticate_agent_total [OF assms(1), of ctx] assms(2) by metis
  have "prefix s (n @ t)" for t using nest(1-3) by (meson prefix_order.trans prefixI)
  then have "all_decode (kvs e0) (n @ t)" for t using all_decode_mono [of s] assms(5) e0(2) nest(5) by simp
  then have ok: "n @ t \<noteq> []" "of_char (last (n @ t)) < (255 :: nat)" "all_decode (kvs e0) (n @ t)"
    if "t = [] \<or> t = ptr" for t
    using that assms(3,4) nest(4) by auto
  have "\<exists>svcs e1. get_service_internal E (n @ t) (int k) e0 = (Inr svcs, e1)" if "t = [] \<or> t = ptr" "0 < k" for t k
    using get_service_internal_total [OF e0(1) ok [OF that(1)] that(2)] by metis
  from this [of "[]" 3] this [of ptr 1] show ?thesis
    using auth pf by (auto simp: discover_def max_get_service_limit_def split: option.split prod.split)
qed

end

section \<open>Properties\<close>

text \<open>The identity of a caller rests on the keys of nodes only.\<close>

lemma caller_cong:
  assumes "\<And>dc name. m' (node_key dc name) = m (node_key dc name)"
  shows "caller m' ctx role = caller m ctx role"
proof -
  have eq: "stored_node m' = stored_node m" using assms by (simp add: stored_node_def fun_eq_iff)
  show ?thesis unfolding caller_def eq by (rule refl)
qed

lemma service_keys_not_node [key_eqs]: "node_key dc name \<notin> service_keys node s i"
  by (simp add: service_keys_def key_eqs)

lemma service_keys_not_lease [key_eqs]: "lease_key dc name \<notin> service_keys node s i"
  by (simp add: service_keys_def key_eqs)

definition sample_request :: register_request where
  "sample_request = \<lparr>reg_service = ''web'', reg_instance = ''c1'', reg_addresses = [],
     reg_ports = [], reg_metrics_port = None\<rparr>"

definition sample_spec :: service_spec where
  "sample_spec = (registered_spec sample_node sample_request)\<lparr>spec_addresses := [''10.0.0.7'']\<rparr>"

definition sample_deregister :: deregister_request where
  "sample_deregister = \<lparr>dereg_service = ''web'', dereg_instance = ''c1''\<rparr>"

lemma sample_spec_filled:
  "fill_addresses agent_peer (registered_spec sample_node sample_request) = Inr sample_spec"
  by code_simp

lemma sample_spec_json:
  "json_spec sample_spec = JObj [(''service_name'', JStr ''web''), (''instance'', JStr ''c1''),
     (''location'', JStr ''eu''), (''datacenter'', JStr ''dc1''), (''node'', JStr ''n1''),
     (''addresses'', JArr [JStr ''10.0.0.7''])]"
  by (simp add: sample_spec_def sample_request_def registered_spec_def sample_node_def json_spec_def
      opt_member_def slice_member_def)

lemma sample_spec_length: "length (marshal_spec sample_spec) = 110"
  unfolding marshal_spec_def sample_spec_json by code_simp

lemma sample_service_keys:
  "svc_key sample_node ''web'' ''c1'' = ''svc/web/eu/dc1/n1/c1''"
  "ds_svc_key sample_node ''web'' ''c1'' = ''dcsvc/dc1/n1/web/c1''"
  "lease_key (ns_datacenter sample_node) (ns_name sample_node) = ''node_lease/dc1/n1''"
  by code_simp+

lemma sample_sizes:
  "length (lease_key (ns_datacenter sample_node) (ns_name sample_node)) < 2 ^ 17"
  "txn_size (register_txn sample_node sample_request sample_spec 0) < 2 ^ 20"
  "txn_size (deregister_txn sample_node sample_deregister) < 2 ^ 20"
  by (simp_all add: txn_size_def register_txn_def deregister_txn_def sample_request_def sample_deregister_def
      sample_service_keys sample_spec_length)

text \<open>C1: an authenticated \<^verbatim>\<open>Register\<close> succeeds, answers the stored specification, writes it under both
  of its keys attached to one live lease that the node's lease key names, and leaves every other
  key as it was.\<close>
theorem register_stores_service:
  assumes "etcd_live E ok kvs leases" "ok e" "card (leases e) < 2 ^ 62"
    and "caller (kvs e) (Some p) agent_certificate_ou = Inr node"
    and "fill_addresses p (registered_spec node req) = Inr spec"
    and "length (lease_key (ns_datacenter node) (ns_name node)) < 2 ^ 17"
    and "txn_size (register_txn node req spec 0) < 2 ^ 20"
  shows "\<exists>e' l. register E (Some p) req e = (Inr spec, e') \<and> ok e' \<and> l \<in> leases e' \<and> leases e \<subseteq> leases e'
    \<and> lease_stored (kvs e') (lease_key (ns_datacenter node) (ns_name node)) l
    \<and> holds_spec (kvs e') (svc_key node (reg_service req) (reg_instance req)) spec l
    \<and> holds_spec (kvs e') (ds_svc_key node (reg_service req) (reg_instance req)) spec l
    \<and> (\<forall>k. k \<notin> service_keys node (reg_service req) (reg_instance req) \<and>
        k \<noteq> lease_key (ns_datacenter node) (ns_name node) \<longrightarrow> kvs e' k = kvs e k)"
  using etcd_live.register_total [OF assms(1-4) refl assms(5-7)]
  by (auto simp: service_keys_def)

theorem register_stores_service_witness:
  "\<exists>e' l. register store_etcd (Some agent_peer) sample_request sample_store = (Inr sample_spec, e')
    \<and> l \<in> store_leases e'
    \<and> holds_spec (store_kvs e') (svc_key sample_node ''web'' ''c1'') sample_spec l"
  using register_stores_service [OF etcd_ref_live sample_store_wf sample_empty sample_caller(1)
      sample_spec_filled sample_sizes(1,2)]
  by (auto simp: sample_request_def)

text \<open>C17: \<^verbatim>\<open>Deregister\<close> after \<^verbatim>\<open>Register\<close> leaves no trace of the service: after the two, both of its keys are
  absent, also where it was registered before, and every other key except the node's lease key is as it was. Where it was
  not registered before the two together restore all keys but the lease key.\<close>
theorem deregister_undoes_register:
  assumes "etcd_live E ok kvs leases" "ok e" "card (leases e) < 2 ^ 62"
    and "caller (kvs e) (Some p) agent_certificate_ou = Inr node"
    and "fill_addresses p (registered_spec node req) = Inr spec"
    and "length (lease_key (ns_datacenter node) (ns_name node)) < 2 ^ 17"
    and "txn_size (register_txn node req spec 0) < 2 ^ 20"
    and "dreq = \<lparr>dereg_service = reg_service req, dereg_instance = reg_instance req\<rparr>"
    and "txn_size (deregister_txn node dreq) < 2 ^ 20"
  shows "\<exists>e1 e2. register E (Some p) req e = (Inr spec, e1) \<and> deregister E (Some p) dreq e1 = (Inr (), e2)
    \<and> ok e2 \<and> (\<forall>k \<in> service_keys node (reg_service req) (reg_instance req). kvs e2 k = None)
    \<and> (\<forall>k. k \<notin> service_keys node (reg_service req) (reg_instance req) \<and>
        k \<noteq> lease_key (ns_datacenter node) (ns_name node) \<longrightarrow> kvs e2 k = kvs e k)"
proof -
  obtain e1 l where e1: "register E (Some p) req e = (Inr spec, e1)" "ok e1"
    and frame: "\<forall>k. k \<notin> service_keys node (reg_service req) (reg_instance req) \<and>
        k \<noteq> lease_key (ns_datacenter node) (ns_name node) \<longrightarrow> kvs e1 k = kvs e k"
    using etcd_live.register_total [OF assms(1-4) refl assms(5-7)] by blast
  have "caller (kvs e1) (Some p) agent_certificate_ou = caller (kvs e) (Some p) agent_certificate_ou"
    by (rule caller_cong) (simp add: frame key_eqs)
  with assms(4) have "caller (kvs e1) (Some p) agent_certificate_ou = Inr node" by simp
  from etcd_live.deregister_total [OF assms(1) e1(2) this assms(9)] e1 frame assms(8)
  show ?thesis by auto
qed

theorem deregister_undoes_register_witness:
  "\<exists>e1 e2. register store_etcd (Some agent_peer) sample_request sample_store = (Inr sample_spec, e1)
    \<and> deregister store_etcd (Some agent_peer) sample_deregister e1 = (Inr (), e2)
    \<and> store_kvs e2 (svc_key sample_node ''web'' ''c1'') = None"
  using deregister_undoes_register [OF etcd_ref_live sample_store_wf sample_empty sample_caller(1)
      sample_spec_filled sample_sizes(1,2) _ sample_sizes(3)]
  by (auto simp: sample_request_def sample_deregister_def service_keys_def)

text \<open>C18: \<^verbatim>\<open>Reset\<close> after \<^verbatim>\<open>Register\<close> ends the node's lease and removes exactly the keys attached to it,
  so the service is gone under both keys.\<close>
theorem reset_removes_registered:
  assumes "etcd_live E ok kvs leases" "ok e" "card (leases e) < 2 ^ 62"
    and "caller (kvs e) (Some p) agent_certificate_ou = Inr node"
    and "fill_addresses p (registered_spec node req) = Inr spec"
    and "length (lease_key (ns_datacenter node) (ns_name node)) < 2 ^ 17"
    and "txn_size (register_txn node req spec 0) < 2 ^ 20"
  shows "\<exists>e1 e2 l. register E (Some p) req e = (Inr spec, e1) \<and> reset E (Some p) e1 = (Inr (), e2)
    \<and> ok e2 \<and> l \<in> leases e1 \<and> leases e2 = leases e1 - {l} \<and> kvs e2 = drop_lease l (kvs e1)
    \<and> (\<forall>k \<in> service_keys node (reg_service req) (reg_instance req). kvs e2 k = None)"
proof -
  obtain e1 l where e1: "register E (Some p) req e = (Inr spec, e1)" "ok e1" "l \<in> leases e1"
    and lease: "lease_stored (kvs e1) (lease_key (ns_datacenter node) (ns_name node)) l"
    and keys: "\<forall>k \<in> service_keys node (reg_service req) (reg_instance req). holds_spec (kvs e1) k spec l"
    and frame: "\<forall>k. k \<notin> service_keys node (reg_service req) (reg_instance req) \<and>
        k \<noteq> lease_key (ns_datacenter node) (ns_name node) \<longrightarrow> kvs e1 k = kvs e k"
    using etcd_live.register_total [OF assms(1-4) refl assms(5-7)] by blast
  have "caller (kvs e1) (Some p) agent_certificate_ou = caller (kvs e) (Some p) agent_certificate_ou"
    by (rule caller_cong) (simp add: frame key_eqs)
  with assms(4) have "caller (kvs e1) (Some p) agent_certificate_ou = Inr node" by simp
  from etcd_live.reset_total [OF assms(1) e1(2) this] lease e1(3)
  obtain e2 where e2: "reset E (Some p) e1 = (Inr (), e2)" "ok e2" "leases e2 = leases e1 - {l}"
    "kvs e2 = drop_lease l (kvs e1)"
    by (auto simp: lease_stored_def)
  then have "\<forall>k \<in> service_keys node (reg_service req) (reg_instance req). kvs e2 k = None"
    using keys by (auto simp: drop_lease_def holds_spec_def)
  with e1 e2 show ?thesis by blast
qed

theorem reset_removes_registered_witness:
  "\<exists>e1 e2. register store_etcd (Some agent_peer) sample_request sample_store = (Inr sample_spec, e1)
    \<and> reset store_etcd (Some agent_peer) e1 = (Inr (), e2)
    \<and> store_kvs e2 (ds_svc_key sample_node ''web'' ''c1'') = None"
  using reset_removes_registered [OF etcd_ref_live sample_store_wf sample_empty sample_caller(1)
      sample_spec_filled sample_sizes(1,2)]
  by (auto simp: sample_request_def service_keys_def)

text \<open>A cluster in which the sample service is registered, with lease 7.\<close>

definition service_entry :: "string \<Rightarrow> string \<times> kv" where
  "service_entry k =
     (k, \<lparr>kv_key = k, kv_value = marshal_spec sample_spec, kv_create_rev = 2, kv_version = 1, kv_lease = 7\<rparr>)"

definition busy_store :: store where
  "busy_store = \<lparr>st_rev = 2,
     st_entries = [service_entry ''dcsvc/dc1/n1/web/c1'', node_entry sample_node, node_entry sample_observer,
       service_entry ''svc/web/eu/dc1/n1/c1''],
     st_leases = [7], st_members = []\<rparr>"

lemma busy_store_wf: "store_wf busy_store"
  by (simp add: store_wf_def busy_store_def keys_sorted_def entries_ok_def entry_ok_def node_entry_def
      service_entry_def Let_def sample_node_def sample_observer_def sample_node_keys)

lemmas busy_kvs = store_kvs_def busy_store_def sample_node_entries service_entry_def

lemma busy_stored:
  "stored_node (store_kvs busy_store) ''dc1'' ''n1'' = Inr (Some sample_node)"
  "stored_node (store_kvs busy_store) ''dc1'' ''p1'' = Inr (Some sample_observer)"
  using node_codec.dec_enc [OF sample_nodes_valid(1)] node_codec.dec_enc [OF sample_nodes_valid(2)]
  by (simp_all add: stored_node_def busy_kvs sample_node_keys)

lemma busy_caller:
  "caller (store_kvs busy_store) (Some agent_peer) agent_certificate_ou = Inr sample_node"
  "caller (store_kvs busy_store) (Some observer_peer) observer_certificate_ou = Inr sample_observer"
  by (simp_all add: caller_def extract_peer_certificate_def agent_peer_def observer_peer_def
      sample_peer_def sample_cert_def agent_certificate_ou_def observer_certificate_ou_def busy_stored)

lemma sample_spec_valid: "spec_valid sample_spec"
  by code_simp

lemma busy_matching:
  "matching (store_kvs busy_store) ''svc/web/'' = {''svc/web/eu/dc1/n1/c1''}"
  "matching (store_kvs busy_store) ''dcsvc/dc1/'' = {''dcsvc/dc1/n1/web/c1''}"
  by (auto simp: matching_def busy_kvs split: if_splits)

lemma busy_spec:
  "spec_at (store_kvs busy_store) ''svc/web/eu/dc1/n1/c1'' = Some sample_spec"
  "spec_at (store_kvs busy_store) ''dcsvc/dc1/n1/web/c1'' = Some sample_spec"
  using spec_codec.dec_enc [OF sample_spec_valid]
  by (simp_all add: spec_at_def busy_kvs)

definition sample_discover :: discover_request where
  "sample_discover = \<lparr>disc_service = ''web'', disc_location = None, disc_datacenter = None,
     disc_node = None, disc_instance = None\<rparr>"

text \<open>C7: \<^verbatim>\<open>Discover\<close> without an instance answers distinct stored services of the widest scope that the
  request leaves open, as many as there are up to three, whatever order Go ranges over its maps in;
  every narrower scope is served first, as fully as three answers allow.\<close>
theorem discover_widens:
  assumes "etcd_live E ok kvs leases" "ok e"
    and "caller (kvs e) ctx agent_certificate_ou = Inr node"
    and "\<And>n. map_order (ord n)" "disc_instance req = None"
    and "all_decode (kvs e) (''svc/'' @ disc_service req @ ''/'')"
  shows "\<exists>svcs e'. discover E ord ptr ctx req e = (Inr (map snd svcs), e') \<and> kvs e' = kvs e
    \<and> distinct (map fst svcs)
    \<and> (\<forall>x \<in> set svcs. fst x \<in> matching (kvs e) (last (search_levels node req)) \<and> spec_at (kvs e) (fst x) = Some (snd x))
    \<and> length svcs = min 3 (card (matching (kvs e) (last (search_levels node req))))
    \<and> (\<forall>p \<in> set (search_levels node req).
         min 3 (card (matching (kvs e) p)) \<le> card (fst ` set svcs \<inter> matching (kvs e) p))"
  using etcd_live.discover_total [OF assms] unfolding found_at_def gomap_ok_def by fast

theorem discover_widens_witness:
  "\<exists>e'. discover store_etcd (\<lambda>n. rev) ''0xc000012345'' (Some agent_peer) sample_discover busy_store =
    (Inr [sample_spec], e')"
proof -
  have none: "disc_instance sample_discover = None" by (simp add: sample_discover_def)
  have order: "map_order ((\<lambda>n. rev) n)" for n :: nat by (simp add: map_order_def)
  have decode: "all_decode (store_kvs busy_store) (''svc/'' @ disc_service sample_discover @ ''/'')"
    by (simp add: all_decode_def sample_discover_def busy_matching busy_spec)
  have wide: "last (search_levels sample_node sample_discover) = ''svc/web/''"
    by (simp add: search_levels_def discover_prefixes_def sample_discover_def)
  obtain svcs e' where d: "discover store_etcd (\<lambda>n. rev) ''0xc000012345'' (Some agent_peer) sample_discover busy_store =
      (Inr (map snd svcs), e')" "length svcs = 1"
    "\<forall>x \<in> set svcs. fst x = ''svc/web/eu/dc1/n1/c1'' \<and> spec_at (store_kvs busy_store) (fst x) = Some (snd x)"
    using discover_widens [OF etcd_ref_live busy_store_wf busy_caller(1) order none decode,
        of "''0xc000012345''"] unfolding wide busy_matching by auto
  then obtain x where "svcs = [x]" by (auto simp: length_Suc_conv)
  with d busy_spec(1) show ?thesis by auto
qed

text \<open>A \<^verbatim>\<open>Discover\<close> for one instance on one node searches for the text of a pointer: the answer is
  empty although the instance is registered, unless some key happens to continue with that text.\<close>
theorem discover_instance_missed:
  assumes "etcd_live E ok kvs leases" "ok e"
    and "caller (kvs e) ctx agent_certificate_ou = Inr node" "map_order (ord 3)"
    and "req = \<lparr>disc_service = s, disc_location = Some (ns_location target), disc_datacenter = Some (ns_datacenter target),
      disc_node = Some (ns_name target), disc_instance = Some inst\<rparr>"
    and "holds_spec (kvs e) (svc_key target s inst) spec l"
    and "ptr \<noteq> []" "of_char (last ptr) < (255 :: nat)"
    and "matching (kvs e) (svc_key target s ptr) = {}"
  shows "\<exists>e'. discover E ord ptr ctx req e = (Inr [], e')"
proof -
  obtain s' l' d n where pf: "discover_prefixes s (ns_location target) (ns_datacenter target) (ns_name target) = (s', l', d, n)"
    by (metis prod_cases4)
  then have n: "n @ ptr = svc_key target s ptr"
    by (auto simp: discover_prefixes_def Let_def svc_key_def key_path_def)
  obtain e1 where auth: "authenticate_agent E ctx e = (Inr node, e1)" and e1: "ok e1" "kvs e1 = kvs e"
    using etcd_live.authenticate_agent_total [OF assms(1,2), of ctx] assms(3) by metis
  have nonempty: "n @ ptr \<noteq> []" "of_char (last (n @ ptr)) < (255 :: nat)" using assms(7,8) by simp_all
  have "all_decode (kvs e1) (n @ ptr)" using assms(9) e1 n by (simp add: all_decode_def)
  then obtain svcs e2 where g: "get_service_internal E (n @ ptr) (int 1) e1 = (Inr svcs, e2)"
    and "found_at (kvs e1) (n @ ptr) 1 svcs"
    by (rule etcd_live.get_service_internal_total [OF assms(1) e1(1) nonempty, of 1]) simp_all
  then have "svcs = []" using assms(9) e1 n by (simp add: found_at_def)
  moreover have "ord 3 [] = []" using map_order_set [OF assms(4), of "[]"] by simp
  ultimately have "discover E ord ptr ctx req e = (Inr [], e2)"
    using auth g pf assms(5) by (simp add: discover_def widen_def)
  then show ?thesis by blast
qed

theorem discover_instance_missed_witness:
  "holds_spec (store_kvs busy_store) (svc_key sample_node ''web'' ''c1'') sample_spec 7 \<and>
   (\<exists>e'. discover store_etcd (\<lambda>n m. m) ''0xc000012345'' (Some agent_peer)
     \<lparr>disc_service = ''web'', disc_location = Some ''eu'', disc_datacenter = Some ''dc1'',
      disc_node = Some ''n1'', disc_instance = Some ''c1''\<rparr> busy_store = (Inr [], e'))"
proof -
  have held: "holds_spec (store_kvs busy_store) (svc_key sample_node ''web'' ''c1'') sample_spec 7"
    by (simp add: holds_spec_def sample_service_keys busy_kvs)
  have "svc_key sample_node ''web'' ''0xc000012345'' = ''svc/web/eu/dc1/n1/0xc000012345''" by code_simp
  then have "matching (store_kvs busy_store) (svc_key sample_node ''web'' ''0xc000012345'') = {}"
    by (auto simp: matching_def busy_kvs split: if_splits)
  with held show ?thesis
    using discover_instance_missed [OF etcd_ref_live busy_store_wf busy_caller(1), of "\<lambda>n m. m" _ "''web''" sample_node "''c1''" sample_spec 7 "''0xc000012345''"]
    by (simp add: map_order_def sample_node_def)
qed

text \<open>A caller that is not a stored node with an agent's certificate gets the authentication
  error from every agent handler, and nothing changes in the store.\<close>
theorem agent_handlers_refuse:
  assumes "etcd_live E ok kvs leases" "ok e" "caller (kvs e) ctx agent_certificate_ou = Inl err"
  shows "\<exists>e'. kvs e' = kvs e \<and> leases e' = leases e \<and> register E ctx req e = (Inl err, e')
    \<and> deregister E ctx dreq e = (Inl err, e') \<and> reset E ctx e = (Inl err, e')
    \<and> discover E ord ptr ctx sreq e = (Inl err, e')"
proof -
  obtain e' where "authenticate_agent E ctx e = (Inl err, e')" "kvs e' = kvs e" "leases e' = leases e"
    using etcd_live.authenticate_agent_total [OF assms(1,2), of ctx] assms(3) by metis
  then show ?thesis by (auto simp: register_def deregister_def reset_def discover_def)
qed

theorem agent_handlers_refuse_witness:
  "\<exists>e'. store_kvs e' = store_kvs sample_store
    \<and> register store_etcd (Some observer_peer) sample_request sample_store = (Inl auth_failure, e')"
proof -
  have "caller (store_kvs sample_store) (Some observer_peer) agent_certificate_ou = Inl auth_failure"
    by (simp add: caller_def extract_peer_certificate_def observer_peer_def sample_peer_def sample_cert_def
        agent_certificate_ou_def sample_stored)
  from agent_handlers_refuse [OF etcd_ref_live sample_store_wf this] show ?thesis by blast
qed

end
