(* ===== verification/ObserverApi.thy ===== *)
theory ObserverApi
  imports AgentApi
begin

text \<open>
  registry/agent_api/observer.go: what observers, such as the Prometheus service discovery, call:
  the services of their datacenter at one moment, and the stream of changes to them.
\<close>

definition dc_prefix :: "string \<Rightarrow> string" where
  "dc_prefix dc = ''dcsvc/'' @ dc @ ''/''"

section \<open>\<^verbatim>\<open>GetDatacenterServices\<close>\<close>

text \<open>A stored \<^verbatim>\<open>null\<close> leaves a nil entry in the answer, as \<^verbatim>\<open>json.Unmarshal\<close> into a pointer does.\<close>

definition get_datacenter_services ::
  "'e etcd \<Rightarrow> rpc_peer option \<Rightarrow> 'e \<Rightarrow> service_spec option list outcome \<times> 'e" where
  "get_datacenter_services E ctx e =
     (case authenticate_observer E ctx e of
        (Inl err, e) \<Rightarrow> (Inl err, e)
      | (Inr node, e) \<Rightarrow>
          (case etcd_range E e (prefix_request (dc_prefix (ns_datacenter node)) 0) of
             (Inl _, e) \<Rightarrow> (Inl server_error, e)
           | (Inr ks, e) \<Rightarrow>
               (case those (map (\<lambda>kv. unmarshal_spec_ptr (kv_value kv)) ks) of
                  None \<Rightarrow> (Inl server_error, e)
                | Some svcs \<Rightarrow> (Inr svcs, e))))"

section \<open>\<^verbatim>\<open>WatchDatacenterServices\<close>\<close>

datatype event = PutEvent string string | DeleteEvent string

definition event_message :: "event \<Rightarrow> watch_response outcome" where
  "event_message ev =
     (case ev of
        PutEvent key val \<Rightarrow>
          (case unmarshal_spec val of
             None \<Rightarrow> Inl server_error
           | Some svc \<Rightarrow> Inr (WatchUpdate svc))
      | DeleteEvent key \<Rightarrow>
          (let parts = split_on (CHR ''/'') key; n = length parts in
           if n < 3 then Inl server_error
           else Inr (WatchDelete \<lparr>wd_service_name = parts ! (n - 2), wd_node = parts ! (n - 3),
                                  wd_instance = parts ! (n - 1)\<rparr>)))"

text \<open>
  The loop over the events of the watch channel: the messages that reached the client and how it
  ended. \<open>send n\<close> says whether the n-th \<^verbatim>\<open>stream.Send\<close> succeeds; without a failure the loop ends only
  when the client goes away, after all the events that came before.
\<close>

fun watch_loop :: "(nat \<Rightarrow> bool) \<Rightarrow> nat \<Rightarrow> event list \<Rightarrow> watch_response list \<times> unit outcome" where
  "watch_loop send n [] = ([], Inr ())"
| "watch_loop send n (ev # evs) =
     (case event_message ev of
        Inl err \<Rightarrow> ([], Inl err)
      | Inr msg \<Rightarrow>
          if send n then (let (msgs, res) = watch_loop send (Suc n) evs in (msg # msgs, res))
          else ([], Inl server_error))"

text \<open>\<open>events e prefix end\<close> is what the watch on the key range yields from now on.\<close>

definition watch_datacenter_services ::
  "'e etcd \<Rightarrow> ('e \<Rightarrow> range_request \<Rightarrow> event list) \<Rightarrow> (nat \<Rightarrow> bool) \<Rightarrow> rpc_peer option \<Rightarrow> 'e \<Rightarrow>
   (watch_response list \<times> unit outcome) \<times> 'e" where
  "watch_datacenter_services E events send ctx e =
     (case authenticate_observer E ctx e of
        (Inl err, e) \<Rightarrow> (([], Inl err), e)
      | (Inr node, e) \<Rightarrow>
          (watch_loop send 0 (events e (prefix_request (dc_prefix (ns_datacenter node)) 0)), e))"

section \<open>What observers see\<close>

lemma split_on_append_sep: "split_on c (x @ c # y) = split_on c x @ split_on c y"
proof (induction x)
  case (Cons a x)
  then show ?case by (cases "split_on c x") (auto simp: split_on_not_Nil)
qed simp

lemma event_message_delete:
  assumes "slash_free name" "slash_free s" "slash_free i"
  shows "event_message (DeleteEvent (p @ CHR ''/'' # key_path [name, s, i])) =
    Inr (WatchDelete \<lparr>wd_service_name = s, wd_node = name, wd_instance = i\<rparr>)"
proof -
  have "split_on (CHR ''/'') (key_path [name, s, i]) = [name, s, i]"
    using assms by (intro key_path_split) simp_all
  then have parts: "split_on (CHR ''/'') (p @ CHR ''/'' # key_path [name, s, i]) =
      split_on (CHR ''/'') p @ [name, s, i]"
    by (simp add: split_on_append_sep)
  show ?thesis by (simp add: event_message_def parts nth_append Let_def del: split_on.simps)
qed

lemma those_map_Some: "(\<forall>x \<in> set xs. f x \<noteq> None) \<Longrightarrow> those (map f xs) = Some (map (\<lambda>x. the (f x)) xs)"
  by (induction xs) auto

text \<open>Every value under a prefix decodes into a pointer.\<close>

definition all_decode_ptr :: "(string \<rightharpoonup> kv) \<Rightarrow> string \<Rightarrow> bool" where
  "all_decode_ptr m p \<longleftrightarrow> (\<forall>k \<in> matching m p. unmarshal_spec_ptr (kv_value (the (m k))) \<noteq> None)"

lemma dc_prefix_byte: "dc_prefix dc \<noteq> []" "of_char (last (dc_prefix dc)) < (255 :: nat)"
  by (simp_all add: dc_prefix_def)

context etcd_live
begin

lemma get_datacenter_services_total:
  assumes "wf e" "caller (kvs e) ctx observer_certificate_ou = Inr node"
    "all_decode_ptr (kvs e) (dc_prefix (ns_datacenter node))"
  shows "\<exists>e'. get_datacenter_services E ctx e =
      (Inr (map (\<lambda>k. the (unmarshal_spec_ptr (kv_value (the (kvs e k)))))
        (sorted_list_of_set (matching (kvs e) (dc_prefix (ns_datacenter node))))), e')
    \<and> wf e' \<and> kvs e' = kvs e \<and> leases e' = leases e"
proof -
  let ?r = "prefix_request (dc_prefix (ns_datacenter node)) 0"
  let ?S = "matching (kvs e) (dc_prefix (ns_datacenter node))"
  obtain e1 where auth: "authenticate_observer E ctx e = (Inr node, e1)"
    and e1: "wf e1" "kvs e1 = kvs e" "leases e1 = leases e"
    using authenticate_node_total [OF assms(1), of ctx observer_certificate_ou] assms(2)
    unfolding authenticate_observer_def by metis
  obtain e2 where rg: "etcd_range E e1 ?r = (Inr (range_kvs (kvs e1) ?r), e2)"
    and e2: "wf e2" "kvs e2 = kvs e1" "leases e2 = leases e1"
    by (rule range_total [OF e1(1)])
  have S: "{k \<in> dom (kvs e). in_key_range ?r k} = ?S"
    using in_prefix_range [OF dc_prefix_byte] by (auto simp: matching_def)
  then have rk: "range_kvs (kvs e1) ?r = map (\<lambda>k. the (kvs e k)) (sorted_list_of_set ?S)"
    using e1 by (simp add: range_kvs_limit limit_to_def prefix_request_def)
  have "finite ?S" using finite_kvs [OF assms(1)] by (simp add: matching_def)
  then have "those (map (\<lambda>kv. unmarshal_spec_ptr (kv_value kv)) (range_kvs (kvs e1) ?r)) =
      Some (map (\<lambda>k. the (unmarshal_spec_ptr (kv_value (the (kvs e k))))) (sorted_list_of_set ?S))"
    using assms(3) by (simp add: rk all_decode_ptr_def comp_def those_map_Some)
  with auth rg e1 e2 show ?thesis by (auto simp: get_datacenter_services_def)
qed

end

section \<open>Properties\<close>

text \<open>An observer of the same datacenter sees a service as soon as its registration has been
  answered: \<^verbatim>\<open>GetDatacenterServices\<close> lists exactly the values under the datacenter's prefix, one per
  key, and the new specification is among them as it was answered.\<close>
theorem observer_sees_registered:
  assumes "etcd_live E ok kvs leases" "ok e" "card (leases e) < 2 ^ 62"
    and "caller (kvs e) (Some p) agent_certificate_ou = Inr node"
    and "fill_addresses p (registered_spec node req) = Inr spec"
    and "length (lease_key (ns_datacenter node) (ns_name node)) < 2 ^ 17"
    and "txn_size (register_txn node req spec 0) < 2 ^ 20"
    and "caller (kvs e) octx observer_certificate_ou = Inr obs" "ns_datacenter obs = ns_datacenter node"
    and "spec_valid spec" "all_decode_ptr (kvs e) (dc_prefix (ns_datacenter node))"
  shows "\<exists>e1 svcs e2. register E (Some p) req e = (Inr spec, e1)
    \<and> get_datacenter_services E octx e1 = (Inr svcs, e2)
    \<and> Some spec \<in> set svcs \<and> length svcs = card (matching (kvs e1) (dc_prefix (ns_datacenter node)))"
proof -
  let ?p = "dc_prefix (ns_datacenter node)" and ?k = "ds_svc_key node (reg_service req) (reg_instance req)"
  obtain e1 l where e1: "register E (Some p) req e = (Inr spec, e1)" "ok e1"
    and keys: "\<forall>k \<in> service_keys node (reg_service req) (reg_instance req). holds_spec (kvs e1) k spec l"
    and frame: "\<forall>k. k \<notin> service_keys node (reg_service req) (reg_instance req) \<and>
        k \<noteq> lease_key (ns_datacenter node) (ns_name node) \<longrightarrow> kvs e1 k = kvs e k"
    using etcd_live.register_total [OF assms(1-4) refl assms(5-7)] by blast
  have "caller (kvs e1) octx observer_certificate_ou = caller (kvs e) octx observer_certificate_ou"
    by (rule caller_cong) (simp add: frame key_eqs)
  with assms(8) have obs: "caller (kvs e1) octx observer_certificate_ou = Inr obs" by simp
  have spec: "unmarshal_spec_ptr (marshal_spec spec) = Some (Some spec)"
    by (rule unmarshal_marshal_spec(2) [OF assms(10)])
  have no_lease: "\<not> prefix ?p (lease_key a b)" for a b
    by (simp add: dc_prefix_def lease_key_def key_path_two)
  have decode: "all_decode_ptr (kvs e1) (dc_prefix (ns_datacenter obs))"
    unfolding all_decode_ptr_def assms(9)
  proof
    fix k assume k: "k \<in> matching (kvs e1) ?p"
    show "unmarshal_spec_ptr (kv_value (the (kvs e1 k))) \<noteq> None"
    proof (cases "k \<in> service_keys node (reg_service req) (reg_instance req)")
      case True
      then show ?thesis using keys spec by (auto simp: holds_spec_def)
    next
      case False
      then have "kvs e1 k = kvs e k" using frame k no_lease by (auto simp: matching_def)
      moreover have "k \<in> matching (kvs e) ?p" using k calculation by (simp add: matching_def domIff)
      ultimately show ?thesis using assms(11) by (simp add: all_decode_ptr_def)
    qed
  qed
  from etcd_live.get_datacenter_services_total [OF assms(1) e1(2) obs decode] assms(9)
  obtain e2 where e2: "get_datacenter_services E octx e1 =
      (Inr (map (\<lambda>k. the (unmarshal_spec_ptr (kv_value (the (kvs e1 k))))) (sorted_list_of_set (matching (kvs e1) ?p))), e2)"
    by auto
  have fin: "finite (matching (kvs e1) ?p)"
    using etcd_store.finite_kvs [OF etcd_live.axioms(1) [OF assms(1)] e1(2)] by (simp add: matching_def)
  have k: "holds_spec (kvs e1) ?k spec l" using keys by (simp add: service_keys_def)
  then have "?k \<in> matching (kvs e1) ?p"
    by (auto simp: matching_def holds_spec_def dc_prefix_def ds_svc_key_def key_path_two)
  moreover have "the (unmarshal_spec_ptr (kv_value (the (kvs e1 ?k)))) = Some spec"
    using k spec by (auto simp: holds_spec_def)
  ultimately show ?thesis using e1(1) e2 fin by (force simp: image_iff)
qed

theorem observer_sees_registered_witness:
  "\<exists>e1 svcs e2. register store_etcd (Some agent_peer) sample_request sample_store = (Inr sample_spec, e1)
    \<and> get_datacenter_services store_etcd (Some observer_peer) e1 = (Inr svcs, e2) \<and> Some sample_spec \<in> set svcs"
proof -
  have "matching (store_kvs sample_store) (dc_prefix (ns_datacenter sample_node)) = {}"
    by (auto simp: matching_def dc_prefix_def store_kvs_def sample_store_def sample_node_entries split: if_splits)
  then have "all_decode_ptr (store_kvs sample_store) (dc_prefix (ns_datacenter sample_node))"
    by (simp add: all_decode_ptr_def)
  moreover have "ns_datacenter sample_observer = ns_datacenter sample_node"
    by (simp add: sample_node_def sample_observer_def)
  ultimately show ?thesis
    using observer_sees_registered [OF etcd_ref_live sample_store_wf sample_empty sample_caller(1)
        sample_spec_filled sample_sizes(1,2) sample_caller(2) _ sample_spec_valid]
    by blast
qed

text \<open>The message for a deleted key names the node, the service and the instance that the key was
  built from, whatever characters the datacenter has, as long as those three have no slash.\<close>
theorem watch_delete_names_service:
  assumes "slash_free (ns_name node)" "slash_free s" "slash_free i"
  shows "event_message (DeleteEvent (ds_svc_key node s i)) =
    Inr (WatchDelete \<lparr>wd_service_name = s, wd_node = ns_name node, wd_instance = i\<rparr>)"
  using event_message_delete [OF assms, of "''dcsvc/'' @ ns_datacenter node"]
  by (simp add: ds_svc_key_def key_path_two)

theorem watch_delete_names_service_witness:
  "event_message (DeleteEvent (ds_svc_key sample_node ''web'' ''c1'')) =
    Inr (WatchDelete \<lparr>wd_service_name = ''web'', wd_node = ''n1'', wd_instance = ''c1''\<rparr>)"
proof -
  have "slash_free (ns_name sample_node)" "slash_free ''web''" "slash_free ''c1''"
    by (simp_all add: sample_node_def slash_free_def)
  from watch_delete_names_service [OF this] show ?thesis by (simp add: sample_node_def)
qed

lemma watch_loop_messages:
  "\<exists>n \<le> length evs. map Inr (fst (watch_loop send i evs)) = map event_message (take n evs)
    \<and> (snd (watch_loop send i evs) = Inr () \<longleftrightarrow> n = length evs)"
proof (induction send i evs rule: watch_loop.induct)
  case (1 send i)
  then show ?case by simp
next
  case (2 send i ev evs)
  show ?case
  proof (cases "event_message ev")
    case (Inl err)
    then show ?thesis by (intro exI [of _ 0]) simp
  next
    case (Inr msg)
    show ?thesis
    proof (cases "send i")
      case True
      from 2 [OF Inr True] obtain n where "n \<le> length evs"
        "map Inr (fst (watch_loop send (Suc i) evs)) = map event_message (take n evs)"
        "snd (watch_loop send (Suc i) evs) = Inr () \<longleftrightarrow> n = length evs" by auto
      with Inr True show ?thesis
        by (intro exI [of _ "Suc n"]) (simp add: split_beta Let_def)
    next
      case False
      with Inr show ?thesis by (intro exI [of _ 0]) simp
    qed
  qed
qed

text \<open>An observer's watch delivers, in order and without a gap, the messages of a first part of the
  events; it ends without an error exactly when that part is all of them.\<close>
theorem watch_delivers_in_order:
  assumes "etcd_live E ok kvs leases" "ok e" "caller (kvs e) ctx observer_certificate_ou = Inr node"
  shows "\<exists>e1 msgs res n. watch_datacenter_services E events send ctx e = ((msgs, res), e1)
    \<and> map Inr msgs = map event_message (take n (events e1 (prefix_request (dc_prefix (ns_datacenter node)) 0)))
    \<and> (res = Inr () \<longleftrightarrow> n = length (events e1 (prefix_request (dc_prefix (ns_datacenter node)) 0)))"
proof -
  obtain e1 where auth: "authenticate_observer E ctx e = (Inr node, e1)"
    using etcd_live.authenticate_node_total [OF assms(1,2), of ctx observer_certificate_ou] assms(3)
    unfolding authenticate_observer_def by metis
  let ?evs = "events e1 (prefix_request (dc_prefix (ns_datacenter node)) 0)"
  obtain n where "map Inr (fst (watch_loop send 0 ?evs)) = map event_message (take n ?evs)"
    "snd (watch_loop send 0 ?evs) = Inr () \<longleftrightarrow> n = length ?evs"
    using watch_loop_messages [of ?evs send 0] by blast
  with auth show ?thesis
    by (intro exI [of _ e1] exI [of _ "fst (watch_loop send 0 ?evs)"]
        exI [of _ "snd (watch_loop send 0 ?evs)"] exI [of _ n]) (simp add: watch_datacenter_services_def)
qed

theorem watch_delivers_in_order_witness:
  "\<exists>e1 msgs res. watch_datacenter_services store_etcd (\<lambda>e r. [DeleteEvent ''dcsvc/dc1/n1/web/c1''])
    (\<lambda>n. True) (Some observer_peer) sample_store = ((msgs, res), e1)
    \<and> (res = Inr () \<longrightarrow> map Inr msgs = [event_message (DeleteEvent ''dcsvc/dc1/n1/web/c1'')])"
  using watch_delivers_in_order [OF etcd_ref_live sample_store_wf sample_caller(2),
      of "\<lambda>e r. [DeleteEvent ''dcsvc/dc1/n1/web/c1'']" "\<lambda>n. True"]
  by fastforce

end
