(* ===== verification/PeerApi.thy ===== *)
theory PeerApi
  imports Sample
begin

text \<open>
  registry/peer_api/peer_api.go: what the other registries and the administration tool call. A
  registry joins with \<^verbatim>\<open>AddSelfPeer\<close> and reads the members with \<^verbatim>\<open>GetPeers\<close>; \<^verbatim>\<open>AddNode\<close> stores a new
  node once and issues its certificate, \<^verbatim>\<open>GetNodeCredentials\<close> issues another one for a stored node.
\<close>

definition missing_advertise_url_error :: fault where
  "missing_advertise_url_error = Status InvalidArgument ''At least one advertised URL must be set''"

definition invalid_advertise_url_error :: fault where
  "invalid_advertise_url_error = Status InvalidArgument ''Advertise url is not a valid url''"

definition agent_already_exists_error :: fault where
  "agent_already_exists_error = Status AlreadyExists ''Agent already exists''"

section \<open>Members of the cluster\<close>

definition peer_of_member :: "member \<Rightarrow> peer" where
  "peer_of_member m =
     \<lparr>peer_id = show_nat (unat (mem_id m)), peer_name = mem_name m,
      peer_urls = mem_peer_urls m, client_urls = mem_client_urls m\<rparr>"

definition get_peers :: "'e etcd \<Rightarrow> 'e \<Rightarrow> peer list outcome \<times> 'e" where
  "get_peers E e = (Inr (map peer_of_member (etcd_members E e)), e)"

text \<open>\<open>parse_url\<close> is \<^verbatim>\<open>url.Parse\<close> followed by \<^verbatim>\<open>String\<close>, which is how etcd stores a member's URLs.\<close>

fun parse_urls :: "(string \<Rightarrow> string option) \<Rightarrow> string list \<Rightarrow> string list option" where
  "parse_urls parse_url [] = Some []"
| "parse_urls parse_url (a # as) =
     (case parse_url a of
        None \<Rightarrow> None
      | Some u \<Rightarrow> map_option ((#) u) (parse_urls parse_url as))"

definition add_self_peer ::
  "'e etcd \<Rightarrow> (string \<Rightarrow> string option) \<Rightarrow> rpc_peer option \<Rightarrow> string list \<Rightarrow> 'e \<Rightarrow> unit outcome \<times> 'e" where
  "add_self_peer E parse_url ctx advertised e =
     (if advertised = [] then (Inl missing_advertise_url_error, e)
      else
        (case extract_peer_certificate ctx of
           Inl _ \<Rightarrow> (Inl auth_failure, e)
         | Inr cert \<Rightarrow>
             (case parse_urls parse_url advertised of
                None \<Rightarrow> (Inl invalid_advertise_url_error, e)
              | Some urls \<Rightarrow>
                  (case etcd_add_member E e (pn_cn (crt_subject cert)) urls of
                     (Inl _, e) \<Rightarrow> (Inl server_error, e)
                   | (Inr _, e) \<Rightarrow> (Inr (), e)))))"

section \<open>Nodes\<close>

definition role_of :: "node_type \<Rightarrow> string" where
  "role_of t = (case t of AGENT \<Rightarrow> agent_certificate_ou | OBSERVER \<Rightarrow> observer_certificate_ou)"

definition requested_node :: "add_node_request \<Rightarrow> node_schema" where
  "requested_node req =
     \<lparr>ns_name = an_name req, ns_datacenter = an_datacenter req, ns_location = an_location req,
      ns_type = role_of (an_node_type req)\<rparr>"

definition add_node_txn :: "add_node_request \<Rightarrow> txn_request" where
  "add_node_txn req =
     (let key = node_key (an_datacenter req) (an_name req) in
      \<lparr>txn_compare = [CompareCreate key 0],
       txn_success = [PutOp key (marshal_node (requested_node req)) 0]\<rparr>)"

text \<open>The node is in the store before its certificate is made.\<close>

definition add_node ::
  "'e etcd \<Rightarrow> state \<Rightarrow> string \<Rightarrow> int \<Rightarrow> add_node_request \<Rightarrow> 'e \<Rightarrow> (blob \<times> blob) outcome \<times> 'e" where
  "add_node E st seed now req e =
     (case etcd_txn E e (add_node_txn req) of
        (Inl _, e) \<Rightarrow> (Inl server_error, e)
      | (Inr False, e) \<Rightarrow> (Inl agent_already_exists_error, e)
      | (Inr True, e) \<Rightarrow>
          (create_node_crt seed now st (an_datacenter req) (an_name req) (role_of (an_node_type req)), e))"

text \<open>The nil node of an unknown name is used without a check.\<close>

definition get_node_credentials ::
  "'e etcd \<Rightarrow> state \<Rightarrow> string \<Rightarrow> int \<Rightarrow> credentials_request \<Rightarrow> 'e \<Rightarrow> (blob \<times> blob) outcome \<times> 'e" where
  "get_node_credentials E st seed now req e =
     (case get_node_schema E (gc_datacenter req) (gc_name req) e of
        (Inl _, e) \<Rightarrow> (Inl server_error, e)
      | (Inr None, e) \<Rightarrow> (Inl (Panic ''nil pointer dereference''), e)
      | (Inr (Some node), e) \<Rightarrow>
          (create_node_crt seed now st (ns_datacenter node) (ns_name node) (ns_type node), e))"

section \<open>Certificates of nodes\<close>

text \<open>The caller that presents a certificate made by \<^verbatim>\<open>CreateNodeCrt\<close>.\<close>

lemma create_node_crt_ok:
  assumes "utf8_valid dc" "utf8_valid name" "utf8_valid role"
  obtains c where "create_node_crt seed now st dc name role = Inr (CertPem c, KeyPem (EdPrivate seed))"
    "crt_subject c = \<lparr>pn_organization = ssle_organization, pn_ou = der_sorted [role, dc], pn_cn = name\<rparr>"
    "crt_issuer c = crt_subject (kp_leaf (st_agent_ca st))"
    "crt_signer c = public_of (kp_private (st_agent_ca st))"
    "crt_public c = EdPublic seed" "crt_ext_usage c = [ClientAuth]"
    "crt_not_before c = whole_second now" "crt_not_after c = whole_second (now + node_certificate_expiry)"
proof -
  have "utf8_valid ''SSLE Project 01''" by (rule utf8_valid_ascii) simp
  then show thesis
    using assms that by (simp add: create_node_crt_def create_certificate_def name_encodes_def
        ssle_organization_def Let_def)
qed

lemma create_node_crt_panics:
  assumes "\<not> utf8_valid dc \<or> \<not> utf8_valid name \<or> \<not> utf8_valid role"
  shows "is_panic (create_node_crt seed now st dc name role)"
  using assms by (auto simp: create_node_crt_def create_certificate_def name_encodes_def Let_def)

lemma role_utf8: "utf8_valid agent_certificate_ou" "utf8_valid observer_certificate_ou"
  unfolding agent_certificate_ou_def observer_certificate_ou_def
  by (rule utf8_valid_ascii, simp)+

lemma role_of_cases: "role_of t \<in> {agent_certificate_ou, observer_certificate_ou}"
  by (cases t) (auto simp: role_of_def)

text \<open>The units of the certificate, in the order the registry reads them back.\<close>

lemma units_short_datacenter:
  "length dc < length role \<Longrightarrow> length role < 100 \<Longrightarrow> der_sorted [role, dc] = [dc, role]"
  by (rule der_sorted_shorter_last) simp_all

lemma units_long_datacenter:
  "length role < length dc \<Longrightarrow> length role < 100 \<Longrightarrow> length dc < 2 ^ 60 \<Longrightarrow> der_sorted [role, dc] = [role, dc]"
  by (rule der_sorted_longer_last)

text \<open>A caller with such a certificate is the stored node, whatever else the connection is.\<close>

definition presents :: "rpc_peer option \<Rightarrow> certificate \<Rightarrow> bool" where
  "presents ctx c \<longleftrightarrow> extract_peer_certificate ctx = Inr c"

lemma caller_with_units:
  assumes "presents ctx c" "pn_ou (crt_subject c) = [dc, role]" "pn_cn (crt_subject c) = name"
    "stored_node m dc name = Inr (Some node)"
  shows "caller m ctx role = Inr node"
  using assms by (simp add: presents_def caller_def)

lemma caller_wrong_units:
  assumes "presents ctx c" "pn_ou (crt_subject c) = [a, b]" "b \<noteq> role"
  shows "caller m ctx role = Inl auth_failure"
  using assms by (auto simp: presents_def caller_def split: sum.split option.split)

context etcd_live
begin

lemma add_node_new:
  assumes "wf e" "kvs e (node_key (an_datacenter req) (an_name req)) = None"
    "node_valid (requested_node req)" "txn_size (add_node_txn req) < 2 ^ 20"
  shows "\<exists>e' x. add_node E st seed now req e =
      (create_node_crt seed now st (an_datacenter req) (an_name req) (role_of (an_node_type req)), e')
    \<and> wf e' \<and> leases e' = leases e \<and> kvs e' = (kvs e)(node_key (an_datacenter req) (an_name req) \<mapsto> x)
    \<and> kv_lease x = 0 \<and> unmarshal_node (kv_value x) = Some (requested_node req)"
proof -
  let ?key = "node_key (an_datacenter req) (an_name req)"
  obtain b e1 where tx: "etcd_txn E e (add_node_txn req) = (Inr b, e1)"
    using txn_returns [OF assms(1), of "add_node_txn req"] assms(4) by (auto simp: add_node_txn_def Let_def)
  have b: "b" using txn_result [OF assms(1) tx] assms(2) by (simp add: add_node_txn_def compare_holds_def Let_def)
  obtain rv where "kvs e1 = fold (apply_op rv) (txn_success (add_node_txn req)) (kvs e)"
    using txn_effect [OF assms(1) tx] b by auto
  then have "kvs e1 = (kvs e)(?key \<mapsto> put_entry rv ?key (marshal_node (requested_node req)) 0 (kvs e ?key))"
    by (simp add: add_node_txn_def Let_def)
  then show ?thesis
    using tx b txn_frame [OF assms(1) tx] assms(3) node_codec.dec_enc
    by (auto simp: add_node_def put_entry_def split: option.split)
qed

lemma add_node_again:
  assumes "wf e" "kvs e (node_key (an_datacenter req) (an_name req)) \<noteq> None"
    "txn_size (add_node_txn req) < 2 ^ 20"
  shows "\<exists>e'. add_node E st seed now req e = (Inl agent_already_exists_error, e')
    \<and> wf e' \<and> leases e' = leases e \<and> kvs e' = kvs e"
proof -
  obtain b e1 where tx: "etcd_txn E e (add_node_txn req) = (Inr b, e1)"
    using txn_returns [OF assms(1), of "add_node_txn req"] assms(3) by (auto simp: add_node_txn_def Let_def)
  obtain x where x: "kvs e (node_key (an_datacenter req) (an_name req)) = Some x" using assms(2) by auto
  then have "0 < kv_create_rev x" using entries [OF assms(1)] by (auto simp: entry_ok_def)
  with x have b: "\<not> b" using txn_result [OF assms(1) tx]
    by (simp add: add_node_txn_def compare_holds_def Let_def)
  then show ?thesis
    using tx txn_frame [OF assms(1) tx] txn_effect [OF assms(1) tx]
    by (auto simp: add_node_def)
qed

lemma get_node_credentials_total:
  assumes "wf e"
  obtains e' where "get_node_credentials E st seed now req e =
      (case stored_node (kvs e) (gc_datacenter req) (gc_name req) of
         Inl _ \<Rightarrow> Inl server_error
       | Inr None \<Rightarrow> Inl (Panic ''nil pointer dereference'')
       | Inr (Some node) \<Rightarrow> create_node_crt seed now st (ns_datacenter node) (ns_name node) (ns_type node), e')"
    "wf e'" "kvs e' = kvs e" "leases e' = leases e"
proof -
  obtain e' where "get_node_schema E (gc_datacenter req) (gc_name req) e =
      (stored_node (kvs e) (gc_datacenter req) (gc_name req), e')"
    and e': "wf e'" "kvs e' = kvs e" "leases e' = leases e"
    by (rule get_node_schema_total [OF assms])
  then show thesis
    by (intro that [of e']) (auto simp: get_node_credentials_def split: sum.splits option.splits)
qed

end

section \<open>Properties\<close>

definition sample_add :: "string \<Rightarrow> add_node_request" where
  "sample_add dc = \<lparr>an_name = ''n2'', an_datacenter = dc, an_location = ''eu'', an_node_type = AGENT\<rparr>"

lemma node_entries_n2:
  "store_kvs sample_store (node_key ''dc1'' ''n2'') = None"
  "store_kvs sample_store (node_key ''lisbon1'' ''n2'') = None"
proof -
  have "node_key ''dc1'' ''n2'' = ''nodes/dc1/n2''" "node_key ''lisbon1'' ''n2'' = ''nodes/lisbon1/n2''"
    by code_simp+
  then show "store_kvs sample_store (node_key ''dc1'' ''n2'') = None"
    "store_kvs sample_store (node_key ''lisbon1'' ''n2'') = None"
    by (simp_all add: store_kvs_def sample_store_def sample_node_entries)
qed

lemma sample_add_valid: "node_valid (requested_node (sample_add ''dc1''))"
  "node_valid (requested_node (sample_add ''lisbon1''))"
  by code_simp+

lemma sample_add_size: "txn_size (add_node_txn (sample_add ''dc1'')) < 2 ^ 20"
  "txn_size (add_node_txn (sample_add ''lisbon1'')) < 2 ^ 20"
proof -
  have "txn_size (add_node_txn (sample_add ''dc1'')) = 80"
    "txn_size (add_node_txn (sample_add ''lisbon1'')) = 92" by code_simp+
  then show "txn_size (add_node_txn (sample_add ''dc1'')) < 2 ^ 20"
    "txn_size (add_node_txn (sample_add ''lisbon1'')) < 2 ^ 20" by simp_all
qed

lemma stored_after_put:
  "unmarshal_node (kv_value x) = Some node \<Longrightarrow> stored_node (m(node_key dc name \<mapsto> x)) dc name = Inr (Some node)"
  by (simp add: stored_node_def)

text \<open>What \<^verbatim>\<open>AddNode\<close> answers for a name that is free, with the units in the order DER gives them.\<close>

lemma add_node_issues:
  assumes "etcd_live E ok kvs leases" "ok e"
    and "kvs e (node_key (an_datacenter req) (an_name req)) = None"
    and "node_valid (requested_node req)" "txn_size (add_node_txn req) < 2 ^ 20"
  obtains e' c where "add_node E st seed now req e = (Inr (CertPem c, KeyPem (EdPrivate seed)), e')"
    "pn_ou (crt_subject c) = der_sorted [role_of (an_node_type req), an_datacenter req]"
    "pn_cn (crt_subject c) = an_name req" "ok e'"
    "stored_node (kvs e') (an_datacenter req) (an_name req) = Inr (Some (requested_node req))"
    "\<And>k. k \<noteq> node_key (an_datacenter req) (an_name req) \<Longrightarrow> kvs e' k = kvs e k"
proof -
  have "utf8_valid (an_datacenter req)" "utf8_valid (an_name req)" "utf8_valid (role_of (an_node_type req))"
    using assms(4) role_utf8 by (auto simp: node_valid_def requested_node_def role_of_def split: node_type.split)
  then obtain c where c: "create_node_crt seed now st (an_datacenter req) (an_name req) (role_of (an_node_type req)) =
      Inr (CertPem c, KeyPem (EdPrivate seed))"
    "crt_subject c = \<lparr>pn_organization = ssle_organization,
       pn_ou = der_sorted [role_of (an_node_type req), an_datacenter req], pn_cn = an_name req\<rparr>"
    by (rule create_node_crt_ok)
  obtain e' x where "add_node E st seed now req e =
      (create_node_crt seed now st (an_datacenter req) (an_name req) (role_of (an_node_type req)), e')"
    "ok e'" "kvs e' = (kvs e)(node_key (an_datacenter req) (an_name req) \<mapsto> x)"
    "unmarshal_node (kv_value x) = Some (requested_node req)"
    using etcd_live.add_node_new [OF assms(1-5), of st seed now] by blast
  with c show thesis by (intro that [of c e']) (auto intro: stored_after_put)
qed

lemma add_node_authenticates:
  assumes "etcd_live E ok kvs leases" "ok e"
    and "kvs e (node_key (an_datacenter req) (an_name req)) = None"
    and "node_valid (requested_node req)" "txn_size (add_node_txn req) < 2 ^ 20"
    and "length (an_datacenter req) < length (role_of (an_node_type req))"
  shows "\<exists>e' c. add_node E st seed now req e = (Inr (CertPem c, KeyPem (EdPrivate seed)), e')
    \<and> (\<forall>ctx. presents ctx c \<longrightarrow> caller (kvs e') ctx (role_of (an_node_type req)) = Inr (requested_node req))
    \<and> (\<forall>k. k \<noteq> node_key (an_datacenter req) (an_name req) \<longrightarrow> kvs e' k = kvs e k)"
proof -
  obtain e' c where a: "add_node E st seed now req e = (Inr (CertPem c, KeyPem (EdPrivate seed)), e')"
    and c: "pn_ou (crt_subject c) = der_sorted [role_of (an_node_type req), an_datacenter req]"
      "pn_cn (crt_subject c) = an_name req"
    and s: "stored_node (kvs e') (an_datacenter req) (an_name req) = Inr (Some (requested_node req))"
      "\<And>k. k \<noteq> node_key (an_datacenter req) (an_name req) \<Longrightarrow> kvs e' k = kvs e k"
    by (rule add_node_issues [OF assms(1-5), where st = st and seed = seed and now = now]) (rule that)
  have "length (role_of (an_node_type req)) < 100"
    by (simp add: role_of_def agent_certificate_ou_def observer_certificate_ou_def split: node_type.split)
  then have "pn_ou (crt_subject c) = [an_datacenter req, role_of (an_node_type req)]"
    using c(1) assms(6) by (simp add: units_short_datacenter)
  with a c(2) s show ?thesis by (blast intro: caller_with_units)
qed

text \<open>C8: \<^verbatim>\<open>AddNode\<close> for a free name stores the node and answers a certificate with which its holder
  authenticates as exactly that node in its role, where the datacenter's name is shorter than the
  role; no other key changes.\<close>
theorem add_node_credentials_authenticate:
  assumes "etcd_live E ok kvs leases" "ok e"
    and "kvs e (node_key (an_datacenter req) (an_name req)) = None"
    and "node_valid (requested_node req)" "txn_size (add_node_txn req) < 2 ^ 20"
    and "length (an_datacenter req) < length (role_of (an_node_type req))"
  shows "\<exists>e' c. add_node E st seed now req e = (Inr (CertPem c, KeyPem (EdPrivate seed)), e')
    \<and> (\<forall>ctx. presents ctx c \<longrightarrow> caller (kvs e') ctx (role_of (an_node_type req)) = Inr (requested_node req))
    \<and> (\<forall>k. k \<noteq> node_key (an_datacenter req) (an_name req) \<longrightarrow> kvs e' k = kvs e k)"
  using assms by (rule add_node_authenticates)

theorem add_node_credentials_authenticate_witness:
  "\<exists>e' c. add_node store_etcd sample_state ''key'' 0 (sample_add ''dc1'') sample_store =
      (Inr (CertPem c, KeyPem (EdPrivate ''key'')), e')
    \<and> (presents (Some (sample_peer c)) c \<longrightarrow>
        caller (store_kvs e') (Some (sample_peer c)) agent_certificate_ou = Inr (requested_node (sample_add ''dc1'')))"
  using add_node_credentials_authenticate [OF etcd_ref_live sample_store_wf _ sample_add_valid(1) sample_add_size(1),
      of sample_state "''key''" 0] node_entries_n2(1)
  by (auto simp: sample_add_def role_of_def agent_certificate_ou_def)

text \<open>C39: where the datacenter's name is longer than the role, DER puts the role first: \<^verbatim>\<open>AddNode\<close> answers
  a certificate all the same, but whoever presents it in that role is refused, although the node is
  stored.\<close>
theorem add_node_long_datacenter_refused:
  assumes "etcd_live E ok kvs leases" "ok e"
    and "kvs e (node_key (an_datacenter req) (an_name req)) = None"
    and "node_valid (requested_node req)" "txn_size (add_node_txn req) < 2 ^ 20"
    and "length (role_of (an_node_type req)) < length (an_datacenter req)"
  shows "\<exists>e' c. add_node E st seed now req e = (Inr (CertPem c, KeyPem (EdPrivate seed)), e')
    \<and> stored_node (kvs e') (an_datacenter req) (an_name req) = Inr (Some (requested_node req))
    \<and> (\<forall>ctx. presents ctx c \<longrightarrow> caller (kvs e') ctx (role_of (an_node_type req)) = Inl auth_failure)"
proof -
  obtain e' c where a: "add_node E st seed now req e = (Inr (CertPem c, KeyPem (EdPrivate seed)), e')"
    and c: "pn_ou (crt_subject c) = der_sorted [role_of (an_node_type req), an_datacenter req]"
    and s: "stored_node (kvs e') (an_datacenter req) (an_name req) = Inr (Some (requested_node req))"
    by (rule add_node_issues [OF assms(1-5), where st = st and seed = seed and now = now]) (rule that)
  have "length (role_of (an_node_type req)) < 100"
    by (simp add: role_of_def agent_certificate_ou_def observer_certificate_ou_def split: node_type.split)
  moreover have "length (an_datacenter req) < 2 ^ 60"
    using assms(5) by (simp add: add_node_txn_def txn_size_def node_key_def key_path_two key_path_def Let_def)
  ultimately have "pn_ou (crt_subject c) = [role_of (an_node_type req), an_datacenter req]"
    using c assms(6) by (simp add: units_long_datacenter)
  moreover have "an_datacenter req \<noteq> role_of (an_node_type req)" using assms(6) by auto
  ultimately show ?thesis using a s by (blast intro: caller_wrong_units)
qed

theorem add_node_long_datacenter_refused_witness:
  "\<exists>e' c. add_node store_etcd sample_state ''key'' 0 (sample_add ''lisbon1'') sample_store =
      (Inr (CertPem c, KeyPem (EdPrivate ''key'')), e')
    \<and> (presents (Some (sample_peer c)) c \<longrightarrow>
        caller (store_kvs e') (Some (sample_peer c)) agent_certificate_ou = Inl auth_failure)"
  using add_node_long_datacenter_refused [OF etcd_ref_live sample_store_wf _ sample_add_valid(2) sample_add_size(2),
      of sample_state "''key''" 0] node_entries_n2(2)
  by (auto simp: sample_add_def role_of_def agent_certificate_ou_def)

text \<open>A node is added once: after a first \<^verbatim>\<open>AddNode\<close> that found the name free, every further one for
  the same datacenter and name, whatever its other fields, gets the already-exists error and leaves
  the stored node and every other key alone.\<close>
theorem add_node_once:
  assumes "etcd_live E ok kvs leases" "ok e"
    and "kvs e (node_key (an_datacenter req) (an_name req)) = None"
    and "node_valid (requested_node req)" "txn_size (add_node_txn req) < 2 ^ 20"
    and "an_datacenter req' = an_datacenter req" "an_name req' = an_name req"
    and "txn_size (add_node_txn req') < 2 ^ 20"
  shows "\<exists>e1 e2. snd (add_node E st seed now req e) = e1
    \<and> add_node E st seed' now' req' e1 = (Inl agent_already_exists_error, e2) \<and> kvs e2 = kvs e1
    \<and> stored_node (kvs e2) (an_datacenter req) (an_name req) = Inr (Some (requested_node req))"
proof -
  obtain e1 c where a: "add_node E st seed now req e = (Inr (CertPem c, KeyPem (EdPrivate seed)), e1)"
    "ok e1" and s: "stored_node (kvs e1) (an_datacenter req) (an_name req) = Inr (Some (requested_node req))"
    by (rule add_node_issues [OF assms(1-5), where st = st and seed = seed and now = now]) (rule that)
  then have "kvs e1 (node_key (an_datacenter req') (an_name req')) \<noteq> None"
    using assms(6,7) by (auto simp: stored_node_def split: option.splits)
  from etcd_live.add_node_again [OF assms(1) a(2) this assms(8), of st seed' now'] a(1) s
  show ?thesis by auto
qed

theorem add_node_once_witness:
  "\<exists>e1 e2. snd (add_node store_etcd sample_state ''key'' 0 (sample_add ''dc1'') sample_store) = e1
    \<and> add_node store_etcd sample_state ''other'' 5 ((sample_add ''dc1'')\<lparr>an_location := ''us''\<rparr>) e1 =
        (Inl agent_already_exists_error, e2)
    \<and> store_kvs e2 = store_kvs e1"
proof -
  have "txn_size (add_node_txn ((sample_add ''dc1'')\<lparr>an_location := ''us''\<rparr>)) = 80" by code_simp
  then show ?thesis
    using add_node_once [OF etcd_ref_live sample_store_wf _ sample_add_valid(1) sample_add_size(1),
        of "(sample_add ''dc1'')\<lparr>an_location := ''us''\<rparr>" sample_state "''key''" 0 "''other''" 5] node_entries_n2(1)
    by (auto simp: sample_add_def)
qed

text \<open>\<^verbatim>\<open>GetNodeCredentials\<close> for a node that is not stored does not answer an error: it dereferences
  the nil node and panics.\<close>
theorem credentials_of_unknown_node_panic:
  assumes "etcd_live E ok kvs leases" "ok e" "kvs e (node_key (gc_datacenter req) (gc_name req)) = None"
  shows "is_panic (fst (get_node_credentials E st seed now req e))"
proof -
  have "stored_node (kvs e) (gc_datacenter req) (gc_name req) = Inr None"
    using assms(3) by (simp add: stored_node_def)
  then show ?thesis
    by (rule_tac etcd_live.get_node_credentials_total [OF assms(1,2), of st seed now req]) simp
qed

theorem credentials_of_unknown_node_panic_witness:
  "is_panic (fst (get_node_credentials store_etcd sample_state ''key'' 0
     \<lparr>gc_name = ''n2'', gc_datacenter = ''dc1''\<rparr> sample_store))"
  using credentials_of_unknown_node_panic [OF etcd_ref_live sample_store_wf,
      of "\<lparr>gc_name = ''n2'', gc_datacenter = ''dc1''\<rparr>"] node_entries_n2(1) by simp

text \<open>The credentials that \<^verbatim>\<open>GetNodeCredentials\<close> issues for a stored node whose datacenter's name is
  shorter than its role form a key pair, pass the TLS verification of an agent API that trusts the
  authority throughout their seven days while that authority is valid, and authenticate as the stored node.\<close>
theorem node_credentials_accepted:
  assumes "etcd_live E ok kvs leases" "ok e"
    and "stored_node (kvs e) dc name = Inr (Some node)" "ns_datacenter node = dc" "ns_name node = name"
    and "ns_type node \<in> {agent_certificate_ou, observer_certificate_ou}" "node_valid node"
    and "length dc < length (ns_type node)"
    and "ca = st_agent_ca st" "crt_is_ca (kp_leaf ca)" "crt_public (kp_leaf ca) = public_of (kp_private ca)"
    and "crt_key_usage (kp_leaf ca) = CertSign" "valid_at t (kp_leaf ca)"
    and "now \<le> t" "t \<le> whole_second (now + node_certificate_expiry)"
  shows "\<exists>e' c k. get_node_credentials E st seed now \<lparr>gc_name = name, gc_datacenter = dc\<rparr> e = (Inr (CertPem c, k), e')
    \<and> kvs e' = kvs e \<and> is_ok (x509_key_pair (CertPem c) k) \<and> verifies_client [kp_leaf ca] t c
    \<and> caller (kvs e') (Some \<lparr>peer_address = a, peer_auth = TLSInfo [c]\<rparr>) (ns_type node) = Inr node"
proof -
  obtain e' where g: "get_node_credentials E st seed now \<lparr>gc_name = name, gc_datacenter = dc\<rparr> e =
      (create_node_crt seed now st dc name (ns_type node), e')" and e': "kvs e' = kvs e"
    by (rule etcd_live.get_node_credentials_total [OF assms(1,2), of st seed now "\<lparr>gc_name = name, gc_datacenter = dc\<rparr>"])
      (use assms(3-5) in simp)
  have "utf8_valid dc" "utf8_valid name" "utf8_valid (ns_type node)"
    using assms(4,5,7) by (auto simp: node_valid_def)
  then obtain c where c: "create_node_crt seed now st dc name (ns_type node) = Inr (CertPem c, KeyPem (EdPrivate seed))"
    "crt_subject c = \<lparr>pn_organization = ssle_organization, pn_ou = der_sorted [ns_type node, dc], pn_cn = name\<rparr>"
    "crt_issuer c = crt_subject (kp_leaf (st_agent_ca st))"
    "crt_signer c = public_of (kp_private (st_agent_ca st))"
    "crt_public c = EdPublic seed" "crt_ext_usage c = [ClientAuth]"
    "crt_not_before c = whole_second now" "crt_not_after c = whole_second (now + node_certificate_expiry)"
    by (rule create_node_crt_ok)
  have "length (ns_type node) < 100"
    using assms(6) by (auto simp: agent_certificate_ou_def observer_certificate_ou_def)
  then have ou: "pn_ou (crt_subject c) = [dc, ns_type node]" using c(2) assms(8) by (simp add: units_short_datacenter)
  have "whole_second now \<le> now" by (simp add: whole_second_def second_def)
  then have "verifies_client [kp_leaf ca] t c"
    using c assms(9-15) by (simp add: verifies_client_def issued_by_pool_def valid_at_def)
  moreover have "is_ok (x509_key_pair (CertPem c) (KeyPem (EdPrivate seed)))"
    using c(5) by (simp add: x509_key_pair_def)
  moreover have "caller (kvs e') (Some \<lparr>peer_address = a, peer_auth = TLSInfo [c]\<rparr>) (ns_type node) = Inr node"
    using ou c(2) e' assms(3)
    by (intro caller_with_units [of _ c dc _ name]) (simp_all add: presents_def extract_peer_certificate_def)
  ultimately show ?thesis using g c(1) e' by simp
qed

theorem node_credentials_accepted_witness:
  "\<exists>e' c k. get_node_credentials store_etcd sample_state ''key'' 0 \<lparr>gc_name = ''n1'', gc_datacenter = ''dc1''\<rparr> sample_store =
      (Inr (CertPem c, k), e') \<and> verifies_client [sample_authority] 0 c
    \<and> caller (store_kvs e') (Some \<lparr>peer_address = [], peer_auth = TLSInfo [c]\<rparr>) (ns_type sample_node) = Inr sample_node"
proof -
  have n: "ns_datacenter sample_node = ''dc1''" "ns_name sample_node = ''n1''"
    "ns_type sample_node \<in> {agent_certificate_ou, observer_certificate_ou}"
    "length ''dc1'' < length (ns_type sample_node)"
    by (simp_all add: sample_node_def agent_certificate_ou_def)
  have st: "crt_is_ca (kp_leaf (st_agent_ca sample_state))"
    "crt_public (kp_leaf (st_agent_ca sample_state)) = public_of (kp_private (st_agent_ca sample_state))"
    "kp_leaf (st_agent_ca sample_state) = sample_authority"
    "crt_key_usage (kp_leaf (st_agent_ca sample_state)) = CertSign" "valid_at 0 (kp_leaf (st_agent_ca sample_state))"
    by (simp_all add: sample_state_def sample_authority_def Let_def valid_at_def day_def second_def)
  have t: "(0 :: int) \<le> 0" "(0 :: int) \<le> whole_second (0 + node_certificate_expiry)"
    by (simp_all add: whole_second_def node_certificate_expiry_def day_def second_def)
  from node_credentials_accepted [OF etcd_ref_live sample_store_wf sample_stored(1) n(1-3) sample_nodes_valid(1) n(4)
      refl st(1,2,4,5) t, of "''key''" "[]"] st(3)
  show ?thesis by metis
qed

end
