(* ===== verification/RegEtcd.thy ===== *)
theory RegEtcd
  imports PeerApi NodeApi
begin

text \<open>
  registry/etcd/etcd.go and registry/main.go: how a registry starts. It asks the registry it joins
  for the members of the cluster, writes the configuration of its embedded etcd server and, when the
  server is ready, publishes its own addresses. URLs are values of a type \<open>'u\<close> with a parser and a
  printer (package net/url); the library function \<^verbatim>\<open>InitialClusterFromName\<close> of etcd is a parameter.
\<close>

section \<open>\<^verbatim>\<open>CreateEtcdConfig\<close>\<close>

datatype cluster_state = ClusterNew | ClusterExisting

record tls_info =
  ti_server_name :: string
  ti_cert_file :: string
  ti_key_file :: string
  ti_client_cert_auth :: bool
  ti_trusted_ca_file :: string

record 'u etcd_config =
  ec_name :: string
  ec_dir :: string
  ec_cluster_token :: string
  ec_peer_tls :: tls_info
  ec_client_tls :: tls_info
  ec_listen_peer_urls :: "'u list"
  ec_advertise_peer_urls :: "'u list"
  ec_listen_client_urls :: "'u list"
  ec_listen_client_http_urls :: "'u list"
  ec_advertise_client_urls :: "'u list"
  ec_initial_cluster :: string
  ec_cluster_state :: cluster_state

definition other_members :: "string \<Rightarrow> member list \<Rightarrow> string" where
  "other_members name ms =
     concat (map (\<lambda>m. if mem_name m = name then []
                      else concat (map (\<lambda>url. '','' @ mem_name m @ ''='' @ url) (mem_peer_urls m))) ms)"

definition create_etcd_config ::
  "kdf \<Rightarrow> (string \<Rightarrow> 'u outcome) \<Rightarrow> (string \<Rightarrow> 'u list \<Rightarrow> string) \<Rightarrow> member list \<Rightarrow> state \<Rightarrow> config \<Rightarrow>
   'u etcd_config outcome" where
  "create_etcd_config hkdf parse_url from_name ms st c =
     (let token = hkdf (st_token st) ''etcd'' 32;
          peer_tls = \<lparr>ti_server_name = ''registry.cluster.internal'', ti_cert_file = st_server_crt_file st,
            ti_key_file = st_server_key_file st, ti_client_cert_auth = True, ti_trusted_ca_file = st_ca_crt_file st\<rparr>
      in case etcd_listen_urls parse_url c of
        Inl err \<Rightarrow> Inl err
      | Inr listen_peer \<Rightarrow>
     (case etcd_advertise_urls parse_url c of
        Inl err \<Rightarrow> Inl err
      | Inr advertise_peer \<Rightarrow>
     (case etcd_client_listen_urls parse_url c of
        Inl err \<Rightarrow> Inl err
      | Inr listen_client \<Rightarrow>
     (case etcd_client_advertise_urls parse_url c of
        Inl err \<Rightarrow> Inl err
      | Inr advertise_client \<Rightarrow>
          Inr \<lparr>ec_name = cf_name c, ec_dir = st_etcd_dir st, ec_cluster_token = b64_encode token,
            ec_peer_tls = peer_tls, ec_client_tls = peer_tls,
            ec_listen_peer_urls = listen_peer, ec_advertise_peer_urls = advertise_peer,
            ec_listen_client_urls = listen_client, ec_listen_client_http_urls = [], ec_advertise_client_urls = advertise_client,
            ec_initial_cluster = from_name (cf_name c) advertise_peer @ other_members (cf_name c) ms,
            ec_cluster_state = (if ms = [] then ClusterNew else ClusterExisting)\<rparr>))))"

section \<open>\<^verbatim>\<open>EtcdPostStartUpdate\<close>\<close>

definition peer_api_key :: "string \<Rightarrow> string" where
  "peer_api_key name = key_path [''peer_agent_api'', name]"

text \<open>Both failures are logged only.\<close>

definition etcd_post_start_update ::
  "'e etcd \<Rightarrow> ('u \<Rightarrow> string) \<Rightarrow> config \<Rightarrow> 'u etcd_config \<Rightarrow> 'e \<Rightarrow> 'e" where
  "etcd_post_start_update E show_url c ec e =
     (let member = \<lparr>mem_id = etcd_member_id E e, mem_name = [],
            mem_peer_urls = map show_url (ec_advertise_peer_urls ec),
            mem_client_urls = map show_url (ec_advertise_client_urls ec)\<rparr>;
          e = snd (etcd_update_member E e member)
      in snd (etcd_put E e (peer_api_key (ec_name ec)) (agent_api_advertise_host c)))"

section \<open>Start of a registry\<close>

definition member_of_peer :: "peer \<Rightarrow> member outcome" where
  "member_of_peer p =
     (case parse_uint 64 (peer_id p) of
        (_, Some _) \<Rightarrow> Inl (Fatal ''strconv.ParseUint'')
      | (i, None) \<Rightarrow>
          Inr \<lparr>mem_id = of_nat i, mem_name = peer_name p, mem_peer_urls = peer_urls p, mem_client_urls = client_urls p\<rparr>)"

fun members_of_peers :: "peer list \<Rightarrow> member list outcome" where
  "members_of_peers [] = Inr []"
| "members_of_peers (p # ps) =
     (case member_of_peer p of
        Inl err \<Rightarrow> Inl err
      | Inr m \<Rightarrow> (case members_of_peers ps of Inl err \<Rightarrow> Inl err | Inr ms \<Rightarrow> Inr (m # ms)))"

text \<open>
  \<^verbatim>\<open>main\<close> up to the configuration of etcd: \<open>peers\<close> is the answer of the joined registry to \<^verbatim>\<open>GetPeers\<close>.
  The first component is what is sent to its \<^verbatim>\<open>AddSelfPeer\<close>, whose failure does not stop the start.
\<close>

definition registry_boot ::
  "kdf \<Rightarrow> (string \<Rightarrow> 'u outcome) \<Rightarrow> ('u \<Rightarrow> string) \<Rightarrow> (string \<Rightarrow> 'u list \<Rightarrow> string) \<Rightarrow> peer list outcome \<Rightarrow>
   state \<Rightarrow> config \<Rightarrow> string list option \<times> 'u etcd_config outcome" where
  "registry_boot hkdf parse_url show_url from_name peers st c =
     (if cf_join_url c = [] then (None, create_etcd_config hkdf parse_url from_name [] st c)
      else
        (case etcd_advertise_urls parse_url c of
           Inl err \<Rightarrow> (None, Inl err)
         | Inr urls \<Rightarrow>
             (Some (map show_url urls),
              case peers of
                Inl _ \<Rightarrow> Inl (Fatal ''Failed to get cluster members'')
              | Inr ps \<Rightarrow>
                  (case members_of_peers ps of
                     Inl err \<Rightarrow> Inl err
                   | Inr ms \<Rightarrow> create_etcd_config hkdf parse_url from_name ms st c))))"

section \<open>Facts\<close>

lemma member_of_peer_of_member: "member_of_peer (peer_of_member m) = Inr m"
proof -
  have "unat (mem_id m) < 2 ^ 64" using unsigned_less [of "mem_id m"] by simp
  then have "parse_uint 64 (show_nat (unat (mem_id m))) = (unat (mem_id m), None)" by (rule parse_uint_show_nat)
  then show ?thesis by (simp add: member_of_peer_def peer_of_member_def)
qed

lemma members_of_peers_map: "members_of_peers (map peer_of_member ms) = Inr ms"
  by (induction ms) (simp_all add: member_of_peer_of_member)

context etcd_live
begin

lemma post_start_effect:
  assumes "wf e" "length (peer_api_key (ec_name ec)) + length (agent_api_advertise_host c) < 2 ^ 20"
  obtains x where "wf (etcd_post_start_update E show_url c ec e)"
    "kvs (etcd_post_start_update E show_url c ec e) = (kvs e)(peer_api_key (ec_name ec) \<mapsto> x)"
    "kv_value x = agent_api_advertise_host c" "leases (etcd_post_start_update E show_url c ec e) = leases e"
proof -
  let ?m = "\<lparr>mem_id = etcd_member_id E e, mem_name = [], mem_peer_urls = map show_url (ec_advertise_peer_urls ec),
    mem_client_urls = map show_url (ec_advertise_client_urls ec)\<rparr>"
  obtain r e1 where up: "etcd_update_member E e ?m = (r, e1)" by fastforce
  note e1 = update_member_frame [OF assms(1) up]
  obtain e2 where put: "etcd_put E e1 (peer_api_key (ec_name ec)) (agent_api_advertise_host c) = (Inr (), e2)"
    using put_returns [OF _ assms(2), of e1] e1 by auto
  from put_result [OF _ put] e1 obtain rv where e2: "wf e2" "leases e2 = leases e"
    "kvs e2 = (kvs e)(peer_api_key (ec_name ec) \<mapsto>
       put_entry rv (peer_api_key (ec_name ec)) (agent_api_advertise_host c) 0 (kvs e (peer_api_key (ec_name ec))))"
    by auto
  have "etcd_post_start_update E show_url c ec e = e2"
    using up put by (simp add: etcd_post_start_update_def Let_def)
  with e2 show thesis by (intro that [OF _ _ put_entry_fields(1)]) simp_all
qed

end

section \<open>Properties\<close>

text \<open>A registry that joins configures its etcd server with exactly the members that the joined registry
  has, its own entry made from its own URLs, and with the cluster token derived from the shared
  secret, provided its four URLs parse.\<close>
theorem join_configures_members:
  assumes "cf_join_url c \<noteq> []"
    and "etcd_advertise_urls parse_url c = Inr us" "etcd_listen_urls parse_url c = Inr ls"
    and "etcd_client_listen_urls parse_url c = Inr cls" "etcd_client_advertise_urls parse_url c = Inr cas"
  shows "\<exists>ec. registry_boot hkdf parse_url show_url from_name (fst (get_peers E e)) st c = (Some (map show_url us), Inr ec)
    \<and> ti_client_cert_auth (ec_peer_tls ec) \<and> ec_client_tls ec = ec_peer_tls ec
    \<and> ec_initial_cluster ec = from_name (cf_name c) us @ other_members (cf_name c) (etcd_members E e)
    \<and> (ec_cluster_state ec = ClusterExisting \<longleftrightarrow> etcd_members E e \<noteq> [])
    \<and> ec_cluster_token ec = b64_encode (hkdf (st_token st) ''etcd'' 32)"
  using assms by (simp add: registry_boot_def get_peers_def members_of_peers_map create_etcd_config_def Let_def)

definition one_member_store :: store where
  "one_member_store = empty_store\<lparr>st_members :=
     [\<lparr>mem_id = 7, mem_name = ''r1'', mem_peer_urls = [''https://r1:4000''], mem_client_urls = []\<rparr>]\<rparr>"

theorem join_configures_members_witness:
  "\<exists>ec. registry_boot (\<lambda>t i n. t) Inr id (\<lambda>n us. n @ ''='' @ concat us) (fst (get_peers store_etcd one_member_store))
      sample_state (sample_config\<lparr>cf_name := ''r2'', cf_join_url := ''r1:4002''\<rparr>) =
      (Some [''https://r1.example:40''], Inr ec)
    \<and> ec_initial_cluster ec = ''r2=https://r1.example:40,r1=https://r1:4000''"
proof -
  let ?c = "sample_config\<lparr>cf_name := ''r2'', cf_join_url := ''r1:4002''\<rparr>"
  have urls: "cf_join_url ?c \<noteq> []" "etcd_advertise_urls Inr ?c = Inr [''https://'' @ etcd_advertise_host ?c]"
    "etcd_listen_urls Inr ?c = Inr [''https://'' @ etcd_listen_host ?c]"
    "etcd_client_listen_urls Inr ?c = Inr [''https://'' @ etcd_client_listen_host ?c]"
    "etcd_client_advertise_urls Inr ?c = Inr [''https://'' @ etcd_client_advertise_host ?c]"
    by (simp_all add: etcd_advertise_urls_def etcd_listen_urls_def etcd_client_listen_urls_def
        etcd_client_advertise_urls_def https_urls_def)
  have "show_nat 40 = ''40''" by code_simp
  then have host: "etcd_advertise_host ?c = ''r1.example:40''"
    by (simp add: etcd_advertise_host_def host_with_port_def sample_config_def hostname_from_fqdn_def
        hostname_is_address_def addr_is_valid.simps)
  have "other_members (cf_name ?c) (etcd_members store_etcd one_member_store) = '',r1=https://r1:4000''"
    by (simp add: other_members_def store_etcd_def one_member_store_def)
  then show ?thesis
    using join_configures_members [OF urls, of "\<lambda>t i n. t" id "\<lambda>n us. n @ ''='' @ concat us" store_etcd one_member_store sample_state]
    by (auto simp: host)
qed

text \<open>Once a registry has published itself after its start, the answer to \<^verbatim>\<open>Config\<close> of every node lists
  the address that its agents are to use.\<close>
theorem started_registry_is_listed:
  assumes "etcd_live E ok kvs leases" "ok e"
    and "length (peer_api_key (ec_name ec)) + length (agent_api_advertise_host c) < 2 ^ 20"
    and "extract_peer_certificate ctx = Inr crt0" "cert_node (kvs e) crt0 = Some (role, node)"
    and "create_node_crt seed issued st (ns_datacenter node) (ns_name node) role = Inr (crt, key)"
    and "\<bar>crt_not_after crt0 - now\<bar> < 2 ^ 62"
  shows "\<exists>res e'. config_request E st seed now issued ctx (etcd_post_start_update E show_url c ec e) = (Inr res, e')
    \<and> agent_api_advertise_host c \<in> set (cfg_registry_addrs res)"
proof -
  let ?e = "etcd_post_start_update E show_url c ec e" and ?r = "prefix_request ''peer_agent_api'' 0"
  obtain x where e1: "ok ?e" "kvs ?e = (kvs e)(peer_api_key (ec_name ec) \<mapsto> x)"
    and x: "kv_value x = agent_api_advertise_host c"
    by (rule etcd_live.post_start_effect [OF assms(1-3)])
  have "cert_node (kvs ?e) crt0 = cert_node (kvs e) crt0"
    by (rule cert_node_cong) (simp add: e1(2) node_key_def peer_api_key_def key_path_two)
  with assms(5) have node: "cert_node (kvs ?e) crt0 = Some (role, node)" by simp
  obtain e' res where req: "config_request E st seed now issued ctx ?e = (Inr res, e')"
    and addrs: "cfg_registry_addrs res = map kv_value (range_kvs (kvs ?e) ?r)"
    using etcd_live.config_request_total [OF assms(1) e1(1) assms(4) node assms(6,7)] by auto
  have fin: "finite (dom (kvs ?e))"
    using etcd_store.finite_kvs [OF etcd_live.axioms(1) [OF assms(1)] e1(1)] .
  have "in_key_range ?r (peer_api_key (ec_name ec))"
    by (subst in_prefix_range) (simp_all add: peer_api_key_def key_path_two)
  then have "x \<in> set (range_kvs (kvs ?e) ?r)"
    by (intro range_kvs_all [OF fin, of "peer_api_key (ec_name ec)"]) (simp_all add: e1(2) prefix_request_def)
  then have "agent_api_advertise_host c \<in> set (cfg_registry_addrs res)"
    unfolding addrs set_map using x by (intro image_eqI [of _ _ x]) simp_all
  with req show ?thesis by blast
qed

definition sample_tls :: tls_info where
  "sample_tls = \<lparr>ti_server_name = [], ti_cert_file = [], ti_key_file = [], ti_client_cert_auth = True, ti_trusted_ca_file = []\<rparr>"

definition sample_etcd_config :: "string etcd_config" where
  "sample_etcd_config = \<lparr>ec_name = ''r1'', ec_dir = [], ec_cluster_token = [], ec_peer_tls = sample_tls, ec_client_tls = sample_tls,
     ec_listen_peer_urls = [], ec_advertise_peer_urls = [''https://r1.example:40''],
     ec_listen_client_urls = [], ec_listen_client_http_urls = [], ec_advertise_client_urls = [], ec_initial_cluster = [], ec_cluster_state = ClusterNew\<rparr>"

theorem started_registry_is_listed_witness:
  "\<exists>res e'. config_request store_etcd sample_state ''key'' 0 0 (Some agent_peer)
      (etcd_post_start_update store_etcd id sample_config sample_etcd_config sample_store) = (Inr res, e')
    \<and> agent_api_advertise_host sample_config \<in> set (cfg_registry_addrs res)"
proof -
  obtain crt key where issue: "create_node_crt ''key'' 0 sample_state (ns_datacenter sample_node) (ns_name sample_node) ''Agents'' =
    Inr (crt, key)" by (rule sample_issue)
  have c: "extract_peer_certificate (Some agent_peer) = Inr (sample_cert ''n1'' ''Agents'' 0)"
    by (simp add: extract_peer_certificate_def agent_peer_def sample_peer_def)
  have "show_nat 43 = ''43''" by code_simp
  then have host: "agent_api_advertise_host sample_config = ''r1.example:43''"
    by (simp add: agent_api_advertise_host_def host_with_port_def sample_config_def hostname_from_fqdn_def
        hostname_is_address_def addr_is_valid.simps)
  have size: "length (peer_api_key (ec_name sample_etcd_config)) + length (agent_api_advertise_host sample_config) < 2 ^ 20"
    by (simp add: host sample_etcd_config_def peer_api_key_def key_path_def)
  have t: "\<bar>crt_not_after (sample_cert ''n1'' ''Agents'' 0) - 0\<bar> < 2 ^ 62" by (simp add: sample_cert_def)
  show ?thesis by (rule started_registry_is_listed [OF etcd_ref_live sample_store_wf size c sample_cert_node issue t])
qed

end
