(* ===== verification/Cluster.thy ===== *)
theory Cluster
  imports NodeApi ObserverApi PeerApi RegEtcd
begin

text \<open>
  All registries together. What their handlers do to the shared store is a step relation whose
  steps are single requests to etcd, so that a path of steps is any interleaving of any number of
  handlers on any number of registries, with leases that run out in between. The invariants of the
  reachable stores are proved by rule induction. A state is the map of the keys and the live leases.
\<close>

type_synonym cluster = "(string \<rightharpoonup> kv) \<times> int set"

definition stored_nodes :: "(string \<rightharpoonup> kv) \<Rightarrow> node_schema set" where
  "stored_nodes m = {node. \<exists>dc name. stored_node m dc name = Inr (Some node)}"

definition apply_txn :: "int \<Rightarrow> txn_request \<Rightarrow> (string \<rightharpoonup> kv) \<Rightarrow> (string \<rightharpoonup> kv)" where
  "apply_txn rv t m = fold (apply_op rv) (txn_success t) m"

definition compares_hold :: "(string \<rightharpoonup> kv) \<Rightarrow> txn_request \<Rightarrow> bool" where
  "compares_hold m t \<longleftrightarrow> list_all (compare_holds m) (txn_compare t)"

section \<open>Steps\<close>

text \<open>
  \<open>P\<close> restricts the names that clients and administrators choose. Their strings are assumed to be valid UTF-8:
  protobuf asks that of a \<^verbatim>\<open>string\<close> field, but Go's implementation does not check it for the proto2 syntax that the
  messages are declared in. (Theory Ownership does without.) A lease ends when it is revoked and when it expires.
\<close>

inductive registry_step :: "(string \<Rightarrow> bool) \<Rightarrow> cluster \<Rightarrow> cluster \<Rightarrow> bool" for P where
  Grant: "l \<noteq> 0 \<Longrightarrow> l \<notin> L \<Longrightarrow> registry_step P (m, L) (m, insert l L)"
| LeaseEnd: "l \<in> L \<Longrightarrow> registry_step P (m, L) (drop_lease l m, L - {l})"
| StoreLease: "- (2 ^ 63) \<le> l \<Longrightarrow> l < 2 ^ 63 \<Longrightarrow> compares_hold m (lease_txn (lease_key dc name) ks l) \<Longrightarrow> 0 < rv \<Longrightarrow>
    registry_step P (m, L) (apply_txn rv (lease_txn (lease_key dc name) ks l) m, L)"
| Register: "node \<in> stored_nodes m \<Longrightarrow> P (reg_service req) \<Longrightarrow> P (reg_instance req) \<Longrightarrow>
    fill_addresses p (registered_spec node req) = Inr spec \<Longrightarrow> spec_valid spec \<Longrightarrow> l \<in> L \<Longrightarrow> 0 < rv \<Longrightarrow>
    registry_step P (m, L) (apply_txn rv (register_txn node req spec l) m, L)"
| Deregister: "node \<in> stored_nodes m \<Longrightarrow> P (dereg_service req) \<Longrightarrow> P (dereg_instance req) \<Longrightarrow> 0 < rv \<Longrightarrow>
    registry_step P (m, L) (apply_txn rv (deregister_txn node req) m, L)"
| AddNode: "P (an_name req) \<Longrightarrow> P (an_datacenter req) \<Longrightarrow> P (an_location req) \<Longrightarrow> node_valid (requested_node req) \<Longrightarrow>
    compares_hold m (add_node_txn req) \<Longrightarrow> 0 < rv \<Longrightarrow>
    registry_step P (m, L) (apply_txn rv (add_node_txn req) m, L)"
| Publish: "0 < rv \<Longrightarrow>
    registry_step P (m, L) (m(peer_api_key name \<mapsto> put_entry rv (peer_api_key name) addr 0 (m (peer_api_key name))), L)"

abbreviation registry_path :: "(string \<Rightarrow> bool) \<Rightarrow> cluster \<Rightarrow> cluster \<Rightarrow> bool" where
  "registry_path P \<equiv> (registry_step P)\<^sup>*\<^sup>*"

definition reachable :: "(string \<Rightarrow> bool) \<Rightarrow> cluster \<Rightarrow> bool" where
  "reachable P s \<longleftrightarrow> registry_path P (Map.empty, {}) s"

section \<open>What the entries are\<close>

definition node_named :: "(string \<Rightarrow> bool) \<Rightarrow> node_schema \<Rightarrow> bool" where
  "node_named P node \<longleftrightarrow> P (ns_name node) \<and> P (ns_datacenter node) \<and> P (ns_location node)"

definition describes :: "node_schema \<Rightarrow> string \<Rightarrow> string \<Rightarrow> service_spec \<Rightarrow> bool" where
  "describes node s i spec \<longleftrightarrow>
     spec_service_name spec = Some s \<and> spec_instance spec = Some i \<and> spec_node spec = Some (ns_name node)
     \<and> spec_datacenter spec = Some (ns_datacenter node) \<and> spec_location spec = Some (ns_location node)
     \<and> spec_addresses spec \<noteq> []"

inductive entry_typed :: "(string \<Rightarrow> bool) \<Rightarrow> (string \<rightharpoonup> kv) \<Rightarrow> int set \<Rightarrow> string \<Rightarrow> kv \<Rightarrow> bool" for P m L where
  NodeEntry: "kv_value x = marshal_node node \<Longrightarrow> node_valid node \<Longrightarrow> node_named P node \<Longrightarrow> kv_lease x = 0 \<Longrightarrow>
    entry_typed P m L (node_key (ns_datacenter node) (ns_name node)) x"
| LeaseEntry: "unmarshal_int64 (kv_value x) = Some l \<Longrightarrow> kv_lease x = 0 \<Longrightarrow> entry_typed P m L (lease_key dc name) x"
| ServiceEntry: "node \<in> stored_nodes m \<Longrightarrow> P s \<Longrightarrow> P i \<Longrightarrow> k \<in> service_keys node s i \<Longrightarrow>
    kv_value x = marshal_spec spec \<Longrightarrow> spec_valid spec \<Longrightarrow> describes node s i spec \<Longrightarrow> kv_lease x \<in> L \<Longrightarrow>
    entry_typed P m L k x"
| RegistryEntry: "kv_lease x = 0 \<Longrightarrow> entry_typed P m L (peer_api_key name) x"

definition cluster_ok :: "(string \<Rightarrow> bool) \<Rightarrow> cluster \<Rightarrow> bool" where
  "cluster_ok P s \<longleftrightarrow> 0 \<notin> snd s
     \<and> (\<forall>k x. fst s k = Some x \<longrightarrow> entry_ok (snd s) k x \<and> entry_typed P (fst s) (snd s) k x)"

lemma peer_api_key_apart [key_eqs]:
  "peer_api_key a \<noteq> node_key b c" "peer_api_key a \<noteq> lease_key b c"
  "peer_api_key a \<noteq> svc_key n s i" "peer_api_key a \<noteq> ds_svc_key n s i"
  "node_key b c \<noteq> peer_api_key a" "lease_key b c \<noteq> peer_api_key a"
  "svc_key n s i \<noteq> peer_api_key a" "ds_svc_key n s i \<noteq> peer_api_key a"
  by (simp_all add: peer_api_key_def node_key_def lease_key_def svc_key_def ds_svc_key_def key_path_two)

lemma node_key_not_service: "node_key b c \<notin> service_keys n s i" "lease_key b c \<notin> service_keys n s i"
  "peer_api_key a \<notin> service_keys n s i"
  by (simp_all add: service_keys_def key_eqs)

inductive_cases entry_typedE: "entry_typed P m L k x"

lemma entry_typed_node_key:
  assumes "entry_typed P m L (node_key dc name) x"
  obtains node where "unmarshal_node (kv_value x) = Some node" "node_valid node" "node_named P node" "kv_lease x = 0"
    "node_key dc name = node_key (ns_datacenter node) (ns_name node)"
  using assms by (auto elim!: entry_typedE simp: key_eqs service_keys_def node_codec.dec_enc)

lemma entry_typed_service:
  assumes "entry_typed P m L k x" "k = svc_key n s i \<or> k = ds_svc_key n s i"
  obtains node s' i' spec where "node \<in> stored_nodes m" "P s'" "P i'" "k \<in> service_keys node s' i'"
    "kv_value x = marshal_spec spec" "spec_valid spec" "describes node s' i' spec" "kv_lease x \<in> L"
  using assms by (auto elim!: entry_typedE simp: key_eqs)

lemma entry_typed_mono:
  "entry_typed P m L k x \<Longrightarrow> stored_nodes m \<subseteq> stored_nodes m' \<Longrightarrow> kv_lease x = 0 \<or> kv_lease x \<in> L' \<Longrightarrow> 0 \<notin> L \<Longrightarrow>
    entry_typed P m' L' k x"
  by (induction rule: entry_typed.induct) (auto intro: entry_typed.intros)

section \<open>Every step keeps the invariant\<close>

lemma stored_nodes_put:
  assumes "(\<forall>dc name. k \<noteq> node_key dc name) \<or> m k = None"
  shows "stored_nodes m \<subseteq> stored_nodes (m(k \<mapsto> x))"
proof
  fix node assume "node \<in> stored_nodes m"
  then obtain dc name where n: "stored_node m dc name = Inr (Some node)" by (auto simp: stored_nodes_def)
  then have "k \<noteq> node_key dc name" using assms by (auto simp: stored_node_def)
  with n have "stored_node (m(k \<mapsto> x)) dc name = Inr (Some node)" by (simp add: stored_node_def)
  then show "node \<in> stored_nodes (m(k \<mapsto> x))" by (auto simp: stored_nodes_def)
qed

lemma stored_node_entry:
  assumes "cluster_ok P (m, L)" "node \<in> stored_nodes m"
  obtains x where "m (node_key (ns_datacenter node) (ns_name node)) = Some x"
    "unmarshal_node (kv_value x) = Some node" "node_valid node" "node_named P node"
proof -
  obtain dc name x where x: "m (node_key dc name) = Some x" "unmarshal_node (kv_value x) = Some node"
    using assms(2) by (auto simp: stored_nodes_def stored_node_def split: option.splits)
  then have "entry_typed P m L (node_key dc name) x" using assms(1) by (simp add: cluster_ok_def)
  then show thesis using x by (elim entry_typed_node_key) (auto intro: that)
qed

lemma cluster_ok_node_lease:
  "cluster_ok P (m, L) \<Longrightarrow> m (node_key dc name) = Some x \<Longrightarrow> kv_lease x = 0"
  by (auto simp: cluster_ok_def elim: entry_typed_node_key)

lemma cluster_ok_put:
  assumes "cluster_ok P (m, L)" "l = 0 \<or> l \<in> L" "0 < rv"
    and "(\<forall>dc name. k \<noteq> node_key dc name) \<or> m k = None"
    and "entry_typed P (m(k \<mapsto> put_entry rv k v l (m k))) L k (put_entry rv k v l (m k))"
  shows "cluster_ok P (m(k \<mapsto> put_entry rv k v l (m k)), L)"
proof -
  let ?x = "put_entry rv k v l (m k)"
  have mono: "stored_nodes m \<subseteq> stored_nodes (m(k \<mapsto> ?x))" using assms(4) by (rule stored_nodes_put)
  have old: "entry_ok L k' x \<and> entry_typed P m L k' x" if "m k' = Some x" for k' x
    using assms(1) that by (simp add: cluster_ok_def)
  have "entry_ok L k ?x"
    using old [of k] assms(2,3) by (cases "m k") (auto simp: entry_ok_def put_entry_def)
  moreover have "entry_typed P (m(k \<mapsto> ?x)) L k' x" if "m k' = Some x" for k' x
    using entry_typed_mono [OF _ mono] old [OF that] assms(1) by (auto simp: cluster_ok_def entry_ok_def)
  ultimately show ?thesis using assms(1,5) old by (auto simp: cluster_ok_def)
qed

lemma cluster_ok_delete:
  assumes "cluster_ok P (m, L)" "\<forall>dc name. k \<noteq> node_key dc name"
  shows "cluster_ok P (m(k := None), L)"
proof -
  have "stored_nodes m \<subseteq> stored_nodes (m(k := None))"
    using assms(2) by (fastforce simp: stored_nodes_def stored_node_def)
  with assms(1) show ?thesis
    by (auto simp: cluster_ok_def intro: entry_typed_mono [of P m L] simp: entry_ok_def)
qed

lemma cluster_ok_lease_end:
  assumes "cluster_ok P (m, L)" "l \<in> L"
  shows "cluster_ok P (drop_lease l m, L - {l})"
proof -
  have l: "l \<noteq> 0" using assms by (auto simp: cluster_ok_def)
  have kept: "drop_lease l m (node_key dc name) = m (node_key dc name)" for dc name
    using cluster_ok_node_lease [OF assms(1)] l by (auto simp: drop_lease_def split: option.split)
  then have "stored_nodes m \<subseteq> stored_nodes (drop_lease l m)"
    by (simp add: stored_nodes_def stored_node_def)
  moreover have "m k = Some x \<and> kv_lease x \<noteq> l" if "drop_lease l m k = Some x" for k x
    using that by (auto simp: drop_lease_def split: option.splits if_splits)
  ultimately show ?thesis
    using assms(1) by (fastforce simp: cluster_ok_def entry_ok_def intro: entry_typed_mono [of P m L])
qed

lemma create_free:
  assumes "cluster_ok P (m, L)" "compare_holds m (CompareCreate k 0)"
  shows "m k = None"
  using assms by (fastforce simp: cluster_ok_def entry_ok_def compare_holds_def split: option.splits)

lemma filled_describes:
  assumes "fill_addresses p (registered_spec node req) = Inr spec"
  shows "describes node (reg_service req) (reg_instance req) spec"
  using assms by (auto simp: fill_addresses_def registered_spec_def describes_def split: if_splits sum.splits)

lemma register_ok:
  assumes "cluster_ok P (m, L)" "node \<in> stored_nodes m" "P (reg_service req)" "P (reg_instance req)"
    and "fill_addresses p (registered_spec node req) = Inr spec" "spec_valid spec" "l \<in> L" "0 < rv"
  shows "cluster_ok P (apply_txn rv (register_txn node req spec l) m, L)"
proof -
  let ?k1 = "svc_key node (reg_service req) (reg_instance req)" and ?k2 = "ds_svc_key node (reg_service req) (reg_instance req)"
  have typed: "entry_typed P m' L k (put_entry rv k (marshal_spec spec) l old)"
    if "k \<in> {?k1, ?k2}" "stored_nodes m \<subseteq> stored_nodes m'" for m' k old
    using that assms filled_describes
    by (intro ServiceEntry [of node _ _ "reg_service req" "reg_instance req"]) (auto simp: service_keys_def)
  have sub: "stored_nodes m' \<subseteq> stored_nodes (m'(k \<mapsto> x))" if "k \<in> {?k1, ?k2}" for m' k x
    using that by (intro stored_nodes_put) (auto simp: key_eqs)
  define m1 where "m1 = m(?k1 \<mapsto> put_entry rv ?k1 (marshal_spec spec) l (m ?k1))"
  have sub1: "stored_nodes m \<subseteq> stored_nodes m1" unfolding m1_def by (rule sub) simp
  have ok1: "cluster_ok P (m1, L)"
    unfolding m1_def using assms by (intro cluster_ok_put typed sub) (auto simp: key_eqs)
  have "cluster_ok P (m1(?k2 \<mapsto> put_entry rv ?k2 (marshal_spec spec) l (m1 ?k2)), L)"
    using assms by (intro cluster_ok_put [OF ok1] typed order_trans [OF sub1 sub]) (auto simp: key_eqs)
  then show ?thesis by (simp add: apply_txn_def register_txn_def m1_def)
qed

lemma add_node_ok:
  assumes "cluster_ok P (m, L)" "P (an_name req)" "P (an_datacenter req)" "P (an_location req)"
    and "node_valid (requested_node req)" "compares_hold m (add_node_txn req)" "0 < rv"
  shows "cluster_ok P (apply_txn rv (add_node_txn req) m, L)"
proof -
  let ?k = "node_key (an_datacenter req) (an_name req)"
  have free: "m ?k = None"
    using assms by (intro create_free [of P]) (auto simp: compares_hold_def add_node_txn_def Let_def)
  have "entry_typed P m' L ?k (put_entry rv ?k (marshal_node (requested_node req)) 0 old)" for m' old
    using assms NodeEntry [of "put_entry rv ?k (marshal_node (requested_node req)) 0 old" "requested_node req" P m' L]
    by (simp add: node_named_def requested_node_def)
  then have "cluster_ok P (m(?k \<mapsto> put_entry rv ?k (marshal_node (requested_node req)) 0 (m ?k)), L)"
    using assms free by (intro cluster_ok_put) simp_all
  then show ?thesis by (simp add: apply_txn_def add_node_txn_def Let_def)
qed

lemma step_ok:
  assumes "registry_step P s s'" "cluster_ok P s"
  shows "cluster_ok P s'"
  using assms
proof (cases rule: registry_step.cases)
  case (Grant l L m)
  with assms(2) show ?thesis by (auto simp: cluster_ok_def entry_ok_def intro: entry_typed_mono [of P m L])
next
  case (LeaseEnd l L m)
  with assms(2) show ?thesis by (simp add: cluster_ok_lease_end)
next
  case (StoreLease l m dc name ks rv L)
  have "unmarshal_int64 (marshal_int64 l) = Some l" using StoreLease by (intro unmarshal_marshal_int64)
  with StoreLease assms(2) show ?thesis
    by (auto simp: apply_txn_def lease_txn_def key_eqs intro!: cluster_ok_put LeaseEntry)
next
  case (Register node m req p spec l L rv)
  with register_ok [of P m L node req p spec l rv] assms(2) show ?thesis by simp
next
  case (Deregister node m req rv L)
  with assms(2) show ?thesis
    by (auto simp: apply_txn_def deregister_txn_def key_eqs intro!: cluster_ok_delete)
next
  case (AddNode req m rv L)
  with add_node_ok [of P m L req rv] assms(2) show ?thesis by simp
next
  case (Publish rv m L name addr)
  with assms(2) show ?thesis by (auto intro!: cluster_ok_put RegistryEntry simp: key_eqs)
qed

lemma empty_ok: "cluster_ok P (Map.empty, {})"
  by (simp add: cluster_ok_def)

lemma path_ok: "registry_path P s s' \<Longrightarrow> cluster_ok P s \<Longrightarrow> cluster_ok P s'"
  by (induction rule: rtranclp_induct) (auto intro: step_ok)

lemma reachable_ok: "reachable P s \<Longrightarrow> cluster_ok P s"
  unfolding reachable_def by (rule path_ok [OF _ empty_ok])

lemma reachable_path: "reachable P s \<Longrightarrow> registry_path P s s' \<Longrightarrow> reachable P s'"
  unfolding reachable_def by (rule rtranclp_trans)

section \<open>Nodes are permanent\<close>

lemma step_keeps_node:
  assumes "registry_step P s s'" "cluster_ok P s" "fst s (node_key dc name) = Some x"
  shows "fst s' (node_key dc name) = Some x"
  using assms
proof (cases rule: registry_step.cases)
  case (LeaseEnd l L m)
  moreover have "kv_lease x = 0" "0 \<notin> L"
    using LeaseEnd assms(2,3) cluster_ok_node_lease [of P m L] by (auto simp: cluster_ok_def)
  ultimately show ?thesis using assms(3) by (auto simp: drop_lease_def)
next
  case (AddNode req m rv L)
  then have "m (node_key (an_datacenter req) (an_name req)) = None"
    using assms(2) by (intro create_free [of P]) (auto simp: compares_hold_def add_node_txn_def Let_def)
  with AddNode assms(3) show ?thesis by (auto simp: apply_txn_def add_node_txn_def Let_def)
qed (simp_all add: apply_txn_def lease_txn_def register_txn_def deregister_txn_def key_eqs)

lemma path_keeps_node:
  "registry_path P s s' \<Longrightarrow> cluster_ok P s \<Longrightarrow> fst s (node_key dc name) = Some x \<Longrightarrow>
    fst s' (node_key dc name) = Some x"
  by (induction rule: rtranclp_induct) (auto dest: path_ok intro: step_keeps_node)

lemma path_keeps_stored_node:
  "registry_path P s s' \<Longrightarrow> cluster_ok P s \<Longrightarrow> stored_node (fst s) dc name = Inr (Some node) \<Longrightarrow>
    stored_node (fst s') dc name = Inr (Some node)"
  using path_keeps_node by (fastforce simp: stored_node_def split: option.splits)

lemma path_stored_nodes: "registry_path P s s' \<Longrightarrow> cluster_ok P s \<Longrightarrow> stored_nodes (fst s) \<subseteq> stored_nodes (fst s')"
  using path_keeps_stored_node by (fastforce simp: stored_nodes_def)

section \<open>The two indexes\<close>

text \<open>What an entry holds, apart from its revisions.\<close>

definition content :: "kv option \<Rightarrow> (string \<times> int) option" where
  "content x = map_option (\<lambda>e. (kv_value e, kv_lease e)) x"

definition indexes_agree :: "(string \<rightharpoonup> kv) \<Rightarrow> bool" where
  "indexes_agree m \<longleftrightarrow> (\<forall>node \<in> stored_nodes m. \<forall>s i. slash_free s \<and> slash_free i \<longrightarrow>
     content (m (svc_key node s i)) = content (m (ds_svc_key node s i)))"

lemma content_put [simp]: "content (Some (put_entry rv k v l old)) = Some (v, l)"
  by (simp add: content_def)

lemma content_drop: "content (drop_lease l m k) = (case content (m k) of None \<Rightarrow> None | Some (v, l') \<Rightarrow> if l' = l then None else Some (v, l'))"
  by (simp add: content_def drop_lease_def split: option.split)

lemma named_slash_free: "node_named slash_free node = node_slash_free node"
  by (auto simp: node_named_def node_slash_free_def)

text \<open>Two stored nodes with one datacenter and name are one node, so one key of a service determines the other.\<close>

lemma stored_nodes_unique:
  assumes "cluster_ok P (m, L)" "a \<in> stored_nodes m" "b \<in> stored_nodes m"
    and "ns_datacenter a = ns_datacenter b" "ns_name a = ns_name b"
  shows "a = b"
  using stored_node_entry [OF assms(1,2)] stored_node_entry [OF assms(1,3)] assms(4,5)
  by (metis option.inject)

lemma service_keys_match:
  assumes "cluster_ok slash_free (m, L)" "a \<in> stored_nodes m" "b \<in> stored_nodes m"
    and "slash_free s" "slash_free i" "slash_free s'" "slash_free i'"
  shows "svc_key a s i = svc_key b s' i' \<longleftrightarrow> a = b \<and> s = s' \<and> i = i'"
    and "ds_svc_key a s i = ds_svc_key b s' i' \<longleftrightarrow> a = b \<and> s = s' \<and> i = i'"
proof -
  have n: "node_slash_free a" "node_slash_free b"
    using stored_node_entry [OF assms(1,2)] stored_node_entry [OF assms(1,3)] by (auto simp: named_slash_free)
  show "svc_key a s i = svc_key b s' i' \<longleftrightarrow> a = b \<and> s = s' \<and> i = i'"
    using svc_key_inject [OF n(1) assms(4,5) n(2) assms(6,7)] stored_nodes_unique [OF assms(1-3)] by auto
  show "ds_svc_key a s i = ds_svc_key b s' i' \<longleftrightarrow> a = b \<and> s = s' \<and> i = i'"
    using ds_svc_key_split [OF n(1) assms(4,5)] ds_svc_key_split [OF n(2) assms(6,7)] stored_nodes_unique [OF assms(1-3)]
    by auto
qed

lemma stored_nodes_same:
  "(\<And>dc name. m' (node_key dc name) = m (node_key dc name)) \<Longrightarrow> stored_nodes m' = stored_nodes m"
  by (simp add: stored_nodes_def stored_node_def)

text \<open>Steps that leave the nodes alone and treat the two keys of every service alike.\<close>

lemma indexes_agree_frame:
  assumes "indexes_agree m" "\<And>dc name. m' (node_key dc name) = m (node_key dc name)"
    and "\<And>node s i. node \<in> stored_nodes m \<Longrightarrow> slash_free s \<Longrightarrow> slash_free i \<Longrightarrow>
      content (m (svc_key node s i)) = content (m (ds_svc_key node s i)) \<Longrightarrow>
      content (m' (svc_key node s i)) = content (m' (ds_svc_key node s i))"
  shows "indexes_agree m'"
proof -
  have "stored_nodes m' = stored_nodes m" by (rule stored_nodes_same) (rule assms(2))
  with assms(1,3) show ?thesis unfolding indexes_agree_def by blast
qed

text \<open>A node that is not stored has no services, so a new node starts without any.\<close>

lemma unknown_node_no_services:
  assumes "cluster_ok slash_free (m, L)" "m (node_key (ns_datacenter n) (ns_name n)) = None"
    and "node_slash_free n" "slash_free s" "slash_free i"
  shows "m (svc_key n s i) = None" "m (ds_svc_key n s i) = None"
proof -
  have none: "m k = None" if k: "k = svc_key n s i \<or> k = ds_svc_key n s i" for k
  proof (rule ccontr)
    assume "m k \<noteq> None"
    then obtain x where "m k = Some x" by auto
    then have "entry_typed slash_free m L k x" using assms(1) by (simp add: cluster_ok_def)
    then obtain node s' i' where node: "node \<in> stored_nodes m" "slash_free s'" "slash_free i'" "k \<in> service_keys node s' i'"
      by (rule entry_typed_service) (use k in auto)
    from assms(1) node(1) obtain y where y: "m (node_key (ns_datacenter node) (ns_name node)) = Some y" "node_slash_free node"
      by (rule stored_node_entry) (simp add: named_slash_free)
    have "ns_datacenter node = ns_datacenter n \<and> ns_name node = ns_name n"
      using k node(4) svc_key_inject [OF assms(3-5) y(2) node(2,3)] ds_svc_key_split [OF assms(3-5)]
        ds_svc_key_split [OF y(2) node(2,3)]
      by (auto simp: service_keys_def key_eqs)
    with y(1) assms(2) show False by simp
  qed
  from none show "m (svc_key n s i) = None" "m (ds_svc_key n s i) = None" by auto
qed

text \<open>Both keys of one service may take any entries of the same content.\<close>

lemma indexes_agree_service:
  assumes "cluster_ok slash_free (m, L)" "indexes_agree m" "node \<in> stored_nodes m" "slash_free s" "slash_free i"
    and "content x = content y"
  shows "indexes_agree (m(svc_key node s i := x, ds_svc_key node s i := y))"
proof (rule indexes_agree_frame [OF assms(2)])
  fix n t j assume "n \<in> stored_nodes m" "slash_free t" "slash_free j"
    and "content (m (svc_key n t j)) = content (m (ds_svc_key n t j))"
  then show "content ((m(svc_key node s i := x, ds_svc_key node s i := y)) (svc_key n t j)) =
      content ((m(svc_key node s i := x, ds_svc_key node s i := y)) (ds_svc_key n t j))"
    using service_keys_match [of m L n node t j s i] assms by (auto simp: key_eqs)
qed (simp add: key_eqs)

lemma add_node_indexes:
  assumes "cluster_ok slash_free (m, L)" "indexes_agree m" "node_valid (requested_node req)"
    and "slash_free (an_name req)" "slash_free (an_datacenter req)" "slash_free (an_location req)"
    and "compares_hold m (add_node_txn req)"
  shows "indexes_agree (apply_txn rv (add_node_txn req) m)"
proof -
  let ?n = "requested_node req" and ?k = "node_key (an_datacenter req) (an_name req)"
  let ?m' = "apply_txn rv (add_node_txn req) m"
  have free: "m ?k = None"
    using assms(1,7) by (intro create_free) (auto simp: compares_hold_def add_node_txn_def Let_def)
  have m': "?m' = m(?k \<mapsto> put_entry rv ?k (marshal_node ?n) 0 None)"
    using free by (simp add: apply_txn_def add_node_txn_def Let_def)
  have agree: "content (?m' (svc_key node s i)) = content (?m' (ds_svc_key node s i))"
    if node: "node \<in> stored_nodes ?m'" "slash_free s" "slash_free i" for node s i
  proof (cases "node \<in> stored_nodes m")
    case True
    with assms(2) node(2,3) show ?thesis by (simp add: m' key_eqs indexes_agree_def)
  next
    case False
    obtain dc name where "stored_node ?m' dc name = Inr (Some node)" using node(1) by (auto simp: stored_nodes_def)
    moreover from this have "node_key dc name = ?k"
      using False by (auto simp: stored_nodes_def stored_node_def m' split: if_splits)
    ultimately have "node = ?n" using node_codec.dec_enc [OF assms(3)] by (simp add: stored_node_def m')
    then show ?thesis
      using unknown_node_no_services [OF assms(1), of ?n s i] free assms(4-6) node(2,3)
      by (simp add: m' key_eqs requested_node_def node_slash_free_def)
  qed
  then show ?thesis by (simp add: indexes_agree_def)
qed

lemma step_indexes_agree:
  assumes "registry_step slash_free s s'" "cluster_ok slash_free s" "indexes_agree (fst s)"
  shows "indexes_agree (fst s')"
  using assms(1)
proof (cases rule: registry_step.cases)
  case (LeaseEnd l L m)
  have "kv_lease x \<noteq> l" if "m (node_key dc name) = Some x" for dc name x
    using cluster_ok_node_lease [of slash_free m L dc name x] that LeaseEnd assms(2) by (auto simp: cluster_ok_def)
  with LeaseEnd assms(3) show ?thesis
    by (auto intro!: indexes_agree_frame [of m] simp: content_drop) (auto simp: drop_lease_def split: option.split)
next
  case (Register node m req p spec l L rv)
  let ?k1 = "svc_key node (reg_service req) (reg_instance req)" and ?k2 = "ds_svc_key node (reg_service req) (reg_instance req)"
  have "indexes_agree (m(?k1 \<mapsto> put_entry rv ?k1 (marshal_spec spec) l (m ?k1),
      ?k2 \<mapsto> put_entry rv ?k2 (marshal_spec spec) l (m ?k2)))"
    using Register assms(2,3) by (intro indexes_agree_service [of m L]) simp_all
  with Register show ?thesis by (simp add: apply_txn_def register_txn_def key_eqs)
next
  case (Deregister node m req rv L)
  have "indexes_agree (m(svc_key node (dereg_service req) (dereg_instance req) := None,
      ds_svc_key node (dereg_service req) (dereg_instance req) := None))"
    using Deregister assms(2,3) by (intro indexes_agree_service [of m L]) simp_all
  with Deregister show ?thesis by (simp add: apply_txn_def deregister_txn_def)
next
  case (AddNode req m rv L)
  then show ?thesis using assms(2,3) by (auto intro: add_node_indexes)
next
  case (Grant l L m)
  with assms(3) show ?thesis by simp
next
  case (StoreLease l m dc name ks rv L)
  have "indexes_agree (apply_txn rv (lease_txn (lease_key dc name) ks l) m)"
    by (rule indexes_agree_frame [of m]) (use StoreLease assms(3) in \<open>simp_all add: apply_txn_def lease_txn_def key_eqs\<close>)
  with StoreLease show ?thesis by simp
next
  case (Publish rv m L name addr)
  have "indexes_agree (m(peer_api_key name \<mapsto> put_entry rv (peer_api_key name) addr 0 (m (peer_api_key name))))"
    by (rule indexes_agree_frame [of m]) (use Publish assms(3) in \<open>simp_all add: key_eqs\<close>)
  with Publish show ?thesis by simp
qed

lemma reachable_indexes_agree: "reachable slash_free s \<Longrightarrow> indexes_agree (fst s)"
  unfolding reachable_def
proof (induction rule: rtranclp_induct)
  case base
  then show ?case by (simp add: indexes_agree_def content_def)
next
  case (step s s')
  then show ?case using path_ok [OF step(1) empty_ok] by (auto intro: step_indexes_agree)
qed

section \<open>What a reachable store holds under the prefixes that the handlers read\<close>

lemma reachable_services:
  assumes "reachable P (m, L)" "m k = Some x" "prefix ''svc/'' k \<or> prefix ''dcsvc/'' k"
  obtains node s i spec where "node \<in> stored_nodes m" "k \<in> service_keys node s i" "kv_value x = marshal_spec spec"
    "spec_valid spec" "describes node s i spec" "kv_lease x \<in> L" "P s" "P i"
proof -
  have "entry_typed P m L k x" using reachable_ok [OF assms(1)] assms(2) by (simp add: cluster_ok_def)
  then show thesis
    using that assms(3)
    by (cases rule: entry_typed.cases) (auto simp: node_key_def lease_key_def peer_api_key_def key_path_two)
qed

lemma reachable_all_decode:
  assumes "reachable P (m, L)"
  shows "all_decode m (''svc/'' @ rest)" "all_decode_ptr m (dc_prefix dc)"
proof -
  have val: "\<exists>spec. kv_value (the (m k)) = marshal_spec spec \<and> spec_valid spec"
    if k: "k \<in> matching m p" "prefix ''svc/'' p \<or> prefix ''dcsvc/'' p" for k p
  proof -
    from k obtain x where x: "m k = Some x" "prefix ''svc/'' k \<or> prefix ''dcsvc/'' k"
      by (auto simp: matching_def dest: prefix_order.trans)
    from reachable_services [OF assms x] x(1) show ?thesis by auto
  qed
  show "all_decode m (''svc/'' @ rest)"
    using val [of _ "''svc/'' @ rest"] spec_codec.dec_enc
    by (fastforce simp: all_decode_def spec_at_def matching_def)
  show "all_decode_ptr m (dc_prefix dc)"
    using val [of _ "dc_prefix dc"] unmarshal_marshal_spec(2)
    by (fastforce simp: all_decode_ptr_def dc_prefix_def)
qed

end
