(* ===== verification/Moves.thy ===== *)
theory Moves
  imports AgentApi NodeApi ObserverApi PeerApi RegEtcd
begin

text \<open>
  What a handler does to the store is made of its requests to etcd. Locale \<open>moving_store\<close> is what the walk
  through the handlers needs of a relation between the store before and after: it is reflexive and transitive,
  every request except a revocation is in it, and so is a transaction that is \<open>okay\<close>. Two relations
  are of this kind: being a path of steps of the cluster (theory Shared), and leaving the services
  alone (theory Ownership).
\<close>

locale moving_store =
  fixes E :: "'e etcd" and ok :: "'e \<Rightarrow> bool" and mv :: "'e \<Rightarrow> 'e \<Rightarrow> bool" and okay :: "txn_request \<Rightarrow> 'e \<Rightarrow> bool"
  assumes mv_refl: "ok e \<Longrightarrow> mv e e"
    and mv_trans: "mv e e1 \<Longrightarrow> mv e1 e2 \<Longrightarrow> mv e e2"
    and mv_ok: "mv e e' \<Longrightarrow> ok e'"
    and mv_range: "ok e \<Longrightarrow> etcd_range E e r = (found, e') \<Longrightarrow> mv e e'"
    and mv_txn: "ok e \<Longrightarrow> okay t e \<Longrightarrow> etcd_txn E e t = (done, e') \<Longrightarrow> mv e e'"
    and lease_okay: "- (2 ^ 63) \<le> l \<Longrightarrow> l < 2 ^ 63 \<Longrightarrow> okay (lease_txn (lease_key dc name) ks l) e"
    and mv_put: "ok e \<Longrightarrow> etcd_put E e (peer_api_key name) v = (stored, e') \<Longrightarrow> mv e e'"
    and mv_grant: "ok e \<Longrightarrow> etcd_lease_grant E e ttl = (granted, e') \<Longrightarrow> mv e e'"
    and grant_bounded: "ok e \<Longrightarrow> etcd_lease_grant E e ttl = (Inr l, e') \<Longrightarrow> - (2 ^ 63) \<le> l \<and> l < 2 ^ 63 \<and> l \<noteq> 0"
    and mv_renew: "ok e \<Longrightarrow> etcd_lease_renew E e l = (renewed, e') \<Longrightarrow> mv e e'"
    and renewed_nonzero: "ok e \<Longrightarrow> etcd_lease_renew E e l = (Inr ttl, e') \<Longrightarrow> l \<noteq> 0"
    and mv_add_member: "ok e \<Longrightarrow> etcd_add_member E e name urls = (added, e') \<Longrightarrow> mv e e'"
    and mv_update_member: "ok e \<Longrightarrow> etcd_update_member E e m = (updated, e') \<Longrightarrow> mv e e'"
begin

lemma get_node_schema_mv: "ok e \<Longrightarrow> get_node_schema E dc name e = (res, e') \<Longrightarrow> mv e e'"
  using mv_range by (auto simp: get_node_schema_def split: prod.splits sum.splits list.splits option.splits)

lemma authenticate_from_certificate_mv: "ok e \<Longrightarrow> authenticate_from_certificate E cert e = (res, e') \<Longrightarrow> mv e e'"
  using get_node_schema_mv mv_refl
  by (auto simp: authenticate_from_certificate_def split: option.splits sum.splits prod.splits)

lemma authenticate_node_mv: "ok e \<Longrightarrow> authenticate_node E ctx implicit e = (res, e') \<Longrightarrow> mv e e'"
  using authenticate_from_certificate_mv
  by (auto simp: authenticate_node_def Let_def split: sum.splits prod.splits if_splits)

lemma renew_stored_mv: "ok e \<Longrightarrow> renew_stored E ks e = (l, e') \<Longrightarrow> mv e e'"
  by (auto simp: renew_stored_def intro: mv_refl mv_renew
      split: list.splits option.splits prod.splits sum.splits)

lemma renew_stored_nonzero: "ok e \<Longrightarrow> renew_stored E ks e = (Some l, e') \<Longrightarrow> l \<noteq> 0"
  using renewed_nonzero by (auto simp: renew_stored_def split: list.splits option.splits prod.splits sum.splits)

lemma lease_rounds_mv:
  assumes "ok e" "lease_rounds n E (lease_key dc name) e = (res, e')"
  shows "mv e e' \<and> (\<forall>l. res = Inr l \<longrightarrow> l \<noteq> 0)"
  using assms
proof (induction n arbitrary: e)
  case (Suc n)
  have offered: "mv e e2"
    if "etcd_range E e \<lparr>rr_key = lease_key dc name, rr_end = [], rr_limit = 0\<rparr> = (Inr ks, e1)" "renew_stored E ks e1 = (m, e2)"
    for ks e1 m e2
    using mv_range [OF Suc.prems(1) that(1)] renew_stored_mv [OF _ that(2)] by (blast intro: mv_trans mv_ok)
  have granted: "mv e e3" if "mv e e2" "etcd_lease_grant E e2 ttl = (g, e3)" for e2 ttl g e3
    using mv_trans [OF that(1) mv_grant [OF mv_ok [OF that(1)] that(2)]] .
  have sent: "mv e e4" "l \<noteq> 0"
    if "mv e e2" "etcd_lease_grant E e2 ttl = (Inr l, e3)" "etcd_txn E e3 (lease_txn (lease_key dc name) ks l) = (d, e4)"
    for e2 ttl l e3 ks d e4
    using mv_txn [OF mv_ok [OF granted [OF that(1,2)]] lease_okay that(3)] granted [OF that(1,2)]
      grant_bounded [OF mv_ok [OF that(1)] that(2)] by (blast intro: mv_trans)+
  from Suc.prems(2) show ?case
  proof (cases rule: lease_rounds_cases)
    case Unread
    then show ?thesis using mv_range [OF Suc.prems(1)] by auto
  next
    case (Renewed m ks e1 l)
    then show ?thesis
      using offered [OF Renewed(2,3)] renew_stored_nonzero [OF mv_ok [OF mv_range [OF Suc.prems(1) Renewed(2)]]] by auto
  next
    case Ungranted
    then show ?thesis using granted [OF offered [OF Ungranted(2,3)]] by auto
  next
    case Unsent
    then show ?thesis using sent [OF offered [OF Unsent(2,3)]] by auto
  next
    case Stored
    then show ?thesis using sent [OF offered [OF Stored(2,3)]] by auto
  next
    case (Overtaken m ks e1 e2 l e3 e4)
    have e4: "mv e e4" using sent(1) [OF offered [OF Overtaken(2,3)] Overtaken(4,5)] .
    then show ?thesis using mv_trans [OF e4] Suc.IH [OF mv_ok [OF e4]] Overtaken(1,6) by auto
  qed simp
qed (simp add: mv_refl; blast)

lemma get_node_lease_mv:
  assumes "ok e" "get_node_lease E dc name e = (res, e')"
  shows "mv e e'" "res = Inr l \<Longrightarrow> l \<noteq> 0"
  using lease_rounds_mv [OF assms(1), of 5 dc name res e'] assms(2) by (auto simp: get_node_lease_def)

lemma reset_mv:
  assumes "ok e" "reset E ctx e = (res, e')"
    and revoke_mv: "\<And>e l r e'. ok e \<Longrightarrow> etcd_lease_revoke E e l = (r, e') \<Longrightarrow> mv e e'"
  shows "mv e e'"
proof -
  obtain a e1 where auth: "authenticate_agent E ctx e = (a, e1)" by fastforce
  note m1 = authenticate_node_mv [OF assms(1) auth [unfolded authenticate_agent_def]]
  have rev: "mv e3 e4" if "ok e3" "revoke_stored E ks e3 = (r, e4)" for e3 ks r e4
    using that revoke_mv by (auto simp: revoke_stored_def intro: mv_refl
        split: list.splits option.splits prod.splits sum.splits)
  show ?thesis
  proof (cases a)
    case (Inl err)
    with auth assms(2) m1 show ?thesis by (simp add: reset_def)
  next
    case (Inr node)
    let ?r = "\<lparr>rr_key = lease_key (ns_datacenter node) (ns_name node), rr_end = [], rr_limit = 0\<rparr>"
    obtain found e2 where rg: "etcd_range E e1 ?r = (found, e2)" by fastforce
    have m2: "mv e e2" by (rule mv_trans [OF m1 mv_range [OF mv_ok [OF m1] rg]])
    show ?thesis
    proof (cases found)
      case (Inl err)
      with auth \<open>a = Inr node\<close> rg assms(2) m2 show ?thesis by (simp add: reset_def)
    next
      case (Inr ks)
      with auth \<open>a = Inr node\<close> rg assms(2) have "revoke_stored E ks e2 = (res, e')" by (simp add: reset_def)
      then show ?thesis using mv_trans [OF m2 rev [OF mv_ok [OF m2]]] by blast
    qed
  qed
qed

lemma get_service_internal_mv:
  "ok e \<Longrightarrow> get_service_internal E pfx n e = (res, e') \<Longrightarrow> mv e e'"
  using mv_range by (auto simp: get_service_internal_def split: sum.splits prod.splits)

lemma fill_services_mv: "ok e \<Longrightarrow> fill_services E ord pfx svcs e = (svcs', e') \<Longrightarrow> mv e e'"
  using get_service_internal_mv by (auto simp: fill_services_def split: sum.splits prod.splits)

lemma widen_mv:
  assumes "mv e (snd x)"
  shows "mv e (snd (widen b E ord pfx x))"
proof -
  have "mv (snd x) (snd (widen b E ord pfx x))"
    using fill_services_mv [OF mv_ok [OF assms], of ord pfx "fst x"] mv_refl [OF mv_ok [OF assms]]
    by (cases "fill_services E ord pfx (fst x) (snd x)") (auto simp: widen_def split: prod.splits)
  with assms show ?thesis by (rule mv_trans)
qed

lemma discover_mv:
  assumes "ok e" "discover E ord ptr ctx req e = (res, e')"
  shows "mv e e'"
proof -
  obtain a e1 where auth: "authenticate_agent E ctx e = (a, e1)" by fastforce
  note m1 = authenticate_node_mv [OF assms(1) auth [unfolded authenticate_agent_def]]
  have widened: "mv e (snd (widen b1 E o1 p1 (widen b2 E o2 p2 (widen b3 E o3 p3 (svcs, e2)))))"
    if "mv e e2" for b1 o1 p1 b2 o2 p2 b3 o3 p3 svcs e2
    using that by (intro widen_mv) simp
  obtain s l d n where pf: "discover_prefixes (disc_service req)
      (case disc_location req of None \<Rightarrow> ns_location (projr a) | Some l \<Rightarrow> l)
      (case disc_datacenter req of None \<Rightarrow> ns_datacenter (projr a) | Some d \<Rightarrow> d)
      (case disc_node req of None \<Rightarrow> ns_name (projr a) | Some n \<Rightarrow> n) = (s, l, d, n)"
    by (metis prod_cases4)
  obtain f e2 where found: "(case disc_instance req of
        Some _ \<Rightarrow> get_service_internal E (n @ ptr) 1 e1
      | None \<Rightarrow> get_service_internal E n (int max_get_service_limit) e1) = (f, e2)" by fastforce
  then have m2: "mv e e2"
    using get_service_internal_mv [OF mv_ok [OF m1]] mv_trans [OF m1] by (auto split: option.splits)
  let ?w = "\<lambda>svcs. widen (disc_location req = None) E (ord 2) s (widen (disc_datacenter req = None) E (ord 1) l
    (widen (disc_node req = None) E (ord 0) d (svcs, e2)))"
  have "e' = e1 \<or> e' = e2 \<or> (\<exists>svcs. e' = snd (?w svcs))"
  proof (cases a)
    case (Inr node)
    with auth pf [unfolded Inr sum.sel] found assms(2) show ?thesis by (cases f; cases "?w (projr f)") (auto simp: discover_def, metis snd_conv)
  qed (use auth assms(2) in \<open>simp add: discover_def\<close>)
  then show ?thesis using m1 m2 widened [OF m2] by auto
qed

lemma config_request_mv:
  assumes "ok e" "config_request E st seed now issued ctx e = (res, e')"
  shows "mv e e'"
proof (cases "extract_peer_certificate ctx")
  case (Inl err)
  with assms show ?thesis by (simp add: config_request_def mv_refl)
next
  case c: (Inr c)
  obtain a e1 where auth: "authenticate_from_certificate E (Some c) e = (a, e1)" by fastforce
  note m1 = authenticate_from_certificate_mv [OF assms(1) auth]
  obtain found e2 where rg: "etcd_range E e1 (prefix_request ''peer_agent_api'' 0) = (found, e2)" by fastforce
  note m2 = mv_trans [OF m1 mv_range [OF mv_ok [OF m1] rg]]
  have "e' = e1 \<or> e' = e2"
    using assms(2) c auth rg by (auto simp: config_request_def Let_def split: sum.splits prod.splits)
  with m1 m2 show ?thesis by auto
qed

lemma heartbeat_mv:
  assumes "ok e" "heartbeat E ctx e = (res, e')"
  shows "mv e e'"
proof (cases "extract_peer_certificate ctx")
  case (Inl err)
  with assms show ?thesis by (simp add: heartbeat_def mv_refl)
next
  case c: (Inr c)
  obtain a e1 where auth: "authenticate_from_certificate E (Some c) e = (a, e1)" by fastforce
  note m1 = authenticate_from_certificate_mv [OF assms(1) auth]
  show ?thesis
  proof (cases a)
    case (Inl err)
    with assms(2) c auth m1 show ?thesis by (simp add: heartbeat_def)
  next
    case (Inr x)
    then obtain role node where x: "a = Inr (role, node)" by (cases x) auto
    obtain l e2 where lease: "get_node_lease E (ns_datacenter node) (ns_name node) e1 = (l, e2)" by fastforce
    with x c auth assms(2) have "e' = e2" by (simp add: heartbeat_def)
    then show ?thesis using mv_trans [OF m1 get_node_lease_mv(1) [OF mv_ok [OF m1] lease]] by simp
  qed
qed

lemma get_datacenter_services_mv:
  assumes "ok e" "get_datacenter_services E ctx e = (res, e')"
  shows "mv e e'"
proof -
  obtain a e1 where auth: "authenticate_observer E ctx e = (a, e1)" by fastforce
  note m1 = authenticate_node_mv [OF assms(1) auth [unfolded authenticate_observer_def]]
  show ?thesis
  proof (cases a)
    case (Inl err)
    with auth assms(2) m1 show ?thesis by (simp add: get_datacenter_services_def)
  next
    case (Inr node)
    obtain found e2 where rg: "etcd_range E e1 (prefix_request (dc_prefix (ns_datacenter node)) 0) = (found, e2)" by fastforce
    with auth Inr assms(2) have "e' = e2" by (auto simp: get_datacenter_services_def split: sum.splits option.splits)
    then show ?thesis using mv_trans [OF m1 mv_range [OF mv_ok [OF m1] rg]] by simp
  qed
qed

lemma watch_datacenter_services_mv:
  assumes "ok e" "watch_datacenter_services E events send ctx e = (res, e')"
  shows "mv e e'"
  using assms(2) authenticate_node_mv [OF assms(1)]
  by (auto simp: watch_datacenter_services_def authenticate_observer_def split: sum.splits prod.splits)

lemma add_self_peer_mv:
  assumes "ok e" "add_self_peer E parse_url ctx urls e = (res, e')"
  shows "mv e e'"
  using assms(2) mv_add_member [OF assms(1)] mv_refl [OF assms(1)]
  by (auto simp: add_self_peer_def split: sum.splits prod.splits option.splits if_splits)

lemma get_node_credentials_mv:
  assumes "ok e" "get_node_credentials E st seed now req e = (res, e')"
  shows "mv e e'"
  using assms(2) get_node_schema_mv [OF assms(1)]
  by (auto simp: get_node_credentials_def split: sum.splits prod.splits option.splits)

lemma etcd_post_start_update_mv:
  assumes "ok e"
  shows "mv e (etcd_post_start_update E show_url c ec e)"
proof -
  let ?m = "\<lparr>mem_id = etcd_member_id E e, mem_name = [], mem_peer_urls = map show_url (ec_advertise_peer_urls ec),
    mem_client_urls = map show_url (ec_advertise_client_urls ec)\<rparr>"
  obtain u e1 where up: "etcd_update_member E e ?m = (u, e1)" by fastforce
  note m1 = mv_update_member [OF assms up]
  obtain d e2 where put: "etcd_put E e1 (peer_api_key (ec_name ec)) (agent_api_advertise_host c) = (d, e2)" by fastforce
  show ?thesis
    using mv_trans [OF m1 mv_put [OF mv_ok [OF m1] put]] up put
    by (simp add: etcd_post_start_update_def Let_def)
qed

text \<open>The three handlers that write other keys; the caller shows that their transaction is okay where it is sent.\<close>

lemma register_mv:
  assumes "ok e" "register E ctx req e = (res, e')"
    and "\<And>node e1 p spec l e2. authenticate_agent E ctx e = (Inr node, e1) \<Longrightarrow> ctx = Some p \<Longrightarrow>
      fill_addresses p (registered_spec node req) = Inr spec \<Longrightarrow> l \<noteq> 0 \<Longrightarrow> mv e1 e2 \<Longrightarrow> okay (register_txn node req spec l) e2"
  shows "mv e e'"
proof -
  obtain a e1 where auth: "authenticate_agent E ctx e = (a, e1)" by fastforce
  note m1 = authenticate_node_mv [OF assms(1) auth [unfolded authenticate_agent_def]]
  consider (refused) "e' = e1" | (filled) node p spec where "a = Inr node" "ctx = Some p"
      "fill_addresses p (registered_spec node req) = Inr spec"
    using auth assms(2) by (auto simp: register_def split: sum.splits option.splits)
  then show ?thesis
  proof cases
    case refused
    then show ?thesis using m1 by simp
  next
    case filled
    obtain l e2 where lease: "get_node_lease E (ns_datacenter node) (ns_name node) e1 = (l, e2)" by fastforce
    note m2 = get_node_lease_mv [OF mv_ok [OF m1] lease]
    show ?thesis
    proof (cases l)
      case (Inl err)
      with auth filled lease assms(2) mv_trans [OF m1 m2(1)] show ?thesis by (simp add: register_def)
    next
      case (Inr i)
      obtain d e3 where tx: "etcd_txn E e2 (register_txn node req spec i) = (d, e3)" by fastforce
      have "okay (register_txn node req spec i) e2" using assms(3) auth filled m2 Inr by blast
      then have "mv e e3" using mv_txn [OF mv_ok [OF m2(1)] _ tx] mv_trans [OF m1] mv_trans [OF m2(1)] by blast
      moreover have "e' = e3"
        using auth filled lease Inr tx assms(2) by (auto simp: register_def split: sum.splits bool.splits)
      ultimately show ?thesis by simp
    qed
  qed
qed

lemma deregister_mv:
  assumes "ok e" "deregister E ctx req e = (res, e')"
    and "\<And>node e1. authenticate_agent E ctx e = (Inr node, e1) \<Longrightarrow> okay (deregister_txn node req) e1"
  shows "mv e e'"
proof -
  obtain a e1 where auth: "authenticate_agent E ctx e = (a, e1)" by fastforce
  note m1 = authenticate_node_mv [OF assms(1) auth [unfolded authenticate_agent_def]]
  show ?thesis
  proof (cases a)
    case (Inl err)
    with auth assms(2) m1 show ?thesis by (simp add: deregister_def)
  next
    case (Inr node)
    obtain d e2 where tx: "etcd_txn E e1 (deregister_txn node req) = (d, e2)" by fastforce
    have "mv e1 e2" using mv_txn [OF mv_ok [OF m1] _ tx] assms(3) auth Inr by blast
    moreover have "e' = e2" using auth Inr tx assms(2) by (auto simp: deregister_def split: sum.splits bool.splits)
    ultimately show ?thesis using mv_trans [OF m1] by simp
  qed
qed

lemma add_node_mv:
  "ok e \<Longrightarrow> okay (add_node_txn req) e \<Longrightarrow> add_node E st seed now req e = (res, e') \<Longrightarrow> mv e e'"
  using mv_txn by (auto simp: add_node_def split: sum.splits prod.splits bool.splits)

end

end
