(* ===== verification/Shared.thy ===== *)
theory Shared
  imports Cluster Moves
begin

text \<open>
  The handlers against a store that other registries use at the same time. Locale \<open>stepped_store\<close>
  is what a handler may rely on when any number of other steps happen between two of its requests,
  for any step relation, and \<open>shared_store\<close> extends it for the steps of theory Cluster; they suffice to show that
  whatever the handler does is itself a path of steps. Theory Interleave shows that they hold of a store (contract
  \<open>etcd_atomic\<close>) that makes arbitrary steps of other clients before each request.
\<close>

section \<open>The interface\<close>

lemma step_path: "registry_step P s s' \<Longrightarrow> registry_path P s s'"
  by (rule r_into_rtranclp)

text \<open>A transaction that is a step wherever the others may have brought the store to.\<close>

definition allowed_by :: "(cluster \<Rightarrow> cluster \<Rightarrow> bool) \<Rightarrow> txn_request \<Rightarrow> cluster \<Rightarrow> bool" where
  "allowed_by step t s \<longleftrightarrow> (\<forall>m L rv. step\<^sup>*\<^sup>* s (m, L) \<and> compares_hold m t
     \<and> (\<forall>op \<in> set (txn_success t). op_lease op = 0 \<or> op_lease op \<in> L) \<and> 0 < rv \<longrightarrow>
     step (m, L) (apply_txn rv t m, L))"

definition moves_by :: "(cluster \<Rightarrow> cluster \<Rightarrow> bool) \<Rightarrow> ('e \<Rightarrow> bool) \<Rightarrow> ('e \<Rightarrow> cluster) \<Rightarrow> 'e \<Rightarrow> 'e \<Rightarrow> bool" where
  "moves_by step ok view e e' \<longleftrightarrow> ok e' \<and> step\<^sup>*\<^sup>* (view e) (view e')"

abbreviation allowed :: "(string \<Rightarrow> bool) \<Rightarrow> txn_request \<Rightarrow> cluster \<Rightarrow> bool" where
  "allowed P \<equiv> allowed_by (registry_step P)"

abbreviation moves :: "(string \<Rightarrow> bool) \<Rightarrow> ('e \<Rightarrow> bool) \<Rightarrow> ('e \<Rightarrow> cluster) \<Rightarrow> 'e \<Rightarrow> 'e \<Rightarrow> bool" where
  "moves P \<equiv> moves_by (registry_step P)"

text \<open>The names of a new node, as protobuf delivers them.\<close>

definition node_request_valid :: "(string \<Rightarrow> bool) \<Rightarrow> add_node_request \<Rightarrow> bool" where
  "node_request_valid P req \<longleftrightarrow> P (an_name req) \<and> P (an_datacenter req) \<and> P (an_location req)
     \<and> utf8_valid (an_name req) \<and> utf8_valid (an_datacenter req) \<and> utf8_valid (an_location req)"

text \<open>A registration whose strings are text, as the declaration of the messages has it, from a caller whose address is
  valid UTF-8 as well.\<close>

definition request_valid :: "(string \<Rightarrow> bool) \<Rightarrow> rpc_peer option \<Rightarrow> register_request \<Rightarrow> bool" where
  "request_valid P ctx req \<longleftrightarrow> P (reg_service req) \<and> P (reg_instance req)
     \<and> utf8_valid (reg_service req) \<and> utf8_valid (reg_instance req)
     \<and> list_all utf8_valid (reg_addresses req) \<and> list_all port_valid (reg_ports req)
     \<and> (\<forall>p ip port. ctx = Some p \<and> split_host_port (peer_address p) = Inr (ip, port) \<longrightarrow> utf8_valid ip)"

lemma request_spec_valid:
  assumes "request_valid P (Some p) req" "node_valid node" "fill_addresses p (registered_spec node req) = Inr spec"
  shows "spec_valid spec"
  using assms
  by (auto simp: request_valid_def fill_addresses_def registered_spec_def spec_valid_def node_valid_def opt_valid_def
      split: if_splits sum.splits)

text \<open>The interface for any step relation that keeps the stored nodes and contains the update of a lease.\<close>

locale stepped_store =
  fixes E :: "'e etcd" and ok :: "'e \<Rightarrow> bool" and view :: "'e \<Rightarrow> cluster" and step :: "cluster \<Rightarrow> cluster \<Rightarrow> bool"
  assumes node_kept: "ok e \<Longrightarrow> step\<^sup>*\<^sup>* (view e) s \<Longrightarrow> step\<^sup>*\<^sup>* s s' \<Longrightarrow>
      stored_node (fst s) dc name = Inr (Some node) \<Longrightarrow> stored_node (fst s') dc name = Inr (Some node)"
    and lease_allowed: "- (2 ^ 63) \<le> l \<Longrightarrow> l < 2 ^ 63 \<Longrightarrow> allowed_by step (lease_txn (lease_key dc name) ks l) s"
    and range_moves: "ok e \<Longrightarrow> etcd_range E e r = (found, e') \<Longrightarrow> moves_by step ok view e e'"
    and range_at: "ok e \<Longrightarrow> etcd_range E e r = (Inr ks, e') \<Longrightarrow>
      \<exists>s. step\<^sup>*\<^sup>* (view e) s \<and> step\<^sup>*\<^sup>* s (view e') \<and> ks = range_kvs (fst s) r"
    and txn_moves: "ok e \<Longrightarrow> allowed_by step t (view e) \<Longrightarrow> etcd_txn E e t = (done, e') \<Longrightarrow> moves_by step ok view e e'"
    and put_moves: "ok e \<Longrightarrow> etcd_put E e (peer_api_key name) v = (stored, e') \<Longrightarrow> moves_by step ok view e e'"
    and grant_moves: "ok e \<Longrightarrow> etcd_lease_grant E e ttl = (granted, e') \<Longrightarrow> moves_by step ok view e e'"
    and grant_bounds: "ok e \<Longrightarrow> etcd_lease_grant E e ttl = (Inr l, e') \<Longrightarrow> - (2 ^ 63) \<le> l \<and> l < 2 ^ 63 \<and> l \<noteq> 0"
    and renew_moves: "ok e \<Longrightarrow> etcd_lease_renew E e l = (renewed, e') \<Longrightarrow> moves_by step ok view e e'"
    and renew_nonzero: "ok e \<Longrightarrow> etcd_lease_renew E e l = (Inr ttl, e') \<Longrightarrow> l \<noteq> 0"
    and revoke_moves: "ok e \<Longrightarrow> etcd_lease_revoke E e l = (revoked, e') \<Longrightarrow> moves_by step ok view e e'"
    and add_member_moves: "ok e \<Longrightarrow> etcd_add_member E e name urls = (added, e') \<Longrightarrow> moves_by step ok view e e'"
    and update_member_moves: "ok e \<Longrightarrow> etcd_update_member E e m = (updated, e') \<Longrightarrow> moves_by step ok view e e'"
begin

lemma moves_refl: "ok e \<Longrightarrow> moves_by step ok view e e"
  by (simp add: moves_by_def)

lemma moves_trans: "moves_by step ok view e e1 \<Longrightarrow> moves_by step ok view e1 e2 \<Longrightarrow> moves_by step ok view e e2"
  by (auto simp: moves_by_def)

lemma moves_ok: "moves_by step ok view e e' \<Longrightarrow> ok e'"
  by (simp add: moves_by_def)

lemma moves_stored_nodes: "ok e \<Longrightarrow> moves_by step ok view e e' \<Longrightarrow> stored_nodes (fst (view e)) \<subseteq> stored_nodes (fst (view e'))"
  using node_kept [of e "view e" "view e'"] unfolding moves_by_def stored_nodes_def by blast

end

text \<open>Paths of steps are such a relation; a transaction is okay where it is allowed.\<close>

sublocale stepped_store \<subseteq> moving: moving_store E ok "moves_by step ok view" "\<lambda>t e. allowed_by step t (view e)"
  using moves_refl moves_trans moves_ok range_moves txn_moves lease_allowed put_moves grant_moves grant_bounds renew_moves
    renew_nonzero add_member_moves update_member_moves
  by unfold_locales

context stepped_store
begin

section \<open>The handlers make steps only\<close>

lemma get_node_schema_moves:
  assumes "ok e" "get_node_schema E dc name e = (res, e')"
  shows "moves_by step ok view e e'" "res = Inr (Some node) \<Longrightarrow> stored_node (fst (view e')) dc name = Inr (Some node)"
proof -
  let ?r = "\<lparr>rr_key = node_key dc name, rr_end = [], rr_limit = 1\<rparr>"
  obtain found e1 where rg: "etcd_range E e ?r = (found, e1)" by fastforce
  with assms(2) have [simp]: "e1 = e'"
    by (auto simp: get_node_schema_def split: sum.splits list.splits option.splits)
  show "moves_by step ok view e e'" using range_moves [OF assms(1) rg] by simp
  assume res: "res = Inr (Some node)"
  then obtain ks where ks: "found = Inr ks"
    using rg assms(2) by (cases found) (auto simp: get_node_schema_def)
  from range_at [OF assms(1) rg [unfolded ks]]
  obtain s where s: "step\<^sup>*\<^sup>* (view e) s" "step\<^sup>*\<^sup>* s (view e')" "ks = range_kvs (fst s) ?r" by auto
  then have "stored_node (fst s) dc name = Inr (Some node)"
    using rg ks res assms(2) range_kvs_key [of 1 "fst s" "node_key dc name"]
    by (auto simp: get_node_schema_def stored_node_def split: option.splits)
  then show "stored_node (fst (view e')) dc name = Inr (Some node)" by (rule node_kept [OF assms(1) s(1,2)])
qed

text \<open>The caller that a handler has authenticated is one by the store as it is then.\<close>

lemma authenticate_agent_moves:
  assumes "ok e" "authenticate_agent E ctx e = (res, e')"
  shows "moves_by step ok view e e'" "res = Inr node \<Longrightarrow> caller (fst (view e')) ctx agent_certificate_ou = Inr node"
    "res = Inr node \<Longrightarrow> node \<in> stored_nodes (fst (view e'))"
proof -
  note auth = assms(2) [unfolded authenticate_agent_def]
  show "moves_by step ok view e e'" by (rule moving.authenticate_node_mv [OF assms(1) auth])
  show caller: "caller (fst (view e')) ctx agent_certificate_ou = Inr node" if res: "res = Inr node"
  proof -
    obtain c e1 where c: "extract_peer_certificate ctx = Inr c"
      "authenticate_from_certificate E (Some c) e = (Inr (agent_certificate_ou, node), e1)" "e' = e1"
      using auth res by (auto simp: authenticate_node_def authenticate_from_certificate_def Let_def
          split: prod.splits sum.splits option.splits if_splits)
    then obtain e2 where len: "length (pn_ou (crt_subject c)) = 2" "pn_ou (crt_subject c) ! 1 = agent_certificate_ou"
      and node: "get_node_schema E (pn_ou (crt_subject c) ! 0) (pn_cn (crt_subject c)) e = (Inr (Some node), e2)" "e' = e2"
      by (auto simp: authenticate_from_certificate_def extract_peer_datacenter_node_def
          split: prod.splits sum.splits option.splits if_splits)
    then show ?thesis using get_node_schema_moves(2) [OF assms(1) node(1) refl] c(1) by (simp add: caller_def)
  qed
  then show "node \<in> stored_nodes (fst (view e'))" if "res = Inr node"
    using that by (fastforce simp: caller_def stored_nodes_def split: sum.splits option.splits if_splits)
qed

end

text \<open>The steps of theory Cluster, with their invariant.\<close>

locale shared_store = stepped_store E ok view "registry_step P"
  for E :: "'e etcd" and ok :: "'e \<Rightarrow> bool" and view :: "'e \<Rightarrow> cluster" and P :: "string \<Rightarrow> bool" +
  assumes ok_cluster: "ok e \<Longrightarrow> cluster_ok P (view e)"
begin

lemma register_txn_allowed:
  assumes "ok e" "node \<in> stored_nodes (fst (view e))" "request_valid P (Some p) req"
    and "fill_addresses p (registered_spec node req) = Inr spec" "l \<noteq> 0"
  shows "allowed P (register_txn node req spec l) (view e)"
proof -
  obtain m L where v: "view e = (m, L)" by fastforce
  then have "cluster_ok P (m, L)" using ok_cluster [OF assms(1)] by simp
  moreover have "node_valid node"
    using stored_node_entry [OF \<open>cluster_ok P (m, L)\<close>] assms(2) v by (metis fst_conv)
  then have "spec_valid spec" using request_spec_valid assms(3,4) by blast
  moreover have "node \<in> stored_nodes m'" if "registry_path P (view e) (m', L')" for m' L'
    using path_stored_nodes [OF that ok_cluster [OF assms(1)]] assms(2) by auto
  ultimately show ?thesis
    using assms(3-5) by (auto simp: allowed_by_def request_valid_def register_txn_def intro!: Register [where p = p, unfolded register_txn_def])
qed

lemma deregister_txn_allowed:
  assumes "ok e" "node \<in> stored_nodes (fst (view e))" "P (dereg_service req)" "P (dereg_instance req)"
  shows "allowed P (deregister_txn node req) (view e)"
proof -
  have "node \<in> stored_nodes m" if "registry_path P (view e) (m, L)" for m L
    using path_stored_nodes [OF that ok_cluster [OF assms(1)]] assms(2) by auto
  then show ?thesis using assms(3,4) by (auto simp: allowed_by_def intro: Deregister)
qed

lemma register_moves:
  assumes "ok e" "request_valid P ctx req" "register E ctx req e = (res, e')"
  shows "moves P ok view e e'"
proof (rule moving.register_mv [OF assms(1,3)])
  fix node e1 p spec e2 and l :: int
  assume auth: "authenticate_agent E ctx e = (Inr node, e1)" and "ctx = Some p"
    and "fill_addresses p (registered_spec node req) = Inr spec" "l \<noteq> 0" and m2: "moves P ok view e1 e2"
  note m1 = authenticate_agent_moves [OF assms(1) auth]
  have "node \<in> stored_nodes (fst (view e2))"
    using m1(3) moves_stored_nodes [OF moves_ok [OF m1(1)] m2] by auto
  with \<open>ctx = Some p\<close> \<open>fill_addresses p (registered_spec node req) = Inr spec\<close> \<open>l \<noteq> 0\<close> assms(2)
  show "allowed P (register_txn node req spec l) (view e2)"
    using register_txn_allowed [OF moves_ok [OF m2]] by blast
qed

lemma deregister_moves:
  assumes "ok e" "P (dereg_service req)" "P (dereg_instance req)" "deregister E ctx req e = (res, e')"
  shows "moves P ok view e e'"
proof (rule moving.deregister_mv [OF assms(1,4)])
  fix node e1
  assume auth: "authenticate_agent E ctx e = (Inr node, e1)"
  note m1 = authenticate_agent_moves [OF assms(1) auth]
  show "allowed P (deregister_txn node req) (view e1)"
    using deregister_txn_allowed [OF moves_ok [OF m1(1)] m1(3)] assms(2,3) by blast
qed

lemma add_node_txn_allowed: "node_request_valid P req \<Longrightarrow> allowed P (add_node_txn req) s"
  using role_utf8 by (auto simp: allowed_by_def node_request_valid_def node_valid_def requested_node_def role_of_def
      split: node_type.split intro!: AddNode)

lemma add_node_moves:
  "ok e \<Longrightarrow> node_request_valid P req \<Longrightarrow> add_node E st seed now req e = (res, e') \<Longrightarrow> moves P ok view e e'"
  by (rule moving.add_node_mv [OF _ add_node_txn_allowed])

end

end
