(* ===== verification/Interleave.thy ===== *)
theory Interleave
  imports Shared
begin

text \<open>
  A store on which the others act before every request of a handler, for any step relation that they and the handlers
  share, every request that the registries serve, and what holds of the whole cluster whatever the interleaving.
\<close>

section \<open>The others act before each request\<close>

text \<open>\<open>env n\<close> is what they do before the n-th request.\<close>

definition with_env :: "(nat \<Rightarrow> 'e \<Rightarrow> 'e) \<Rightarrow> ('e \<Rightarrow> 'r \<times> 'e) \<Rightarrow> 'e \<times> nat \<Rightarrow> 'r \<times> 'e \<times> nat" where
  "with_env env f = (\<lambda>(e, n). let (r, e') = f (env n e) in (r, e', Suc n))"

definition interleaved :: "'e etcd \<Rightarrow> (nat \<Rightarrow> 'e \<Rightarrow> 'e) \<Rightarrow> ('e \<times> nat) etcd" where
  "interleaved E env =
     \<lparr>etcd_range = (\<lambda>x r. with_env env (\<lambda>e. etcd_range E e r) x),
      etcd_txn = (\<lambda>x t. with_env env (\<lambda>e. etcd_txn E e t) x),
      etcd_put = (\<lambda>x k v. with_env env (\<lambda>e. etcd_put E e k v) x),
      etcd_lease_grant = (\<lambda>x ttl. with_env env (\<lambda>e. etcd_lease_grant E e ttl) x),
      etcd_lease_renew = (\<lambda>x l. with_env env (\<lambda>e. etcd_lease_renew E e l) x),
      etcd_lease_revoke = (\<lambda>x l. with_env env (\<lambda>e. etcd_lease_revoke E e l) x),
      etcd_members = (\<lambda>(e, n). etcd_members E e),
      etcd_add_member = (\<lambda>x name urls. with_env env (\<lambda>e. etcd_add_member E e name urls) x),
      etcd_update_member = (\<lambda>x m. with_env env (\<lambda>e. etcd_update_member E e m) x),
      etcd_member_id = (\<lambda>(e, n). etcd_member_id E e)\<rparr>"

lemma interleaved_simps [simp]:
  "etcd_range (interleaved E env) x r = with_env env (\<lambda>e. etcd_range E e r) x"
  "etcd_txn (interleaved E env) x t = with_env env (\<lambda>e. etcd_txn E e t) x"
  "etcd_put (interleaved E env) x k v = with_env env (\<lambda>e. etcd_put E e k v) x"
  "etcd_lease_grant (interleaved E env) x ttl = with_env env (\<lambda>e. etcd_lease_grant E e ttl) x"
  "etcd_lease_renew (interleaved E env) x l = with_env env (\<lambda>e. etcd_lease_renew E e l) x"
  "etcd_lease_revoke (interleaved E env) x l = with_env env (\<lambda>e. etcd_lease_revoke E e l) x"
  "etcd_add_member (interleaved E env) x name urls = with_env env (\<lambda>e. etcd_add_member E e name urls) x"
  "etcd_update_member (interleaved E env) x m = with_env env (\<lambda>e. etcd_update_member E e m) x"
  by (simp_all add: interleaved_def)

lemma with_env_result:
  "with_env env f x = (r, x') \<longleftrightarrow> (\<exists>e'. f (env (snd x) (fst x)) = (r, e') \<and> x' = (e', Suc (snd x)))"
  by (auto simp: with_env_def split: prod.splits)

text \<open>
  The others and the registry share a step relation with an invariant, which contains what any of them may do at
  any time: grants, ends of leases, the update of a lease and the publication of an address.
\<close>

locale stepping_store = etcd_atomic E wf kvs leases
  for E :: "'e etcd" and wf :: "'e \<Rightarrow> bool" and kvs :: "'e \<Rightarrow> string \<rightharpoonup> kv" and leases :: "'e \<Rightarrow> int set" +
  fixes env :: "nat \<Rightarrow> 'e \<Rightarrow> 'e" and step :: "cluster \<Rightarrow> cluster \<Rightarrow> bool" and invariant :: "cluster \<Rightarrow> bool"
  assumes others_wf: "wf e \<Longrightarrow> invariant (kvs e, leases e) \<Longrightarrow> wf (env n e)"
    and others_path: "wf e \<Longrightarrow> invariant (kvs e, leases e) \<Longrightarrow> step\<^sup>*\<^sup>* (kvs e, leases e) (kvs (env n e), leases (env n e))"
    and step_invariant: "step s s' \<Longrightarrow> invariant s \<Longrightarrow> invariant s'"
    and step_node: "step s s' \<Longrightarrow> invariant s \<Longrightarrow> stored_node (fst s) dc name = Inr (Some node) \<Longrightarrow>
      stored_node (fst s') dc name = Inr (Some node)"
    and grant_step: "l \<noteq> 0 \<Longrightarrow> l \<notin> L \<Longrightarrow> step (m, L) (m, insert l L)"
    and end_step: "l \<in> L \<Longrightarrow> step (m, L) (drop_lease l m, L - {l})"
    and lease_step: "- (2 ^ 63) \<le> l \<Longrightarrow> l < 2 ^ 63 \<Longrightarrow> compares_hold m (lease_txn (lease_key dc name) ks l) \<Longrightarrow> 0 < rv \<Longrightarrow>
      step (m, L) (apply_txn rv (lease_txn (lease_key dc name) ks l) m, L)"
    and publish_step: "0 < rv \<Longrightarrow>
      step (m, L) (m(peer_api_key name \<mapsto> put_entry rv (peer_api_key name) addr 0 (m (peer_api_key name))), L)"
begin

lemma path_invariant: "step\<^sup>*\<^sup>* s s' \<Longrightarrow> invariant s \<Longrightarrow> invariant s'"
  by (induction rule: rtranclp_induct) (auto intro: step_invariant)

lemma path_node: "step\<^sup>*\<^sup>* s s' \<Longrightarrow> invariant s \<Longrightarrow> stored_node (fst s) dc name = Inr (Some node) \<Longrightarrow>
    stored_node (fst s') dc name = Inr (Some node)"
  by (induction rule: rtranclp_induct) (auto dest: path_invariant intro: step_node)

text \<open>The requests themselves are steps.\<close>

lemma txn_path:
  assumes "wf e" "allowed_by step t s" "step\<^sup>*\<^sup>* s (kvs e, leases e)" "etcd_txn E e t = (done, e')"
  shows "wf e' \<and> step\<^sup>*\<^sup>* (kvs e, leases e) (kvs e', leases e')"
proof -
  have applied: "step\<^sup>*\<^sup>* (kvs e, leases e) (apply_txn rv t (kvs e), leases e)"
    if "0 < rv" "list_all (compare_holds (kvs e)) (txn_compare t)"
      "list_all (\<lambda>op. op_lease op = 0 \<or> op_lease op \<in> leases e) (txn_success t)" for rv
    using assms(2,3) that unfolding allowed_by_def compares_hold_def list_all_iff by (intro r_into_rtranclp) blast
  show ?thesis
  proof (cases "done")
    case (Inl err)
    with assms(1,4) applied txn_failed [of e t err e'] show ?thesis by (auto simp: apply_txn_def)
  next
    case (Inr b)
    note tx = assms(4) [unfolded Inr]
    have e': "wf e'" "leases e' = leases e" using txn_frame [OF assms(1) tx] by auto
    show ?thesis
    proof (cases b)
      case True
      from txn_effect [OF assms(1) tx] True obtain rv where "0 < rv" "kvs e' = apply_txn rv t (kvs e)"
        by (auto simp: apply_txn_def)
      moreover have "list_all (compare_holds (kvs e)) (txn_compare t)" using txn_result [OF assms(1) tx] True by simp
      moreover have "list_all (\<lambda>op. op_lease op = 0 \<or> op_lease op \<in> leases e) (txn_success t)"
        using txn_leases [OF assms(1)] tx True by simp
      ultimately show ?thesis using applied e' by simp
    next
      case False
      with txn_effect [OF assms(1) tx] e' show ?thesis by simp
    qed
  qed
qed

lemma put_path:
  assumes "wf e" "etcd_put E e (peer_api_key name) v = (stored, e')"
  shows "wf e' \<and> step\<^sup>*\<^sup>* (kvs e, leases e) (kvs e', leases e')"
proof -
  have applied: "step\<^sup>*\<^sup>* (kvs e, leases e)
      ((kvs e)(peer_api_key name \<mapsto> put_entry rv (peer_api_key name) v 0 (kvs e (peer_api_key name))), leases e)"
    if "0 < rv" for rv
    by (rule r_into_rtranclp) (rule publish_step [OF that])
  show ?thesis
  proof (cases stored)
    case (Inl err)
    from put_failed [OF assms(1) assms(2) [unfolded Inl]] applied show ?thesis by (elim conjE disjE exE) simp_all
  next
    case (Inr u)
    from put_result [OF assms(1), of "peer_api_key name" v e'] assms(2) Inr applied show ?thesis by auto
  qed
qed

lemma grant_path:
  assumes "wf e" "etcd_lease_grant E e ttl = (granted, e')"
  shows "wf e' \<and> step\<^sup>*\<^sup>* (kvs e, leases e) (kvs e', leases e')"
proof -
  have applied: "step\<^sup>*\<^sup>* (kvs e, leases e) (kvs e, insert l (leases e))" if "l \<noteq> 0" "l \<notin> leases e" for l
    by (rule r_into_rtranclp) (rule grant_step [OF that])
  show ?thesis
  proof (cases granted)
    case (Inl err)
    from grant_failed [OF assms(1) assms(2) [unfolded Inl]] applied show ?thesis by auto
  next
    case (Inr l)
    from grant_result [OF assms(1) assms(2) [unfolded Inr]] applied show ?thesis by auto
  qed
qed

lemma revoke_path:
  assumes "wf e" "etcd_lease_revoke E e l = (revoked, e')"
  shows "wf e' \<and> step\<^sup>*\<^sup>* (kvs e, leases e) (kvs e', leases e')"
proof -
  have ended: "step\<^sup>*\<^sup>* (kvs e, leases e) (drop_lease l (kvs e), leases e - {l})" if "l \<in> leases e"
    by (intro r_into_rtranclp end_step that)
  show ?thesis
  proof (cases revoked)
    case (Inl err)
    from revoke_failed [OF assms(1) assms(2) [unfolded Inl]] ended show ?thesis by (elim conjE disjE) simp_all
  next
    case (Inr u)
    from revoke_result [OF assms(1), of l e'] assms(2) Inr ended show ?thesis by simp
  qed
qed

text \<open>A handler's view of the store after the others have acted and its request was served.\<close>

abbreviation "good x \<equiv> wf (fst x) \<and> invariant (kvs (fst x), leases (fst x))"
abbreviation "seen x \<equiv> (kvs (fst x), leases (fst x))"

lemma env_then:
  assumes "good x" "wf (env (snd x) (fst x)) \<Longrightarrow> wf e' \<and>
    step\<^sup>*\<^sup>* (kvs (env (snd x) (fst x)), leases (env (snd x) (fst x))) (kvs e', leases e')"
  shows "moves_by step (\<lambda>x. good x) (\<lambda>x. seen x) x (e', n)"
proof -
  have path: "step\<^sup>*\<^sup>* (kvs (fst x), leases (fst x)) (kvs e', leases e')"
    using assms others_wf [of "fst x" "snd x"] others_path [of "fst x" "snd x"] by (auto intro: rtranclp_trans)
  moreover have "invariant (kvs e', leases e')" using path_invariant [OF path] assms(1) by blast
  moreover have "wf e'" using assms others_wf by blast
  ultimately show ?thesis by (simp add: moves_by_def)
qed

sublocale handlers: stepped_store "interleaved E env" "\<lambda>x. good x" "\<lambda>x. seen x" step
proof unfold_locales
  show "stored_node (fst s') dc name = Inr (Some node)"
    if "good x" "step\<^sup>*\<^sup>* (seen x) s" "step\<^sup>*\<^sup>* s s'" "stored_node (fst s) dc name = Inr (Some node)"
    for x :: "'e \<times> nat" and s s' dc name node
    using path_node [OF that(3) path_invariant [OF that(2)]] that(1,4) by blast
  show "allowed_by step (lease_txn (lease_key dc name) ks l) s" if "- (2 ^ 63) \<le> l" "l < 2 ^ 63" for l dc name ks s
    using that lease_step by (auto simp: allowed_by_def)
  fix x x' :: "'e \<times> nat" and r
  assume x: "good x"
  note step = env_then [OF x]
  show "moves_by step (\<lambda>x. good x) (\<lambda>x. seen x) x x'" if "etcd_range (interleaved E env) x r = (found, x')" for found
    using that range_frame [where e = "env (snd x) (fst x)"] by (auto simp: with_env_result intro!: step)
  show "\<exists>s. step\<^sup>*\<^sup>* (seen x) s \<and> step\<^sup>*\<^sup>* s (seen x') \<and> ks = range_kvs (fst s) r"
    if "etcd_range (interleaved E env) x r = (Inr ks, x')" for ks
  proof (intro exI conjI)
    let ?e = "env (snd x) (fst x)"
    show "step\<^sup>*\<^sup>* (seen x) (kvs ?e, leases ?e)" using x by (intro others_path) simp_all
    from that obtain e' where r: "etcd_range E ?e r = (Inr ks, e')" "x' = (e', Suc (snd x))" by (auto simp: with_env_result)
    have w: "wf ?e" using x by (intro others_wf) simp_all
    from range_frame [OF w r(1)] r(2) show "step\<^sup>*\<^sup>* (kvs ?e, leases ?e) (seen x')" by simp
    from range_result [OF w r(1)] show "ks = range_kvs (fst (kvs ?e, leases ?e)) r" by simp
  qed
  show "moves_by step (\<lambda>x. good x) (\<lambda>x. seen x) x x'"
    if "allowed_by step t (seen x)" "etcd_txn (interleaved E env) x t = (done, x')" for t "done"
    using that(2) txn_path [OF _ that(1), of "env (snd x) (fst x)"] others_path [of "fst x"] x
    by (auto simp: with_env_result intro!: step)
  show "moves_by step (\<lambda>x. good x) (\<lambda>x. seen x) x x'"
    if "etcd_put (interleaved E env) x (peer_api_key name) v = (stored, x')" for name v stored
    using that by (auto simp: with_env_result intro!: step put_path)
  show "moves_by step (\<lambda>x. good x) (\<lambda>x. seen x) x x'" if "etcd_lease_grant (interleaved E env) x ttl = (granted, x')" for ttl granted
    using that by (auto simp: with_env_result intro!: step grant_path)
  show "- (2 ^ 63) \<le> l \<and> l < 2 ^ 63 \<and> l \<noteq> 0" if "etcd_lease_grant (interleaved E env) x ttl = (Inr l, x')" for ttl l
    using that grant_result [OF others_wf, of "fst x"] x by (auto simp: with_env_result)
  show "moves_by step (\<lambda>x. good x) (\<lambda>x. seen x) x x'" if "etcd_lease_renew (interleaved E env) x l = (renewed, x')" for l renewed
    using that renew_frame [where e = "env (snd x) (fst x)"] by (auto simp: with_env_result intro!: step)
  show "l \<noteq> 0" if "etcd_lease_renew (interleaved E env) x l = (Inr ttl, x')" for l ttl
    using that renew_result [OF others_wf, of "fst x"] lease_nonzero [OF others_wf, of "fst x"] x
    by (fastforce simp: with_env_result)
  show "moves_by step (\<lambda>x. good x) (\<lambda>x. seen x) x x'" if "etcd_lease_revoke (interleaved E env) x l = (revoked, x')" for l revoked
    using that by (auto simp: with_env_result intro!: step revoke_path)
  show "moves_by step (\<lambda>x. good x) (\<lambda>x. seen x) x x'" if "etcd_add_member (interleaved E env) x name urls = (added, x')" for name urls added
    using that add_member_frame [where e = "env (snd x) (fst x)"] by (auto simp: with_env_result intro!: step)
  show "moves_by step (\<lambda>x. good x) (\<lambda>x. seen x) x x'" if "etcd_update_member (interleaved E env) x m = (updated, x')" for m updated
    using that update_member_frame [where e = "env (snd x) (fst x)"] by (auto simp: with_env_result intro!: step)
qed

end

text \<open>The others make the steps of theory Cluster.\<close>

locale interleaved_store = etcd_atomic E wf kvs leases
  for E :: "'e etcd" and wf :: "'e \<Rightarrow> bool" and kvs :: "'e \<Rightarrow> string \<rightharpoonup> kv" and leases :: "'e \<Rightarrow> int set" +
  fixes env :: "nat \<Rightarrow> 'e \<Rightarrow> 'e" and P :: "string \<Rightarrow> bool"
  assumes env_wf: "wf e \<Longrightarrow> cluster_ok P (kvs e, leases e) \<Longrightarrow> wf (env n e)"
    and env_path: "wf e \<Longrightarrow> cluster_ok P (kvs e, leases e) \<Longrightarrow>
      registry_path P (kvs e, leases e) (kvs (env n e), leases (env n e))"

sublocale interleaved_store \<subseteq> stepping: stepping_store E wf kvs leases env "registry_step P" "cluster_ok P"
  using env_wf env_path step_ok path_keeps_stored_node [OF step_path]
  by unfold_locales (auto intro: registry_step.intros)

sublocale interleaved_store \<subseteq> served: shared_store "interleaved E env"
  "\<lambda>x. wf (fst x) \<and> cluster_ok P (kvs (fst x), leases (fst x))" "\<lambda>x. (kvs (fst x), leases (fst x))" P
  by unfold_locales blast

section \<open>Every request\<close>

text \<open>The services that the two gRPC servers of a registry offer, one constructor per method.\<close>

datatype request =
    GetPeersReq
  | AddSelfPeerReq "rpc_peer option" "string list"
  | AddNodeReq add_node_request
  | GetNodeCredentialsReq credentials_request
  | ConfigReq "rpc_peer option"
  | HeartbeatReq "rpc_peer option"
  | RegisterReq "rpc_peer option" register_request
  | DeregisterReq "rpc_peer option" deregister_request
  | ResetReq "rpc_peer option"
  | DiscoverReq "rpc_peer option" discover_request
  | GetDatacenterServicesReq "rpc_peer option"
  | WatchDatacenterServicesReq "rpc_peer option"

text \<open>What a request depends on besides the store: the registry's state, time, randomness, the order
  of Go's maps, the text of a pointer, the parser of URLs, the watch and the client's stream.\<close>

record 'e surroundings =
  su_state :: state
  su_seed :: string
  su_now :: int
  su_issued :: int
  su_parse_url :: "string \<Rightarrow> string option"
  su_order :: "nat \<Rightarrow> (string, service_spec) gomap \<Rightarrow> (string, service_spec) gomap"
  su_pointer :: string
  su_events :: "'e \<Rightarrow> range_request \<Rightarrow> event list"
  su_send :: "nat \<Rightarrow> bool"

fun serve :: "'e etcd \<Rightarrow> 'e surroundings \<Rightarrow> request \<Rightarrow> 'e \<Rightarrow> 'e" where
  "serve E S GetPeersReq e = snd (get_peers E e)"
| "serve E S (AddSelfPeerReq ctx urls) e = snd (add_self_peer E (su_parse_url S) ctx urls e)"
| "serve E S (AddNodeReq req) e = snd (add_node E (su_state S) (su_seed S) (su_now S) req e)"
| "serve E S (GetNodeCredentialsReq req) e = snd (get_node_credentials E (su_state S) (su_seed S) (su_now S) req e)"
| "serve E S (ConfigReq ctx) e = snd (config_request E (su_state S) (su_seed S) (su_now S) (su_issued S) ctx e)"
| "serve E S (HeartbeatReq ctx) e = snd (heartbeat E ctx e)"
| "serve E S (RegisterReq ctx req) e = snd (register E ctx req e)"
| "serve E S (DeregisterReq ctx req) e = snd (deregister E ctx req e)"
| "serve E S (ResetReq ctx) e = snd (reset E ctx e)"
| "serve E S (DiscoverReq ctx req) e = snd (discover E (su_order S) (su_pointer S) ctx req e)"
| "serve E S (GetDatacenterServicesReq ctx) e = snd (get_datacenter_services E ctx e)"
| "serve E S (WatchDatacenterServicesReq ctx) e = snd (watch_datacenter_services E (su_events S) (su_send S) ctx e)"

fun valid_request :: "(string \<Rightarrow> bool) \<Rightarrow> request \<Rightarrow> bool" where
  "valid_request P (AddNodeReq req) = node_request_valid P req"
| "valid_request P (RegisterReq ctx req) = request_valid P ctx req"
| "valid_request P (DeregisterReq ctx req) = (P (dereg_service req) \<and> P (dereg_instance req))"
| "valid_request P _ = True"

text \<open>Of all requests only those that write services and nodes send a transaction that has to be allowed.\<close>

context stepped_store
begin

lemma serve_moves_by:
  assumes "ok e"
    and "\<And>ctx req r e'. q = RegisterReq ctx req \<Longrightarrow> register E ctx req e = (r, e') \<Longrightarrow> moves_by step ok view e e'"
    and "\<And>ctx req r e'. q = DeregisterReq ctx req \<Longrightarrow> deregister E ctx req e = (r, e') \<Longrightarrow> moves_by step ok view e e'"
    and "\<And>req. q = AddNodeReq req \<Longrightarrow> allowed_by step (add_node_txn req) (view e)"
  shows "moves_by step ok view e (serve E S q e)"
proof (cases q)
  case (GetPeersReq)
  with assms(1) show ?thesis by (simp add: get_peers_def moves_refl)
qed (use assms in \<open>auto simp: prod_eq_iff intro: moving.add_self_peer_mv moving.add_node_mv moving.get_node_credentials_mv
    moving.config_request_mv moving.heartbeat_mv moving.reset_mv revoke_moves moving.discover_mv
    moving.get_datacenter_services_mv moving.watch_datacenter_services_mv prod.collapse [symmetric]\<close>)

end

context shared_store
begin

lemma serve_moves:
  assumes "ok e" "valid_request P q"
  shows "moves P ok view e (serve E S q e)"
  using assms by (intro serve_moves_by) (auto intro: register_moves deregister_moves add_node_txn_allowed)

lemma history_moves:
  "ok e \<Longrightarrow> list_all (valid_request P) qs \<Longrightarrow> moves P ok view e (fold (serve E S) qs e)"
proof (induction qs arbitrary: e)
  case Nil
  then show ?case by (simp add: moves_refl)
next
  case (Cons q qs)
  then have "moves P ok view e (serve E S q e)" by (intro serve_moves) simp_all
  from moves_trans [OF this Cons.IH [OF moves_ok [OF this]]] Cons.prems(2) show ?case by simp
qed

end

context interleaved_store
begin

lemma history_path:
  assumes "wf e" "cluster_ok P (kvs e, leases e)" "list_all (valid_request P) qs"
  obtains e' k where "fold (serve (interleaved E env) S) qs (e, n) = (e', k)" "wf e'"
    "registry_path P (kvs e, leases e) (kvs e', leases e')" "cluster_ok P (kvs e', leases e')"
  using served.history_moves [of "(e, n)" qs S] assms
  by (cases "fold (serve (interleaved E env) S) qs (e, n)") (auto simp: moves_by_def)

end

section \<open>A cluster with an environment\<close>

text \<open>The sample store is reached by adding its two nodes, the busy one by a registration.\<close>

definition sample_add_request :: "string \<Rightarrow> node_type \<Rightarrow> add_node_request" where
  "sample_add_request name t =
     \<lparr>an_name = name, an_datacenter = ''dc1'', an_location = ''eu'', an_node_type = t\<rparr>"

lemma sample_requested:
  "requested_node (sample_add_request ''n1'' AGENT) = sample_node"
  "requested_node (sample_add_request ''p1'' OBSERVER) = sample_observer"
  by (simp_all add: requested_node_def sample_add_request_def sample_node_def sample_observer_def role_of_def
      agent_certificate_ou_def observer_certificate_ou_def)

lemma sample_reachable: "reachable slash_free (store_kvs sample_store, store_leases sample_store)"
proof -
  let ?m1 = "apply_txn 1 (add_node_txn (sample_add_request ''n1'' AGENT)) Map.empty"
  have sf: "slash_free ''n1''" "slash_free ''p1''" "slash_free ''dc1''" "slash_free ''eu''" by (simp_all add: slash_free_def)
  have keys: "node_key ''dc1'' ''p1'' \<noteq> node_key ''dc1'' ''n1''" by (simp add: sample_node_keys)
  have m1: "?m1 = map_of [node_entry sample_node]"
    by (simp add: apply_txn_def add_node_txn_def Let_def sample_requested)
      (simp add: sample_add_request_def sample_node_keys sample_node_entries put_entry_def)
  have m2: "apply_txn 1 (add_node_txn (sample_add_request ''p1'' OBSERVER)) ?m1 = store_kvs sample_store"
    unfolding m1
    by (simp add: apply_txn_def add_node_txn_def Let_def sample_requested)
      (auto simp: sample_add_request_def sample_node_keys sample_node_entries put_entry_def store_kvs_def sample_store_def)
  have "registry_step slash_free (Map.empty, {}) (?m1, {})"
    by (rule AddNode) (simp_all add: sample_requested sample_nodes_valid, simp_all add: sf sample_add_request_def
        compares_hold_def add_node_txn_def Let_def compare_holds_def)
  moreover have "registry_step slash_free (?m1, {}) (apply_txn 1 (add_node_txn (sample_add_request ''p1'' OBSERVER)) ?m1, {})"
    unfolding m1
    by (rule AddNode) (simp_all add: sample_requested sample_nodes_valid, simp_all add: sf sample_add_request_def
        compares_hold_def add_node_txn_def Let_def compare_holds_def sample_node_keys sample_node_entries)
  ultimately show ?thesis
    unfolding reachable_def sample_no_leases m2 by (metis converse_rtranclp_into_rtranclp r_into_rtranclp)
qed

lemma busy_reachable: "reachable slash_free (store_kvs busy_store, store_leases busy_store)"
proof -
  let ?m = "store_kvs sample_store"
  let ?m' = "apply_txn 2 (register_txn sample_node sample_request sample_spec 7) ?m"
  have "sample_node \<in> stored_nodes ?m" using sample_stored(1) by (auto simp: stored_nodes_def)
  then have "registry_step slash_free (?m, {7}) (?m', {7})"
    by (intro Register [OF _ _ _ sample_spec_filled sample_spec_valid]) (simp_all add: sample_request_def slash_free_def)
  moreover have "registry_step slash_free (?m, {}) (?m, {7})" using Grant [of 7 "{}" slash_free ?m] by simp
  moreover have "?m' = store_kvs busy_store"
    by (auto simp: fun_eq_iff apply_txn_def register_txn_def sample_request_def sample_service_keys store_kvs_def
        sample_store_def busy_store_def sample_node_entries service_entry_def put_entry_def)
  moreover have "store_leases busy_store = {7}" by (simp add: store_leases_def busy_store_def)
  ultimately have "registry_path slash_free (?m, {}) (store_kvs busy_store, store_leases busy_store)"
    by (metis converse_rtranclp_into_rtranclp r_into_rtranclp)
  with sample_reachable show ?thesis by (simp add: sample_no_leases reachable_path)
qed

text \<open>An environment in which the lease of the registered service runs out before the third request.\<close>

definition lease_runs_out :: "nat \<Rightarrow> store \<Rightarrow> store" where
  "lease_runs_out n e = (if n = 2 then snd (store_revoke e 7) else e)"

interpretation busy: interleaved_store store_etcd store_wf store_kvs store_leases lease_runs_out slash_free
proof unfold_locales
  fix e n assume e: "store_wf e"
  then show "store_wf (lease_runs_out n e)" by (simp add: lease_runs_out_def store_revoke_wf)
  show "registry_path slash_free (store_kvs e, store_leases e) (store_kvs (lease_runs_out n e), store_leases (lease_runs_out n e))"
  proof (cases "n = 2 \<and> 7 \<in> store_leases e")
    case True
    then have "etcd_lease_revoke store_etcd e 7 = (Inr (), lease_runs_out n e)"
      by (simp add: store_etcd_def store_revoke_def store_leases_def lease_runs_out_def)
    from etcd_ref.revoke_result [OF e this] True show ?thesis by (auto intro!: step_path LeaseEnd)
  next
    case False
    then show ?thesis by (auto simp: lease_runs_out_def store_revoke_def store_leases_def)
  qed
qed

lemma busy_interleaved: "interleaved_store store_etcd store_wf store_kvs store_leases lease_runs_out slash_free"
  by unfold_locales

end
