(* ===== verification/Guarantees.thy ===== *)
theory Guarantees
  imports Interleave
begin

text \<open>
  What holds of a cluster of registries whatever its clients, its other registries and its clock do:
  the properties of the step relation of theory Cluster, of the requests of theory Interleave, and
  two behaviours that the invariants exclude only under conditions the code does not enforce.
\<close>

section \<open>Histories\<close>


definition sample_surroundings :: "('e \<times> nat) surroundings" where
  "sample_surroundings = \<lparr>su_state = sample_state, su_seed = ''key'', su_now = 0, su_issued = 0, su_parse_url = Some,
     su_order = (\<lambda>n m. m), su_pointer = ''0xc000012345'', su_events = (\<lambda>e r. []), su_send = (\<lambda>n. True)\<rparr>"


text \<open>C10: whoever has been accepted in a role once is accepted in it, as the same node, ever after: no
  history of requests removes or changes a stored node.\<close>
theorem callers_stay:
  assumes "reachable P (m, L)" "registry_path P (m, L) (m', L')" "caller m ctx role = Inr node"
  shows "caller m' ctx role = Inr node \<and> stored_nodes m \<subseteq> stored_nodes m'"
proof -
  note ok = reachable_ok [OF assms(1)]
  have "stored_node m' dc name = Inr (Some x)" if "stored_node m dc name = Inr (Some x)" for dc name x
    using path_keeps_stored_node [OF assms(2) ok, of dc name x] that by simp
  then have "caller m' ctx role = Inr node"
    using assms(3) by (fastforce simp: caller_def split: sum.splits option.splits if_splits)
  then show ?thesis using path_stored_nodes [OF assms(2) ok] by simp
qed

theorem callers_stay_witness:
  "caller (store_kvs (snd (store_revoke busy_store 7))) (Some agent_peer) agent_certificate_ou = Inr sample_node"
proof -
  have "registry_path slash_free (store_kvs busy_store, store_leases busy_store)
      (drop_lease 7 (store_kvs busy_store), store_leases busy_store - {7})"
    by (intro step_path LeaseEnd) (simp add: store_leases_def busy_store_def)
  moreover have "drop_lease 7 (store_kvs busy_store) = store_kvs (snd (store_revoke busy_store 7))"
    using store_revoke_kvs [OF busy_store_wf, of 7] by (simp add: store_revoke_def store_kvs_def busy_store_def)
  ultimately show ?thesis using callers_stay [OF busy_reachable _ busy_caller(1)] by auto
qed

text \<open>C24: every entry of a reachable store has the form of its namespace: a node under its own names, a lease
  number, a service of a stored node that the value describes and that is attached to a live lease,
  or the address of a registry. Only services have leases.\<close>
theorem entries_typed:
  assumes "reachable P (m, L)" "m k = Some x"
  shows "(\<exists>node. k = node_key (ns_datacenter node) (ns_name node) \<and> unmarshal_node (kv_value x) = Some node
        \<and> stored_node m (ns_datacenter node) (ns_name node) = Inr (Some node) \<and> kv_lease x = 0)
    \<or> (\<exists>dc name l. k = lease_key dc name \<and> unmarshal_int64 (kv_value x) = Some l \<and> kv_lease x = 0)
    \<or> (\<exists>node \<in> stored_nodes m. \<exists>s i spec. P s \<and> P i \<and> k \<in> service_keys node s i
        \<and> unmarshal_spec (kv_value x) = Some spec \<and> describes node s i spec \<and> kv_lease x \<in> L \<and> kv_lease x \<noteq> 0)
    \<or> (\<exists>name. k = peer_api_key name \<and> kv_lease x = 0)"
proof -
  have "entry_typed P m L k x" "0 \<notin> L" using reachable_ok [OF assms(1)] assms(2) by (simp_all add: cluster_ok_def)
  then show ?thesis
  proof (cases rule: entry_typed.cases)
    case (NodeEntry node)
    with assms(2) node_codec.dec_enc [of node] show ?thesis by (auto simp: stored_node_def)
  next
    case (ServiceEntry node s i spec)
    with \<open>0 \<notin> L\<close> spec_codec.dec_enc [of spec] show ?thesis by metis
  qed auto
qed

theorem entries_typed_witness:
  "\<exists>spec. unmarshal_spec (kv_value (snd (service_entry ''svc/web/eu/dc1/n1/c1''))) = Some spec
    \<and> spec_service_name spec = Some ''web''"
proof -
  have e: "store_kvs busy_store ''svc/web/eu/dc1/n1/c1'' = Some (snd (service_entry ''svc/web/eu/dc1/n1/c1''))"
    by (simp add: busy_kvs)
  have "kv_lease (snd (service_entry ''svc/web/eu/dc1/n1/c1'')) = 7" by (simp add: service_entry_def)
  with entries_typed [OF busy_reachable e]
  obtain node s i spec where n: "node \<in> stored_nodes (store_kvs busy_store)" "slash_free s" "slash_free i"
    "''svc/web/eu/dc1/n1/c1'' \<in> service_keys node s i"
    "unmarshal_spec (kv_value (snd (service_entry ''svc/web/eu/dc1/n1/c1''))) = Some spec" "describes node s i spec"
    by auto
  have "node_slash_free node" using stored_node_entry [OF reachable_ok [OF busy_reachable] n(1)] named_slash_free by metis
  then have "split_on (CHR ''/'') (svc_key node s i) = [''svc'', s, ns_location node, ns_datacenter node, ns_name node, i]"
    unfolding svc_key_def using n(2,3) by (intro key_path_split) (auto simp: node_slash_free_def slash_free_def)
  moreover have "svc_key node s i = ''svc/web/eu/dc1/n1/c1''"
    using n(4) by (auto simp: service_keys_def ds_svc_key_def key_path_two)
  moreover have "split_on (CHR ''/'') ''svc/web/eu/dc1/n1/c1'' = [''svc'', ''web'', ''eu'', ''dc1'', ''n1'', ''c1'']" by code_simp
  ultimately have "s = ''web''" by simp
  with n(5,6) show ?thesis by (auto simp: describes_def)
qed

text \<open>C4: while the names in requests have no slash, the index that agents search and the one that observers
  read always agree: the two keys of every service hold the same value with the same lease, or neither exists.\<close>
theorem both_indexes_agree:
  assumes "reachable slash_free (m, L)" "node \<in> stored_nodes m" "slash_free s" "slash_free i"
  shows "content (m (svc_key node s i)) = content (m (ds_svc_key node s i))"
  using reachable_indexes_agree [OF assms(1)] assms(2-4) by (simp add: indexes_agree_def)

theorem both_indexes_agree_witness:
  "content (store_kvs busy_store ''svc/web/eu/dc1/n1/c1'') = content (store_kvs busy_store ''dcsvc/dc1/n1/web/c1'')"
proof -
  have "sample_node \<in> stored_nodes (store_kvs busy_store)" using busy_stored(1) by (auto simp: stored_nodes_def)
  from both_indexes_agree [OF busy_reachable this, of "''web''" "''c1''"] show ?thesis
    by (simp add: sample_service_keys slash_free_def)
qed

text \<open>C25: in a reachable cluster neither \<^verbatim>\<open>Discover\<close>, with an instance or without, nor
  \<^verbatim>\<open>GetDatacenterServices\<close> can fail on what is stored: both answer every authenticated caller, the latter with one
  specification for each key of the datacenter. Of the text of the pointer that the code searches for in place of
  the instance, only that it is not empty and does not end in the byte 255 is used.\<close>
theorem lookups_succeed:
  assumes "etcd_live E ok kvs leases" "ok e" "reachable P (kvs e, leases e)"
    and "caller (kvs e) ctx agent_certificate_ou = Inr node" "ptr \<noteq> []" "of_char (last ptr) < (255 :: nat)"
    and "caller (kvs e) octx observer_certificate_ou = Inr obs"
  shows "(\<exists>svcs e'. discover E ord ptr ctx req e = (Inr svcs, e'))
    \<and> (\<exists>svcs e'. get_datacenter_services E octx e = (Inr svcs, e')
         \<and> length svcs = card (matching (kvs e) (dc_prefix (ns_datacenter obs))) \<and> None \<notin> set svcs)"
proof
  have "all_decode (kvs e) (''svc/'' @ disc_service req @ ''/'')" by (rule reachable_all_decode(1) [OF assms(3)])
  from etcd_live.discover_answers [OF assms(1,2,4-6) this] show "\<exists>svcs e'. discover E ord ptr ctx req e = (Inr svcs, e')" by blast
next
  let ?M = "matching (kvs e) (dc_prefix (ns_datacenter obs))"
  obtain e' where g: "get_datacenter_services E octx e =
      (Inr (map (\<lambda>k. the (unmarshal_spec_ptr (kv_value (the (kvs e k))))) (sorted_list_of_set ?M)), e')"
    using etcd_live.get_datacenter_services_total [OF assms(1,2,7) reachable_all_decode(2) [OF assms(3)]] by blast
  have "finite (dom (kvs e))" by (rule etcd_store.finite_kvs [OF etcd_live.axioms(1) [OF assms(1)] assms(2)])
  then have fin: "finite ?M" by (simp add: matching_def)
  have "the (unmarshal_spec_ptr (kv_value (the (kvs e k)))) \<noteq> None" if k: "k \<in> ?M" for k
  proof -
    obtain x where x: "kvs e k = Some x" "prefix ''dcsvc/'' k"
      using k append_prefixD [of "''dcsvc/''" "ns_datacenter obs @ ''/''" k]
      unfolding matching_def dc_prefix_def append_assoc by blast
    from x(1) x(2) show ?thesis
      by (rule reachable_services [OF assms(3) _ disjI2]) (simp add: x(1) unmarshal_marshal_spec)
  qed
  then have "None \<notin> set (map (\<lambda>k. the (unmarshal_spec_ptr (kv_value (the (kvs e k))))) (sorted_list_of_set ?M))"
    using fin by force
  with g show "\<exists>svcs e'. get_datacenter_services E octx e = (Inr svcs, e')
      \<and> length svcs = card ?M \<and> None \<notin> set svcs" by simp
qed

theorem lookups_succeed_witness:
  "(\<exists>found e'. discover store_etcd (\<lambda>n. rev) ''0xc000012345'' (Some agent_peer)
      (sample_discover\<lparr>disc_instance := Some ''c1''\<rparr>) busy_store = (Inr found, e'))
   \<and> (\<exists>svcs e'. get_datacenter_services store_etcd (Some observer_peer) busy_store = (Inr svcs, e') \<and> length svcs = 1)"
proof -
  have p: "''0xc000012345'' \<noteq> []" "of_char (last ''0xc000012345'') < (255 :: nat)" by simp_all
  show ?thesis
    using lookups_succeed [OF etcd_ref_live busy_store_wf busy_reachable busy_caller(1) p busy_caller(2)]
      busy_matching(2)
    by (fastforce simp: dc_prefix_def sample_observer_def)
qed

section \<open>Slashes in names\<close>

lemma slash_keys:
  "ds_svc_key node (a @ CHR ''/'' # b) c = ds_svc_key node a (b @ CHR ''/'' # c)"
  by (simp add: ds_svc_key_def key_path_def)

text \<open>C35: nothing in the code keeps slashes out of names. The services \<^verbatim>\<open>a/b\<close> with instance \<^verbatim>\<open>c\<close> and \<^verbatim>\<open>a\<close> with
  instance \<^verbatim>\<open>b/c\<close> of a node have one key for observers and two for agents, so that removing the first takes
  the second away from the observers while agents go on finding it.\<close>
theorem slash_splits_indexes:
  assumes "etcd_live E ok kvs leases" "ok e" "caller (kvs e) (Some p) agent_certificate_ou = Inr node"
    and "card (leases e) < 2 ^ 62" "fill_addresses p (registered_spec node req) = Inr spec"
    and "length (lease_key (ns_datacenter node) (ns_name node)) < 2 ^ 17"
    and "txn_size (register_txn node req spec 0) < 2 ^ 20"
    and "reg_service req = a" "reg_instance req = b @ CHR ''/'' # c"
    and "dreq = \<lparr>dereg_service = a @ CHR ''/'' # b, dereg_instance = c\<rparr>"
    and "txn_size (deregister_txn node dreq) < 2 ^ 20"
    and "svc_key node (a @ CHR ''/'' # b) c \<noteq> svc_key node a (b @ CHR ''/'' # c)"
  shows "\<exists>e1 e2 l. register E (Some p) req e = (Inr spec, e1) \<and> deregister E (Some p) dreq e1 = (Inr (), e2)
    \<and> holds_spec (kvs e2) (svc_key node a (b @ CHR ''/'' # c)) spec l
    \<and> kvs e2 (ds_svc_key node a (b @ CHR ''/'' # c)) = None"
proof -
  obtain e1 l where e1: "register E (Some p) req e = (Inr spec, e1)" "ok e1"
    and held: "\<forall>k \<in> service_keys node a (b @ CHR ''/'' # c). holds_spec (kvs e1) k spec l"
    and frame: "\<forall>k. k \<notin> service_keys node a (b @ CHR ''/'' # c) \<and> k \<noteq> lease_key (ns_datacenter node) (ns_name node) \<longrightarrow> kvs e1 k = kvs e k"
    using etcd_live.register_total [OF assms(1,2,4,3) refl assms(5-7)] assms(8,9) by auto
  have "caller (kvs e1) (Some p) agent_certificate_ou = caller (kvs e) (Some p) agent_certificate_ou"
    by (rule caller_cong) (simp add: frame key_eqs)
  with assms(3) have "caller (kvs e1) (Some p) agent_certificate_ou = Inr node" by simp
  from etcd_live.deregister_total [OF assms(1) e1(2) this assms(11)]
  obtain e2 where e2: "deregister E (Some p) dreq e1 = (Inr (), e2)"
    "\<forall>k. kvs e2 k = (if k \<in> service_keys node (a @ CHR ''/'' # b) c then None else kvs e1 k)"
    using assms(10) by auto
  have "holds_spec (kvs e2) (svc_key node a (b @ CHR ''/'' # c)) spec l"
    using e2(2) held assms(12) by (simp add: holds_spec_def service_keys_def key_eqs)
  moreover have "kvs e2 (ds_svc_key node a (b @ CHR ''/'' # c)) = None"
    using e2(2) by (simp add: service_keys_def slash_keys)
  ultimately show ?thesis using e1(1) e2(1) by blast
qed

definition slash_request :: register_request where
  "slash_request = sample_request\<lparr>reg_service := ''a'', reg_instance := ''b/c'', reg_addresses := [''h'']\<rparr>"

theorem slash_splits_indexes_witness:
  "\<exists>e1 e2 l spec. register store_etcd (Some agent_peer) slash_request sample_store = (Inr spec, e1)
    \<and> deregister store_etcd (Some agent_peer) \<lparr>dereg_service = ''a/b'', dereg_instance = ''c''\<rparr> e1 = (Inr (), e2)
    \<and> holds_spec (store_kvs e2) ''svc/a/eu/dc1/n1/b/c'' spec l \<and> store_kvs e2 ''dcsvc/dc1/n1/a/b/c'' = None"
proof -
  let ?spec = "registered_spec sample_node slash_request"
  have f: "fill_addresses agent_peer ?spec = Inr ?spec"
    by (simp add: fill_addresses_def registered_spec_def slash_request_def)
  have n: "svc_key sample_node ''a'' ''b/c'' = ''svc/a/eu/dc1/n1/b/c''" "svc_key sample_node ''a/b'' ''c'' = ''svc/a/b/eu/dc1/n1/c''"
    "ds_svc_key sample_node ''a'' ''b/c'' = ''dcsvc/dc1/n1/a/b/c''" by code_simp+
  have "txn_size (register_txn sample_node slash_request ?spec 0) = 241"
    "txn_size (deregister_txn sample_node \<lparr>dereg_service = ''a/b'', dereg_instance = ''c''\<rparr>) = 37" by code_simp+
  then have t: "txn_size (register_txn sample_node slash_request ?spec 0) < 2 ^ 20"
    "txn_size (deregister_txn sample_node \<lparr>dereg_service = ''a'' @ CHR ''/'' # ''b'', dereg_instance = ''c''\<rparr>) < 2 ^ 20" by simp_all
  show ?thesis
    using slash_splits_indexes [OF etcd_ref_live sample_store_wf sample_caller(1) sample_empty f sample_sizes(1) t(1)
        _ _ refl t(2)] n
    by (fastforce simp: slash_request_def)
qed

section \<open>Leases\<close>

text \<open>C32: \<^verbatim>\<open>GetNodeLease\<close> ends after at most twenty requests to etcd, whatever etcd answers and whatever the
  others do before each of them.\<close>
theorem node_lease_ends:
  fixes E :: "'e etcd"
  shows "snd (snd (get_node_lease (interleaved E env) dc name (e, n))) \<le> n + 20"
proof -
  have step: "snd x' = Suc (snd x)" if "with_env env f x = (r, x')" for f and x x' :: "'e \<times> nat" and r
    using that by (auto simp: with_env_result)
  have renew: "snd x' \<le> Suc (snd x)" if "renew_stored (interleaved E env) ks x = (r, x')" for ks and x x' :: "'e \<times> nat" and r
    using that by (auto simp: renew_stored_def dest!: step split: list.splits option.splits prod.splits sum.splits)
  have "snd (snd (lease_rounds k (interleaved E env) key x)) \<le> snd x + 4 * k" for k key and x :: "'e \<times> nat"
  proof (induction k arbitrary: x)
    case (Suc k)
    show ?case
      by (auto split: prod.splits sum.splits option.splits bool.splits dest!: step renew intro: order_trans [OF Suc.IH])
  qed simp
  from this [of 5 "lease_key dc name" "(e, n)"] show ?thesis by (simp add: get_node_lease_def)
qed

text \<open>C33: a renewal that fails for any reason counts as an expired lease. If it was not, as after a timeout,
  a heartbeat moves the node to a new lease and leaves its services on the old one, which nothing
  renews any more: when that ends the services are gone, though the node is alive and beating.\<close>
theorem failed_renewal_strands_services:
  assumes "etcd_live E ok kvs leases" "ok e" "card (leases e) < 2 ^ 62"
    and "extract_peer_certificate ctx = Inr c" "cert_node (kvs e) c = Some (role, node)"
    and "key = lease_key (ns_datacenter node) (ns_name node)" "length key < 2 ^ 17"
    and "lease_stored (kvs e) key l1" "l1 \<in> leases e" "k \<in> service_keys node s i" "holds_spec (kvs e) k spec l1"
  shows "\<exists>e' l2. heartbeat (E\<lparr>etcd_lease_renew := \<lambda>e l. (Inl err, e)\<rparr>) ctx e = (Inr (), e')
    \<and> l2 \<noteq> l1 \<and> {l1, l2} \<subseteq> leases e' \<and> holds_spec (kvs e') k spec l1
    \<and> lease_stored (drop_lease l1 (kvs e')) key l2 \<and> drop_lease l1 (kvs e') k = None"
proof -
  let ?E = "E\<lparr>etcd_lease_renew := \<lambda>e l. (Inl err, e)\<rparr>"
  note store = etcd_live.axioms(1) [OF assms(1)]
  obtain x where x: "kvs e key = Some x" "unmarshal_int64 (kv_value x) = Some l1"
    using assms(8) by (auto simp: lease_stored_def)
  obtain e1 where auth: "authenticate_from_certificate E (Some c) e = (Inr (role, node), e1)"
    and e1: "ok e1" "kvs e1 = kvs e" "leases e1 = leases e"
    by (rule etcd_live.authenticate_certificate_total [OF assms(1,2,5)])
  have schema: "get_node_schema ?E = get_node_schema E" by (simp add: get_node_schema_def fun_eq_iff)
  have auth': "authenticate_from_certificate ?E (Some c) e = (Inr (role, node), e1)"
    using auth unfolding authenticate_from_certificate_def schema .
  obtain e2 where rg: "etcd_range E e1 \<lparr>rr_key = key, rr_end = [], rr_limit = 0\<rparr> = (Inr [x], e2)"
    and e2: "ok e2" "kvs e2 = kvs e" "leases e2 = leases e"
    by (rule etcd_live.lookup_total [OF assms(1) e1(1), of 0 key]) (use x(1) e1 in auto)
  obtain l2 e3 where gr: "etcd_lease_grant E e2 (uint node_keepalive_ttl) = (Inr l2, e3)"
    using etcd_live.grant_returns [OF assms(1) e2(1)] assms(3) e2(3) by metis
  note g = etcd_store.grant_result [OF store e2(1) gr]
  have "txn_size (lease_txn key [x] l2) < 2 ^ 20"
    using assms(7) g length_marshal_int64 [of l2] by (simp add: lease_txn_def txn_size_def)
  then obtain b e4 where tx: "etcd_txn E e3 (lease_txn key [x] l2) = (Inr b, e4)"
    using etcd_live.txn_returns [OF assms(1), of e3 "lease_txn key [x] l2"] g by (auto simp: lease_txn_def)
  have b: "b" using etcd_store.txn_result [OF store _ tx] g e2 x(1) by (simp add: lease_txn_def compare_holds_def)
  obtain rv where kv: "kvs e4 = (kvs e)(key \<mapsto> put_entry rv key (marshal_int64 l2) 0 (kvs e key))"
    using etcd_store.txn_effect [OF store _ tx] g e2 b by (auto simp: lease_txn_def)
  have ls: "leases e4 = insert l2 (leases e)" using etcd_store.txn_frame [OF store _ tx] g e2 by auto
  have "heartbeat ?E ctx e = (Inr (), e4)"
    using assms(4,6) auth' rg gr tx b x(2) by (simp add: heartbeat_def get_node_lease_def eval_nat_numeral renew_stored_def)
  moreover have "l2 \<noteq> l1" "l1 \<noteq> 0" using g assms(9) e2 etcd_store.lease_nonzero [OF store assms(2)] by auto
  moreover have "k \<noteq> key" using assms(6,10) by (auto simp: key_eqs)
  ultimately show ?thesis
    using kv ls assms(9,11) g
    by (intro exI [of _ e4] exI [of _ l2])
      (auto simp: holds_spec_def lease_stored_def drop_lease_def unmarshal_marshal_int64)
qed

definition beating_store :: store where
  "beating_store = busy_store\<lparr>st_entries :=
     [service_entry ''dcsvc/dc1/n1/web/c1'',
      (''node_lease/dc1/n1'', \<lparr>kv_key = ''node_lease/dc1/n1'', kv_value = marshal_int64 7, kv_create_rev = 2,
         kv_version = 1, kv_lease = 0\<rparr>),
      node_entry sample_node, node_entry sample_observer, service_entry ''svc/web/eu/dc1/n1/c1'']\<rparr>"

lemma beating_store_wf: "store_wf beating_store"
  by (simp add: store_wf_def beating_store_def busy_store_def keys_sorted_def entries_ok_def entry_ok_def
      node_entry_def service_entry_def Let_def sample_node_def sample_observer_def sample_node_keys)

lemma beating_kvs: "store_kvs beating_store = (store_kvs busy_store)(''node_lease/dc1/n1'' \<mapsto>
    \<lparr>kv_key = ''node_lease/dc1/n1'', kv_value = marshal_int64 7, kv_create_rev = 2, kv_version = 1, kv_lease = 0\<rparr>)"
  by (auto simp: fun_eq_iff store_kvs_def beating_store_def busy_store_def sample_node_entries service_entry_def)

theorem failed_renewal_strands_services_witness:
  "\<exists>e' l2. heartbeat (store_etcd\<lparr>etcd_lease_renew := \<lambda>e l. (Inl (Failure ''timeout''), e)\<rparr>) (Some agent_peer) beating_store =
      (Inr (), e') \<and> l2 \<noteq> (7 :: int) \<and> drop_lease 7 (store_kvs e') ''svc/web/eu/dc1/n1/c1'' = None"
proof -
  have c: "extract_peer_certificate (Some agent_peer) = Inr (sample_cert ''n1'' ''Agents'' 0)"
    by (simp add: extract_peer_certificate_def agent_peer_def sample_peer_def)
  have n: "cert_node (store_kvs beating_store) (sample_cert ''n1'' ''Agents'' 0) = Some (''Agents'', sample_node)"
    using cert_node_cong [of "store_kvs beating_store" "store_kvs busy_store"] busy_stored(1)
    by (simp add: cert_node_def sample_cert_def beating_kvs stored_node_def node_key_def key_path_two)
  have l: "card (store_leases beating_store) < 2 ^ 62" "7 \<in> store_leases beating_store"
    by (simp_all add: store_leases_def beating_store_def busy_store_def)
  have key: "''node_lease/dc1/n1'' = lease_key (ns_datacenter sample_node) (ns_name sample_node)" by (simp add: sample_service_keys)
  have st: "lease_stored (store_kvs beating_store) ''node_lease/dc1/n1'' 7"
    using unmarshal_marshal_int64 [of 7] by (simp add: lease_stored_def beating_kvs)
  have k: "''svc/web/eu/dc1/n1/c1'' \<in> service_keys sample_node ''web'' ''c1''" by (simp add: service_keys_def sample_service_keys)
  have h: "holds_spec (store_kvs beating_store) ''svc/web/eu/dc1/n1/c1'' sample_spec 7"
    unfolding beating_kvs by (simp add: holds_spec_def) (simp add: busy_kvs)
  have len: "length ''node_lease/dc1/n1'' < 2 ^ 17" by simp
  from failed_renewal_strands_services [OF etcd_ref_live beating_store_wf l(1) c n key len st l(2) k h, of "Failure ''timeout''"]
  show ?thesis by (elim exE conjE) (intro exI conjI, assumption+)
qed

end
