(* ===== verification/Servers.thy ===== *)
theory Servers
  imports PeerApi AgentApi RegEtcd
begin

text \<open>
  The gRPC servers and clients of the registry as \<^verbatim>\<open>crypto/tls\<close> configurations: \<^verbatim>\<open>StartApiServer\<close> of
  registry/agent_api and registry/peer_api, \<^verbatim>\<open>NewPeerApiClient\<close>, and the end of registry/main.go that
  starts the servers. Opening a socket and making a gRPC client are parameters that may fail; what
  the theorems use is whose certificates each side presents and accepts.
\<close>

section \<open>TLS\<close>

text \<open>A server under \<^verbatim>\<open>RequireAndVerifyClientCert\<close>, and a client.\<close>

record tls_server =
  tls_address :: string
  tls_pair :: key_pair
  tls_client_cas :: "certificate list"

record tls_client =
  tlc_target :: string
  tlc_server_name :: string
  tlc_roots :: "certificate list"
  tlc_pair :: key_pair

definition handshake :: "int \<Rightarrow> tls_server \<Rightarrow> tls_client \<Rightarrow> bool" where
  "handshake now srv cl \<longleftrightarrow>
     verifies_server (tlc_roots cl) now (tlc_server_name cl) (kp_leaf (tls_pair srv))
     \<and> verifies_client (tls_client_cas srv) now (kp_leaf (tlc_pair cl))"

text \<open>A call over a connection: the handler sees the client's certificate as its peer.\<close>

definition peer_of_client :: "string \<Rightarrow> tls_client \<Rightarrow> rpc_peer option" where
  "peer_of_client addr cl = Some \<lparr>peer_address = addr, peer_auth = TLSInfo [kp_leaf (tlc_pair cl)]\<rparr>"

definition remote_call ::
  "int \<Rightarrow> tls_server \<Rightarrow> tls_client \<Rightarrow> string \<Rightarrow> (rpc_peer option \<Rightarrow> 'e \<Rightarrow> 'a outcome \<times> 'e) \<Rightarrow> 'e \<Rightarrow> 'a outcome \<times> 'e" where
  "remote_call now srv cl addr handler e =
     (if handshake now srv cl then handler (peer_of_client addr cl) e
      else (Inl (Failure ''authentication handshake failed''), e))"

definition load_x509_key_pair :: "fs \<Rightarrow> string \<Rightarrow> string \<Rightarrow> key_pair outcome" where
  "load_x509_key_pair f crt_file key_file =
     (case read_file f crt_file of
        Inl err \<Rightarrow> Inl err
      | Inr crt \<Rightarrow> (case read_file f key_file of Inl err \<Rightarrow> Inl err | Inr key \<Rightarrow> x509_key_pair crt key))"

section \<open>The servers of a registry\<close>

definition registry_server_name :: string where
  "registry_server_name = ''registry.cluster.internal''"

definition start_agent_api :: "(string \<Rightarrow> unit outcome) \<Rightarrow> config \<Rightarrow> state \<Rightarrow> fs \<Rightarrow> tls_server outcome" where
  "start_agent_api listen c st f =
     (case load_x509_key_pair f (st_server_crt_file st) (st_server_key_file st) of
        Inl _ \<Rightarrow> Inl (Fatal ''LoadX509KeyPair'')
      | Inr kp \<Rightarrow>
          (case listen (agent_api_listen_host c) of
             Inl _ \<Rightarrow> Inl (Fatal ''Failed to listen'')
           | Inr _ \<Rightarrow> Inr \<lparr>tls_address = agent_api_listen_host c, tls_pair = kp,
               tls_client_cas = [kp_leaf (st_agent_ca st)]\<rparr>))"

definition start_peer_api :: "(string \<Rightarrow> unit outcome) \<Rightarrow> config \<Rightarrow> state \<Rightarrow> fs \<Rightarrow> tls_server outcome" where
  "start_peer_api listen c st f =
     (case load_x509_key_pair f (st_server_crt_file st) (st_server_key_file st) of
        Inl _ \<Rightarrow> Inl (Fatal ''LoadX509KeyPair'')
      | Inr kp \<Rightarrow>
          (case listen (peer_api_listen_host c) of
             Inl _ \<Rightarrow> Inl (Fatal ''Failed to listen'')
           | Inr _ \<Rightarrow> Inr \<lparr>tls_address = peer_api_listen_host c, tls_pair = kp,
               tls_client_cas = [kp_leaf (st_ca st)]\<rparr>))"

definition new_peer_api_client :: "(string \<Rightarrow> unit outcome) \<Rightarrow> string \<Rightarrow> state \<Rightarrow> tls_client outcome" where
  "new_peer_api_client dial url st =
     (case dial url of
        Inl _ \<Rightarrow> Inl (Fatal ''Failed to create grpc client'')
      | Inr _ \<Rightarrow> Inr \<lparr>tlc_target = url, tlc_server_name = registry_server_name, tlc_roots = [kp_leaf (st_ca st)],
          tlc_pair = st_server_key_pair st\<rparr>)"

text \<open>The end of \<^verbatim>\<open>main\<close>, from the started etcd on: the peer API serves at once, the agent API only after etcd
  is ready and the registry has published its address; \<open>ready\<close> is false after the 60 seconds.\<close>

definition registry_serve ::
  "(string \<Rightarrow> unit outcome) \<Rightarrow> 'e etcd \<Rightarrow> ('u \<Rightarrow> string) \<Rightarrow> config \<Rightarrow> state \<Rightarrow> fs \<Rightarrow> 'u etcd_config \<Rightarrow> bool \<Rightarrow> 'e \<Rightarrow>
   tls_server list \<times> unit outcome \<times> 'e" where
  "registry_serve listen E show_url c st f ec ready e =
     (case start_peer_api listen c st f of
        Inl err \<Rightarrow> ([], Inl err, e)
      | Inr peer_api \<Rightarrow>
          if \<not> ready then ([peer_api], Inr (), e)
          else
            (let e = etcd_post_start_update E show_url c ec e in
             case start_agent_api listen c st f of
               Inl err \<Rightarrow> ([peer_api], Inl err, e)
             | Inr agent_api \<Rightarrow> ([peer_api, agent_api], Inr (), e)))"

section \<open>The server certificate\<close>

lemma add_hostname_keeps [simp]:
  "crt_issuer (add_hostname_to_cert c h) = crt_issuer c" "crt_not_before (add_hostname_to_cert c h) = crt_not_before c"
  "crt_not_after (add_hostname_to_cert c h) = crt_not_after c" "crt_ext_usage (add_hostname_to_cert c h) = crt_ext_usage c"
  "crt_public (add_hostname_to_cert c h) = crt_public c"
  by (simp_all add: add_hostname_to_cert_def Let_def)

lemma add_hostname_names: "d \<in> set (crt_dns_names c) \<Longrightarrow> d \<in> set (crt_dns_names (add_hostname_to_cert c h))"
  by (simp add: add_hostname_to_cert_def Let_def)

definition server_certificate :: "int \<Rightarrow> key_pair \<Rightarrow> key_pair \<Rightarrow> bool" where
  "server_certificate now ca kp \<longleftrightarrow>
     crt_issuer (kp_leaf kp) = crt_subject (kp_leaf ca) \<and> crt_signer (kp_leaf kp) = public_of (kp_private ca)
     \<and> crt_not_before (kp_leaf kp) = whole_second now \<and> crt_not_after (kp_leaf kp) = whole_second (now + 90 * day)
     \<and> set (crt_ext_usage (kp_leaf kp)) = {ServerAuth, ClientAuth}
     \<and> registry_server_name \<in> set (crt_dns_names (kp_leaf kp))"

lemma create_peer_crt_server:
  assumes "create_peer_crt seed now c ca = Inr (crt, key)" "x509_key_pair crt key = Inr kp"
  shows "server_certificate now ca kp"
  using assms
  by (auto simp: create_peer_crt_def create_certificate_def x509_key_pair_def server_certificate_def
      registry_server_name_def add_hostname_names Let_def split: if_splits)

definition authority_certificate :: "string \<Rightarrow> int \<Rightarrow> key_pair \<Rightarrow> bool" where
  "authority_certificate ou start ca \<longleftrightarrow>
     crt_is_ca (kp_leaf ca) \<and> crt_key_usage (kp_leaf ca) = CertSign
     \<and> crt_public (kp_leaf ca) = public_of (kp_private ca) \<and> pn_ou (crt_subject (kp_leaf ca)) = [ou]
     \<and> crt_not_before (kp_leaf ca) = whole_second start \<and> crt_not_after (kp_leaf ca) = whole_second (start + 10 * 365 * day)"

lemma authority_is:
  "authority hkdf token start i ou = Some ca \<Longrightarrow> authority_certificate ou start ca"
  by (auto simp: authority_def create_ca_def create_certificate_def x509_key_pair_def authority_certificate_def
      der_sorted_def Let_def split: sum.splits prod.splits if_splits)

lemma store_pair_files:
  assumes "store_pair made cf kf f = (Inr (x, y, kp), f')" "cf \<noteq> kf" "fs_readable f cf" "fs_readable f kf"
  shows "load_x509_key_pair f' cf kf = Inr kp" "x = cf" "y = kf"
  using assms
  by (auto simp: store_pair_def write_file_def load_x509_key_pair_def read_file_def split: sum.splits prod.splits if_splits)

text \<open>A loaded state: what its authorities and its server certificate are, and that the servers find the pair.\<close>

lemma load_state_server:
  assumes "load_state hkdf rnd seed now c f = (Inr st, f')" "\<And>p. fs_readable f p"
  obtains start where "authority_certificate ''Servers'' start (st_ca st)"
    "authority_certificate ''Agents'' start (st_agent_ca st)"
    "server_certificate now (st_ca st) (st_server_key_pair st)"
    "load_x509_key_pair f' (st_server_crt_file st) (st_server_key_file st) = Inr (st_server_key_pair st)"
proof -
  obtain fd ft token start where p: "authority hkdf token start ''CA'' ''Servers'' = Some (st_ca st)"
    "authority hkdf token start ''Agent-CA'' ''Agents'' = Some (st_agent_ca st)"
    "make_dir f (cf_dir c) = (Inr (), fd)" "load_state_token c rnd now fd = (Inr (token, start), ft)"
    "fs_readable f' = fs_readable ft"
    by (rule load_state_parts [OF assms(1)])
  from assms(1) obtain fb x y where
    sv: "store_pair (create_peer_crt seed now c (st_ca st)) (path_join (cf_dir c) ''peer.crt'') (path_join (cf_dir c) ''peer.key'') fb =
      (Inr (x, y, st_server_key_pair st), f')" and files: "st_server_crt_file st = x" "st_server_key_file st = y"
    by (auto simp: load_state_def load_state_peer_crt_def split: prod.splits sum.splits)
  obtain crt key where crt: "create_peer_crt seed now c (st_ca st) = Inr (crt, key)" "x509_key_pair crt key = Inr (st_server_key_pair st)"
    using sv by (rule store_pair_ok)
  have "fs_readable ft = fs_readable fd"
    using p(4) by (auto simp: load_state_token_def write_file_def Let_def split: sum.splits prod.splits if_splits option.splits)
  then have "fs_readable fb q" for q
    using assms(2) make_dir_frame [OF p(3)] p(5) store_pair_frame(2) [OF sv] by simp
  then have "load_x509_key_pair f' (st_server_crt_file st) (st_server_key_file st) = Inr (st_server_key_pair st)"
    using store_pair_files [OF sv] files by simp
  then show thesis
    using that [OF authority_is [OF p(1)] authority_is [OF p(2)] create_peer_crt_server [OF crt]] by blast
qed

section \<open>Properties\<close>

lemma server_certificate_verifies:
  assumes "server_certificate now ca kp" "authority_certificate ou start ca" "valid_at t (kp_leaf ca)"
  shows "verifies_server [kp_leaf ca] t registry_server_name (kp_leaf kp) \<longleftrightarrow>
      whole_second now \<le> t \<and> t \<le> whole_second (now + 90 * day)"
    "verifies_client [kp_leaf ca] t (kp_leaf kp) \<longleftrightarrow> whole_second now \<le> t \<and> t \<le> whole_second (now + 90 * day)"
  using assms
  by (auto simp: server_certificate_def authority_certificate_def verifies_server_def verifies_client_def issued_by_pool_def
      valid_at_def)

text \<open>Between a server and a client that hold certificates of one authority.\<close>

lemma server_handshake:
  assumes "server_certificate now ca (tls_pair srv)" "server_certificate now2 ca (tlc_pair cl)"
    and "authority_certificate ou start ca" "valid_at t (kp_leaf ca)"
    and "tls_client_cas srv = [kp_leaf ca]" "tlc_roots cl = [kp_leaf ca]" "tlc_server_name cl = registry_server_name"
  shows "handshake t srv cl \<longleftrightarrow>
    max (whole_second now) (whole_second now2) \<le> t
    \<and> t \<le> min (whole_second (now + 90 * day)) (whole_second (now2 + 90 * day))"
  using assms(5-7) server_certificate_verifies [OF assms(1,3,4)] server_certificate_verifies [OF assms(2,3,4)]
  by (auto simp: handshake_def)

lemma start_servers:
  assumes "load_x509_key_pair f (st_server_crt_file st) (st_server_key_file st) = Inr (st_server_key_pair st)"
  shows "start_peer_api listen c st f = Inr srv \<Longrightarrow>
      tls_pair srv = st_server_key_pair st \<and> tls_client_cas srv = [kp_leaf (st_ca st)]"
    "start_agent_api listen c st f = Inr srv \<Longrightarrow>
      tls_pair srv = st_server_key_pair st \<and> tls_client_cas srv = [kp_leaf (st_agent_ca st)]"
  using assms by (auto simp: start_peer_api_def start_agent_api_def split: sum.splits)

text \<open>C26: two registries that share their authority reach each other's peer API exactly while both server
  certificates are valid, that is from the later start until ninety days after the earlier one: the certificate is
  made when a registry starts, loaded once by its servers and never renewed while it runs, so once the older of
  the two has run for ninety days neither gets through to the other.\<close>
theorem peer_api_reachable_ninety_days:
  assumes "load_state hkdf rnd seed now c f = (Inr st, f')" "\<And>p. fs_readable f p"
    and "load_state hkdf rnd2 seed2 now2 c2 g = (Inr st2, g')" "\<And>p. fs_readable g p"
    and "st_ca st2 = st_ca st" "valid_at t (kp_leaf (st_ca st))"
    and "start_peer_api listen c st f' = Inr srv" "new_peer_api_client dial url st2 = Inr cl"
  shows "handshake t srv cl \<longleftrightarrow>
    max (whole_second now) (whole_second now2) \<le> t
    \<and> t \<le> min (whole_second (now + 90 * day)) (whole_second (now2 + 90 * day))"
proof -
  obtain start where a: "authority_certificate ''Servers'' start (st_ca st)" "server_certificate now (st_ca st) (st_server_key_pair st)"
    "load_x509_key_pair f' (st_server_crt_file st) (st_server_key_file st) = Inr (st_server_key_pair st)"
    by (rule load_state_server [OF assms(1,2)])
  have b: "server_certificate now2 (st_ca st) (st_server_key_pair st2)"
    by (rule load_state_server [OF assms(3,4)]) (use assms(5) in simp)
  have cl: "tlc_server_name cl = registry_server_name" "tlc_roots cl = [kp_leaf (st_ca st)]" "tlc_pair cl = st_server_key_pair st2"
    using assms(5,8) by (auto simp: new_peer_api_client_def split: sum.splits)
  note srv = start_servers(1) [OF a(3) assms(7)]
  show ?thesis using a b cl srv assms(6) by (intro server_handshake [of now "st_ca st"]) simp_all
qed

text \<open>C27: the two APIs of a registry are for different callers: whatever the time, a certificate that AddNode,
  GetNodeCredentials or Config issues to a node is refused by the peer API, and the certificate of a
  registry is refused by the agent API, for the two authorities differ in their names.\<close>
theorem apis_separate_callers:
  assumes "load_state hkdf rnd seed now c f = (Inr st, f')" "\<And>p. fs_readable f p"
    and "start_peer_api listen c st f' = Inr peer_api" "start_agent_api listen c st f' = Inr agent_api"
    and "create_node_crt seed2 now2 st dc name role = Inr (CertPem crt, key)"
  shows "(\<forall>node. kp_leaf (tlc_pair node) = crt \<longrightarrow> \<not> handshake t peer_api node)
    \<and> (\<forall>registry. tlc_pair registry = st_server_key_pair st \<longrightarrow> \<not> handshake t agent_api registry)"
proof -
  obtain start where a: "authority_certificate ''Servers'' start (st_ca st)" "authority_certificate ''Agents'' start (st_agent_ca st)"
    "server_certificate now (st_ca st) (st_server_key_pair st)"
    "load_x509_key_pair f' (st_server_crt_file st) (st_server_key_file st) = Inr (st_server_key_pair st)"
    by (rule load_state_server [OF assms(1,2)])
  then have differ: "crt_subject (kp_leaf (st_ca st)) \<noteq> crt_subject (kp_leaf (st_agent_ca st))"
    by (auto simp: authority_certificate_def dest: arg_cong [where f = pn_ou])
  have "crt_issuer crt = crt_subject (kp_leaf (st_agent_ca st))"
    using assms(5) by (auto simp: create_node_crt_def create_certificate_def Let_def split: if_splits)
  then have "\<not> handshake t peer_api node" if "kp_leaf (tlc_pair node) = crt" for node
    using start_servers(1) [OF a(4) assms(3)] differ that by (simp add: handshake_def verifies_client_def issued_by_pool_def)
  moreover have "\<not> handshake t agent_api registry" if "tlc_pair registry = st_server_key_pair st" for registry
    using start_servers(2) [OF a(4) assms(4)] differ a(3) that
    by (auto simp: handshake_def verifies_client_def issued_by_pool_def server_certificate_def)
  ultimately show ?thesis by blast
qed

lemma pair_of_pair: "x509_key_pair crt key = Inr kp \<Longrightarrow> x509_key_pair (CertPem (kp_leaf kp)) (KeyPem (kp_private kp)) = Inr kp"
  by (auto simp: x509_key_pair_def split: blob.splits if_splits)

text \<open>The registry of the sample configuration after its first start.\<close>

lemma sample_registry:
  obtains st f' where "load_state (\<lambda>t i n. t @ i) ''rnd'' ''seed'' 0 sample_config sample_fs = (Inr st, f')"
    "valid_at 0 (kp_leaf (st_ca st))" "valid_at 0 (kp_leaf (st_agent_ca st))"
    "authority_certificate ''Servers'' 0 (st_ca st)" "server_certificate 0 (st_ca st) (st_server_key_pair st)"
    "x509_key_pair (CertPem (kp_leaf (st_server_key_pair st))) (KeyPem (kp_private (st_server_key_pair st))) =
       Inr (st_server_key_pair st)"
    "start_peer_api (\<lambda>a. Inr ()) sample_config st f' = Inr \<lparr>tls_address = peer_api_listen_host sample_config,
       tls_pair = st_server_key_pair st, tls_client_cas = [kp_leaf (st_ca st)]\<rparr>"
    "start_agent_api (\<lambda>a. Inr ()) sample_config st f' = Inr \<lparr>tls_address = agent_api_listen_host sample_config,
       tls_pair = st_server_key_pair st, tls_client_cas = [kp_leaf (st_agent_ca st)]\<rparr>"
proof -
  obtain st f' where load: "load_state (\<lambda>t i n. t @ i) ''rnd'' ''seed'' 0 sample_config sample_fs = (Inr st, f')"
    by (rule sample_first_start)
  have r: "fs_readable sample_fs p" for p by (simp add: sample_fs_def)
  obtain fd ft token start where p: "make_dir sample_fs (cf_dir sample_config) = (Inr (), fd)"
    "load_state_token sample_config ''rnd'' 0 fd = (Inr (token, start), ft)"
    "authority (\<lambda>t i n. t @ i) token start ''CA'' ''Servers'' = Some (st_ca st)"
    "authority (\<lambda>t i n. t @ i) token start ''Agent-CA'' ''Agents'' = Some (st_agent_ca st)"
    by (rule load_state_parts [OF load])
  have "fd = sample_fs\<lparr>fs_dirs := [''state'']\<rparr>" using p(1) by (auto simp: make_dir_def sample_fs_def sample_config_def)
  then have "start = 0" using p(2) by (simp add: load_state_token_def write_file_def sample_fs_def sample_config_def)
  then have a: "authority_certificate ''Servers'' 0 (st_ca st)" "authority_certificate ''Agents'' 0 (st_agent_ca st)"
    using authority_is p(3,4) by blast+
  then have "valid_at 0 (kp_leaf (st_ca st))" "valid_at 0 (kp_leaf (st_agent_ca st))"
    by (simp_all add: authority_certificate_def valid_at_def whole_second_def second_def day_def)
  moreover have k: "load_x509_key_pair f' (st_server_crt_file st) (st_server_key_file st) = Inr (st_server_key_pair st)"
    "server_certificate 0 (st_ca st) (st_server_key_pair st)"
    using load r by (rule load_state_server, blast)+
  moreover have "x509_key_pair (CertPem (kp_leaf (st_server_key_pair st))) (KeyPem (kp_private (st_server_key_pair st))) =
      Inr (st_server_key_pair st)"
    using k(1) by (auto simp: load_x509_key_pair_def intro: pair_of_pair split: sum.splits)
  ultimately show thesis using load a by (intro that [of st f']) (simp_all add: start_peer_api_def start_agent_api_def)
qed

theorem peer_api_reachable_ninety_days_witness:
  "\<exists>st f' srv cl. load_state (\<lambda>t i n. t @ i) ''rnd'' ''seed'' 0 sample_config sample_fs = (Inr st, f')
    \<and> start_peer_api (\<lambda>a. Inr ()) sample_config st f' = Inr srv
    \<and> new_peer_api_client (\<lambda>u. Inr ()) ''r1.example:42'' st = Inr cl \<and> handshake 0 srv cl"
proof -
  obtain st f' where s: "load_state (\<lambda>t i n. t @ i) ''rnd'' ''seed'' 0 sample_config sample_fs = (Inr st, f')"
    "valid_at 0 (kp_leaf (st_ca st))"
    "start_peer_api (\<lambda>a. Inr ()) sample_config st f' = Inr \<lparr>tls_address = peer_api_listen_host sample_config,
       tls_pair = st_server_key_pair st, tls_client_cas = [kp_leaf (st_ca st)]\<rparr>"
    by (rule sample_registry)
  have r: "fs_readable sample_fs p" for p by (simp add: sample_fs_def)
  obtain cl where cl: "new_peer_api_client (\<lambda>u. Inr ()) ''r1.example:42'' st = Inr cl" by (simp add: new_peer_api_client_def)
  have "handshake 0 \<lparr>tls_address = peer_api_listen_host sample_config, tls_pair = st_server_key_pair st,
      tls_client_cas = [kp_leaf (st_ca st)]\<rparr> cl"
    using peer_api_reachable_ninety_days [OF s(1) r s(1) r refl s(2,3) cl]
    by (simp add: whole_second_def second_def day_def)
  with s cl show ?thesis by blast
qed

theorem apis_separate_callers_witness:
  "\<exists>st f' crt key srv. load_state (\<lambda>t i n. t @ i) ''rnd'' ''seed'' 0 sample_config sample_fs = (Inr st, f')
    \<and> create_node_crt ''key'' 0 st ''dc1'' ''n1'' agent_certificate_ou = Inr (CertPem crt, key)
    \<and> start_peer_api (\<lambda>a. Inr ()) sample_config st f' = Inr srv
    \<and> \<not> handshake 0 srv \<lparr>tlc_target = [], tlc_server_name = registry_server_name, tlc_roots = [kp_leaf (st_ca st)],
          tlc_pair = \<lparr>kp_leaf = crt, kp_private = EdPrivate ''key''\<rparr>\<rparr>"
proof -
  obtain st f' where s: "load_state (\<lambda>t i n. t @ i) ''rnd'' ''seed'' 0 sample_config sample_fs = (Inr st, f')"
    "start_peer_api (\<lambda>a. Inr ()) sample_config st f' = Inr \<lparr>tls_address = peer_api_listen_host sample_config,
       tls_pair = st_server_key_pair st, tls_client_cas = [kp_leaf (st_ca st)]\<rparr>"
    "start_agent_api (\<lambda>a. Inr ()) sample_config st f' = Inr \<lparr>tls_address = agent_api_listen_host sample_config,
       tls_pair = st_server_key_pair st, tls_client_cas = [kp_leaf (st_agent_ca st)]\<rparr>"
    by (rule sample_registry)
  have r: "fs_readable sample_fs p" for p by (simp add: sample_fs_def)
  have "utf8_valid ''dc1''" "utf8_valid ''n1''" by (rule utf8_valid_ascii, simp)+
  then obtain crt where c: "create_node_crt ''key'' 0 st ''dc1'' ''n1'' agent_certificate_ou = Inr (CertPem crt, KeyPem (EdPrivate ''key''))"
    using create_node_crt_ok role_utf8(1) by metis
  show ?thesis
    using apis_separate_callers [OF s(1) r s(2,3) c, of 0] s(1,2) c
    by (intro exI [of _ st] exI [of _ f'] exI [of _ crt] exI [of _ "KeyPem (EdPrivate ''key'')"] exI) auto
qed

end
