(* ===== verification/NodeUtils.thy ===== *)
theory NodeUtils
  imports NodeApi
begin

text \<open>
  node-utils: what agents and observers share. A node keeps its certificate, its key and the
  addresses of the registries in its state directory, replaces them when the registry's answer to
  \<^verbatim>\<open>Config\<close> brings new ones, and tells the gRPC connection which addresses to use.
\<close>

section \<open>The certificate of the node\<close>

text \<open>A file that does not exist is replaced by the one that was provided; any other error stays.\<close>

definition read_file_or :: "fs \<Rightarrow> string \<Rightarrow> string \<Rightarrow> blob outcome" where
  "read_file_or f p provided =
     (case read_file f p of
        Inl err \<Rightarrow> if fs_files f p = None then read_file f provided else Inl err
      | Inr b \<Rightarrow> Inr b)"

definition load_node_crt ::
  "string \<Rightarrow> string \<Rightarrow> string \<Rightarrow> fs \<Rightarrow> (string \<times> string \<times> key_pair) outcome \<times> fs" where
  "load_node_crt dir crt_path key_path_name f =
     (let cert_file = path_join dir ''node.crt''; key_file = path_join dir ''node.key'' in
      case read_file_or f cert_file crt_path of
        Inl _ \<Rightarrow> (Inl (Fatal ''Failed to load node certificate''), f)
      | Inr crt \<Rightarrow>
     (case read_file_or f key_file key_path_name of
        Inl _ \<Rightarrow> (Inl (Fatal ''Failed to load node key''), f)
      | Inr key \<Rightarrow>
     (case x509_key_pair crt key of
        Inl _ \<Rightarrow> (Inl (Fatal ''Failed to load node key pair''), f)
      | Inr kp \<Rightarrow>
     (case write_file f cert_file crt of
        (Inl _, f) \<Rightarrow> (Inl (Fatal ''Error: Failed to write node certificate''), f)
      | (Inr _, f) \<Rightarrow>
     (case write_file f key_file key of
        (Inl _, f) \<Rightarrow> (Inl (Fatal ''Error: Failed to write node key''), f)
      | (Inr _, f) \<Rightarrow> (Inr (cert_file, key_file, kp), f))))))"

section \<open>The addresses of the registries\<close>

definition write_registry_addresses :: "string \<Rightarrow> string list \<Rightarrow> fs \<Rightarrow> unit outcome \<times> fs" where
  "write_registry_addresses file addrs f = write_file f file (Raw (concat (map (\<lambda>l. l @ [CHR 0x0A]) addrs)))"

text \<open>
  \<^verbatim>\<open>bufio.Scanner\<close>: lines without their line feed and one carriage return before it; a last line that
  is empty is none; a line of 64 KiB or more is an error (\<open>None\<close>).
\<close>

definition drop_cr :: "string \<Rightarrow> string" where
  "drop_cr l = (if l \<noteq> [] \<and> last l = CHR 0x0D then butlast l else l)"

definition scan_lines :: "string \<Rightarrow> string list option" where
  "scan_lines s =
     (let ls = split_on (CHR 0x0A) s; ls = (if last ls = [] then butlast ls else ls) in
      if list_ex (\<lambda>l. 64 * 1024 \<le> length l) ls then None else Some (map drop_cr ls))"

definition load_registry_addresses ::
  "string \<Rightarrow> string list \<Rightarrow> fs \<Rightarrow> (string \<times> string list) outcome \<times> fs" where
  "load_registry_addresses dir provided f =
     (let addrs_file = path_join dir ''addrs'' in
      case read_file f addrs_file of
        Inl _ \<Rightarrow>
          (if fs_files f addrs_file = None then
             (case write_registry_addresses addrs_file provided f of
                (Inl _, f) \<Rightarrow> (Inl (Fatal ''Error: Failed to write registry addresses''), f)
              | (Inr _, f) \<Rightarrow> (Inr (addrs_file, provided), f))
           else (Inl (Fatal ''Failed to load registry addresses''), f))
      | Inr b \<Rightarrow>
          (case scan_lines (blob_text b) of
             None \<Rightarrow> (Inl (Fatal ''Failed to load registry addresses''), f)
           | Some lines \<Rightarrow>
               (if length lines < 1 then
                  (case write_registry_addresses addrs_file provided f of
                     (Inl _, f) \<Rightarrow> (Inl (Fatal ''Error: Failed to write registry addresses''), f)
                   | (Inr _, f) \<Rightarrow> (Inr (addrs_file, provided), f))
                else (Inr (addrs_file, lines), f))))"

section \<open>\<^verbatim>\<open>NodeState\<close>\<close>

text \<open>\<open>rb_resolver\<close> is what the connection was last told, \<open>None\<close> before gRPC has built the resolver.\<close>

record resolver_builder =
  rb_addrs :: "string list"
  rb_resolver :: "string list option"

record node_state =
  nu_credentials :: key_pair
  nu_resolver :: resolver_builder
  nu_addrs_file :: string
  nu_cert_file :: string
  nu_key_file :: string

definition registry_resolver_scheme :: string where
  "registry_resolver_scheme = ''registry''"

definition resolver_reload :: "string list \<Rightarrow> resolver_builder \<Rightarrow> resolver_builder" where
  [simp]: "resolver_reload addrs b = b\<lparr>rb_resolver := Some addrs\<rparr>"

definition resolver_build :: "resolver_builder \<Rightarrow> resolver_builder" where
  "resolver_build b = resolver_reload (rb_addrs b) b"

definition resolver_update :: "string list \<Rightarrow> resolver_builder \<Rightarrow> resolver_builder outcome" where
  "resolver_update addrs b =
     (case rb_resolver b of
        None \<Rightarrow> Inl (Panic ''nil pointer dereference'')
      | Some _ \<Rightarrow> Inr (resolver_reload addrs (b\<lparr>rb_addrs := addrs\<rparr>)))"

definition load_node_state ::
  "string \<Rightarrow> string \<Rightarrow> string \<Rightarrow> string \<Rightarrow> string list \<Rightarrow> fs \<Rightarrow> node_state outcome \<times> fs" where
  "load_node_state dir ca_file crt_file key_file provided f =
     (case make_dir f dir of
        (Inl _, f) \<Rightarrow> (Inl (Fatal ''Failed to create state dir''), f)
      | (Inr _, f) \<Rightarrow>
     (case read_file f ca_file of
        Inl _ \<Rightarrow> (Inl (Fatal ''Failed to read CA certificate''), f)
      | Inr _ \<Rightarrow>
     (case load_node_crt dir crt_file key_file f of
        (Inl err, f) \<Rightarrow> (Inl err, f)
      | (Inr (cert_file, key_file, creds), f) \<Rightarrow>
     (case load_registry_addresses dir provided f of
        (Inl err, f) \<Rightarrow> (Inl err, f)
      | (Inr (addrs_file, addrs), f) \<Rightarrow>
          (Inr \<lparr>nu_credentials = creds, nu_resolver = \<lparr>rb_addrs = addrs, rb_resolver = None\<rparr>,
             nu_addrs_file = addrs_file, nu_cert_file = cert_file, nu_key_file = key_file\<rparr>, f)))))"

text \<open>The error is the value of the first component; failures to write the files are logged only.\<close>

definition update_credentials :: "blob \<Rightarrow> blob \<Rightarrow> node_state \<Rightarrow> fs \<Rightarrow> unit outcome \<times> node_state \<times> fs" where
  "update_credentials crt key st f =
     (case x509_key_pair crt key of
        Inl err \<Rightarrow> (Inl err, st, f)
      | Inr kp \<Rightarrow>
          (let f = snd (write_file f (nu_cert_file st) crt);
               f = snd (write_file f (nu_key_file st) key)
           in (Inr (), st\<lparr>nu_credentials := kp\<rparr>, f)))"

text \<open>
  The two writes are not one step: what the disk may hold when the process ends before they are done. A file whose
  write has begun is truncated and then filled, so the end may leave it with a text that is no PEM block.
\<close>

inductive interrupted_writes :: "string \<Rightarrow> blob \<Rightarrow> string \<Rightarrow> blob \<Rightarrow> fs \<Rightarrow> fs \<Rightarrow> bool" for cert_file crt key_file key f where
  NotBegun: "interrupted_writes cert_file crt key_file key f f"
| CrtTorn: "interrupted_writes cert_file crt key_file key f (snd (write_file f cert_file (Raw torn)))"
| CrtWritten: "interrupted_writes cert_file crt key_file key f (snd (write_file f cert_file crt))"
| KeyTorn: "interrupted_writes cert_file crt key_file key f
    (snd (write_file (snd (write_file f cert_file crt)) key_file (Raw torn)))"
| KeyWritten: "interrupted_writes cert_file crt key_file key f
    (snd (write_file (snd (write_file f cert_file crt)) key_file key))"

definition update_addrs :: "string list \<Rightarrow> node_state \<Rightarrow> fs \<Rightarrow> unit outcome \<times> node_state \<times> fs" where
  "update_addrs addrs st f =
     (case resolver_update addrs (nu_resolver st) of
        Inl err \<Rightarrow> (Inl err, st\<lparr>nu_resolver := (nu_resolver st)\<lparr>rb_addrs := addrs\<rparr>\<rparr>, f)
      | Inr b \<Rightarrow> (Inr (), st\<lparr>nu_resolver := b\<rparr>, snd (write_registry_addresses (nu_addrs_file st) addrs f)))"

section \<open>Helpers\<close>

text \<open>\<open>answer\<close> is what the registry answered to \<^verbatim>\<open>Config\<close>.\<close>

definition get_registry_config ::
  "config_response outcome \<Rightarrow> node_state \<Rightarrow> fs \<Rightarrow> config_response outcome \<times> node_state \<times> fs" where
  "get_registry_config answer st f =
     (case answer of
        Inl err \<Rightarrow> (Inl err, st, f)
      | Inr res \<Rightarrow>
          (let (st, f) =
                 (case (cfg_certificate res, cfg_key res) of
                    (Some crt, Some key) \<Rightarrow> snd (update_credentials crt key st f)
                  | _ \<Rightarrow> (st, f))
           in case update_addrs (cfg_registry_addrs res) st f of
                (Inl err, st, f) \<Rightarrow> (Inl err, st, f)
              | (Inr _, st, f) \<Rightarrow> (Inr res, st, f)))"

text \<open>
  The endless background jobs, over the answers that they get: the pauses they make, in
  nanoseconds. After an error the loop goes on at once. A panic ends the process.
\<close>

fun config_background_job ::
  "config_response outcome list \<Rightarrow> node_state \<Rightarrow> fs \<Rightarrow> int list \<times> node_state \<times> fs" where
  "config_background_job [] st f = ([], st, f)"
| "config_background_job (a # as) st f =
     (case get_registry_config a st f of
        (Inr _, st, f) \<Rightarrow>
          (let (ps, r) = config_background_job as st f in (60 * second # ps, r))
      | (Inl err, st, f) \<Rightarrow>
          (if is_panic (Inl err :: unit outcome) then ([], st, f) else config_background_job as st f))"

fun heartbeat_background_job :: "int \<Rightarrow> unit outcome list \<Rightarrow> int list" where
  "heartbeat_background_job period [] = []"
| "heartbeat_background_job period (a # as) =
     (case a of
        Inl _ \<Rightarrow> heartbeat_background_job period as
      | Inr _ \<Rightarrow> period * second # heartbeat_background_job period as)"

section \<open>Facts\<close>

definition plain_line :: "string \<Rightarrow> bool" where
  "plain_line l \<longleftrightarrow> CHR 0x0A \<notin> set l \<and> length l < 64 * 1024 \<and> drop_cr l = l"

lemma split_lines:
  "list_all plain_line ls \<Longrightarrow> split_on (CHR 0x0A) (concat (map (\<lambda>l. l @ [CHR 0x0A]) ls)) = ls @ [[]]"
  by (induction ls) (auto simp: plain_line_def split_on_append)

lemma scan_written_lines:
  assumes "list_all plain_line ls"
  shows "scan_lines (concat (map (\<lambda>l. l @ [CHR 0x0A]) ls)) = Some ls"
proof -
  have "map drop_cr ls = ls" using assms by (induction ls) (auto simp: plain_line_def)
  moreover have "\<not> list_ex (\<lambda>l. 64 * 1024 \<le> length l) ls"
    using assms by (induction ls) (auto simp: plain_line_def)
  ultimately show ?thesis unfolding scan_lines_def split_lines [OF assms] by (simp add: Let_def)
qed

lemma write_registry_addresses_ok:
  "fs_writable f p \<Longrightarrow> write_registry_addresses p ls f =
    (Inr (), f\<lparr>fs_files := (fs_files f)(p \<mapsto> Raw (concat (map (\<lambda>l. l @ [CHR 0x0A]) ls)))\<rparr>)"
  by (simp add: write_registry_addresses_def write_file_def)

lemma get_registry_config_credentials:
  assumes "cfg_certificate res = Some crt" "cfg_key res = Some key" "x509_key_pair crt key = Inr kp"
    "rb_resolver (nu_resolver st) = Some old"
  obtains st' f' where "get_registry_config (Inr res) st f = (Inr res, st', f')" "nu_credentials st' = kp"
    "rb_resolver (nu_resolver st') = Some (cfg_registry_addrs res)"
  using assms by (simp add: get_registry_config_def update_credentials_def update_addrs_def resolver_update_def Let_def)

section \<open>Properties\<close>

definition sample_node_state :: node_state where
  "sample_node_state = \<lparr>nu_credentials = \<lparr>kp_leaf = sample_authority, kp_private = EdPrivate ''old''\<rparr>,
     nu_resolver = \<lparr>rb_addrs = [''a:1''], rb_resolver = Some [''a:1'']\<rparr>,
     nu_addrs_file = path_join ''node'' ''addrs'', nu_cert_file = path_join ''node'' ''node.crt'',
     nu_key_file = path_join ''node'' ''node.key''\<rparr>"

definition sample_files :: fs where
  "sample_files = \<lparr>fs_files = (\<lambda>p. None), fs_dirs = [''node''], fs_readable = (\<lambda>p. True), fs_writable = (\<lambda>p. True)\<rparr>"

text \<open>The registry addresses that a node was last told are the ones it loads when it restarts, whatever
  addresses it is started with, as long as it was told some and none contains a line break.\<close>
theorem addresses_survive_restart:
  assumes "rb_resolver (nu_resolver st) = Some old" "nu_addrs_file st = path_join dir ''addrs''"
    and "fs_writable f (path_join dir ''addrs'')" "fs_readable f (path_join dir ''addrs'')"
    and "addrs \<noteq> []" "list_all plain_line addrs"
  shows "\<exists>st' f'. update_addrs addrs st f = (Inr (), st', f')
    \<and> rb_resolver (nu_resolver st') = Some addrs
    \<and> load_registry_addresses dir provided f' = (Inr (path_join dir ''addrs'', addrs), f')"
  using assms scan_written_lines [OF assms(6)]
  by (simp add: update_addrs_def resolver_update_def write_registry_addresses_ok load_registry_addresses_def
      read_file_def Let_def Suc_le_eq)

theorem addresses_survive_restart_witness:
  "\<exists>st' f'. update_addrs [''r1:4003'', ''r2:4003''] sample_node_state sample_files = (Inr (), st', f')
    \<and> load_registry_addresses ''node'' [''old:1''] f' = (Inr (path_join ''node'' ''addrs'', [''r1:4003'', ''r2:4003'']), f')"
  using addresses_survive_restart [of sample_node_state "[''a:1'']" "''node''" sample_files "[''r1:4003'', ''r2:4003'']" "[''old:1'']"]
  by (auto simp: sample_node_state_def sample_files_def plain_line_def drop_cr_def)

text \<open>\<^verbatim>\<open>UpdateCredentials\<close> is all or nothing in memory: a certificate and key that do not belong together
  change neither the state nor a file; a pair that does is used from then on, and is the one that a
  restart loads.\<close>
theorem credentials_replaced_or_kept:
  assumes "nu_cert_file st = path_join dir ''node.crt''" "nu_key_file st = path_join dir ''node.key''"
    and "\<And>p. fs_writable f p" "\<And>p. fs_readable f p"
  shows "case x509_key_pair crt key of
      Inl err \<Rightarrow> update_credentials crt key st f = (Inl err, st, f)
    | Inr kp \<Rightarrow>
        (\<exists>f' f''. update_credentials crt key st f = (Inr (), st\<lparr>nu_credentials := kp\<rparr>, f')
          \<and> load_node_crt dir crt0 key0 f' = (Inr (path_join dir ''node.crt'', path_join dir ''node.key'', kp), f'')
          \<and> fs_files f'' = fs_files f')"
  using assms
  by (auto simp: update_credentials_def load_node_crt_def read_file_or_def read_file_def write_file_def Let_def fun_eq_iff
      split: sum.split)

theorem credentials_replaced_or_kept_witness:
  "\<exists>f' f''. update_credentials (CertPem sample_authority) (KeyPem (EdPrivate ''seed'')) sample_node_state sample_files =
      (Inr (), sample_node_state\<lparr>nu_credentials := \<lparr>kp_leaf = sample_authority, kp_private = EdPrivate ''seed''\<rparr>\<rparr>, f')
    \<and> load_node_crt ''node'' ''c'' ''k'' f' = (Inr (path_join ''node'' ''node.crt'', path_join ''node'' ''node.key'',
        \<lparr>kp_leaf = sample_authority, kp_private = EdPrivate ''seed''\<rparr>), f'')"
proof -
  have "x509_key_pair (CertPem sample_authority) (KeyPem (EdPrivate ''seed'')) =
      Inr \<lparr>kp_leaf = sample_authority, kp_private = EdPrivate ''seed''\<rparr>"
    by (simp add: x509_key_pair_def sample_authority_def)
  then show ?thesis
    using credentials_replaced_or_kept [of sample_node_state "''node''" sample_files "CertPem sample_authority"
        "KeyPem (EdPrivate ''seed'')" "''c''" "''k''"]
    by (auto simp: sample_node_state_def sample_files_def)
qed

end
