(* ===== verification/Cli.thy ===== *)
theory Cli
  imports Servers NodeUtils
begin

text \<open>
  The administrator's client: cmd/cmd/root.go, add.go and creds.go. A run starts from parsed flags
  (the parser is a library), makes a client of the peer API, makes one call and writes the two
  files it got, or their content to the standard output for the path \<^verbatim>\<open>-\<close>.
\<close>

section \<open>Flags and their defaults\<close>

record cli_flags =
  cli_ca :: string
  cli_crt :: string
  cli_key :: string
  cli_cluster :: string

definition default_flags :: cli_flags where
  "default_flags = \<lparr>cli_ca = ''ca.crt'', cli_crt = ''peer.crt'', cli_key = ''peer.key'', cli_cluster = ''127.0.0.1:2382''\<rparr>"

text \<open>The flags of both subcommands; \<open>sub_location\<close> and \<open>sub_observer\<close> are of \<^verbatim>\<open>add\<close> only. Location and
  datacenter are required, so they have no default.\<close>

record sub_flags =
  sub_location :: string
  sub_datacenter :: string
  sub_node_crt :: string
  sub_node_key :: string
  sub_observer :: bool

definition default_sub_flags :: "string \<Rightarrow> string \<Rightarrow> sub_flags" where
  "default_sub_flags location datacenter =
     \<lparr>sub_location = location, sub_datacenter = datacenter, sub_node_crt = ''node.crt'', sub_node_key = ''node.key'',
      sub_observer = False\<rparr>"

section \<open>Runs\<close>

text \<open>The machine of the administrator: its files and what went to the standard output, if that can be written.\<close>

record cli_world =
  cw_files :: fs
  cw_stdout :: "blob list"
  cw_stdout_ok :: bool

datatype cli_end = CliDone | CliMessage string | CliDied fault

definition write_to_file :: "string \<Rightarrow> blob \<Rightarrow> cli_world \<Rightarrow> unit outcome \<times> cli_world" where
  "write_to_file path content w =
     (if path = ''-'' then
        (if cw_stdout_ok w then (Inr (), w\<lparr>cw_stdout := cw_stdout w @ [content]\<rparr>)
         else (Inl (Failure ''write error''), w))
      else (case write_file (cw_files w) path content of (r, f) \<Rightarrow> (r, w\<lparr>cw_files := f\<rparr>)))"

definition roots_of :: "blob \<Rightarrow> certificate list" where
  "roots_of pem = (case pem of CertPem c \<Rightarrow> [c] | _ \<Rightarrow> [])"

definition cli_peer_api_client :: "(string \<Rightarrow> unit outcome) \<Rightarrow> cli_flags \<Rightarrow> fs \<Rightarrow> tls_client outcome" where
  "cli_peer_api_client dial fl f =
     (case read_file f (cli_ca fl) of
        Inl _ \<Rightarrow> Inl (Fatal ''Failed to read CA certificate'')
      | Inr ca_pem \<Rightarrow>
          (case load_x509_key_pair f (cli_crt fl) (cli_key fl) of
             Inl _ \<Rightarrow> Inl (Fatal ''Failed to load peer credentials'')
           | Inr cert \<Rightarrow>
               (case dial (cli_cluster fl) of
                  Inl _ \<Rightarrow> Inl (Fatal ''Failed to create grpc client'')
                | Inr _ \<Rightarrow> Inr \<lparr>tlc_target = cli_cluster fl, tlc_server_name = registry_server_name,
                    tlc_roots = roots_of ca_pem, tlc_pair = cert\<rparr>)))"

text \<open>What both subcommands do with an answer; both report a failed call as a failure to add a node.\<close>

definition keep_credentials :: "sub_flags \<Rightarrow> (blob \<times> blob) outcome \<Rightarrow> cli_world \<Rightarrow> cli_end \<times> cli_world" where
  "keep_credentials sf res w =
     (case res of
        Inl _ \<Rightarrow> (CliMessage ''Failed to add node'', w)
      | Inr (crt, key) \<Rightarrow>
          (case write_to_file (sub_node_crt sf) crt w of
             (Inl _, w) \<Rightarrow> (CliDied (Panic ''write''), w)
           | (Inr _, w) \<Rightarrow>
               (case write_to_file (sub_node_key sf) key w of
                  (Inl _, w) \<Rightarrow> (CliDied (Panic ''write''), w)
                | (Inr _, w) \<Rightarrow> (CliDone, w))))"

text \<open>\<open>call\<close> is the procedure call over the client's connection, with the state \<open>e\<close> of the registry.\<close>

definition run_add ::
  "(string \<Rightarrow> unit outcome) \<Rightarrow> cli_flags \<Rightarrow> sub_flags \<Rightarrow> string \<Rightarrow>
   (tls_client \<Rightarrow> add_node_request \<Rightarrow> 'e \<Rightarrow> (blob \<times> blob) outcome \<times> 'e) \<Rightarrow> cli_world \<Rightarrow> 'e \<Rightarrow> cli_end \<times> cli_world \<times> 'e" where
  "run_add dial fl sf name call w e =
     (case cli_peer_api_client dial fl (cw_files w) of
        Inl err \<Rightarrow> (CliDied err, w, e)
      | Inr client \<Rightarrow>
          (case call client \<lparr>an_name = name, an_datacenter = sub_datacenter sf, an_location = sub_location sf,
               an_node_type = (if sub_observer sf then OBSERVER else AGENT)\<rparr> e of
             (res, e) \<Rightarrow> (case keep_credentials sf res w of (r, w) \<Rightarrow> (r, w, e))))"

definition run_creds ::
  "(string \<Rightarrow> unit outcome) \<Rightarrow> cli_flags \<Rightarrow> sub_flags \<Rightarrow> string \<Rightarrow>
   (tls_client \<Rightarrow> credentials_request \<Rightarrow> 'e \<Rightarrow> (blob \<times> blob) outcome \<times> 'e) \<Rightarrow> cli_world \<Rightarrow> 'e \<Rightarrow> cli_end \<times> cli_world \<times> 'e" where
  "run_creds dial fl sf name call w e =
     (case cli_peer_api_client dial fl (cw_files w) of
        Inl err \<Rightarrow> (CliDied err, w, e)
      | Inr client \<Rightarrow>
          (case call client \<lparr>gc_name = name, gc_datacenter = sub_datacenter sf\<rparr> e of
             (res, e) \<Rightarrow> (case keep_credentials sf res w of (r, w) \<Rightarrow> (r, w, e))))"

section \<open>Properties\<close>

text \<open>The files that a run wrote.\<close>

lemma keep_credentials_files:
  assumes "sub_node_crt sf \<noteq> ''-''" "sub_node_key sf \<noteq> ''-''" "sub_node_crt sf \<noteq> sub_node_key sf"
    and "fs_writable (cw_files w) (sub_node_crt sf)" "fs_writable (cw_files w) (sub_node_key sf)"
  obtains w' where "keep_credentials sf (Inr (crt, key)) w = (CliDone, w')"
    "fs_files (cw_files w') (sub_node_crt sf) = Some crt" "fs_files (cw_files w') (sub_node_key sf) = Some key"
  using assms by (simp add: keep_credentials_def write_to_file_def write_file_def)

lemma load_node_crt_provided:
  assumes "\<And>p. fs_readable f p" "\<And>p. fs_writable f p"
    and "fs_files f (path_join dir ''node.crt'') = None" "fs_files f (path_join dir ''node.key'') = None"
    and "fs_files f crt_path = Some crt" "fs_files f key_path_name = Some key" "x509_key_pair crt key = Inr kp"
  shows "\<exists>f'. load_node_crt dir crt_path key_path_name f =
    (Inr (path_join dir ''node.crt'', path_join dir ''node.key'', kp), f')"
  using assms by (simp add: load_node_crt_def read_file_or_def read_file_def write_file_def Let_def)

lemma load_node_crt_stored:
  assumes "\<And>p. fs_readable f p" "\<And>p. fs_writable f p"
    and "fs_files f (path_join dir ''node.crt'') = Some crt" "fs_files f (path_join dir ''node.key'') = Some key"
    and "x509_key_pair crt key = Inr kp"
  shows "\<exists>f'. load_node_crt dir crt_path key_path_name f =
    (Inr (path_join dir ''node.crt'', path_join dir ''node.key'', kp), f')"
  using assms by (simp add: load_node_crt_def read_file_or_def read_file_def write_file_def Let_def)

lemma created_pair:
  assumes "add_node E st seed now req e = (Inr (CertPem c, KeyPem (EdPrivate seed)), e')"
  shows "x509_key_pair (CertPem c) (KeyPem (EdPrivate seed)) = Inr \<lparr>kp_leaf = c, kp_private = EdPrivate seed\<rparr>"
proof -
  have "crt_public c = EdPublic seed"
    using assms by (auto simp: add_node_def create_node_crt_def create_certificate_def Let_def split: sum.splits prod.splits bool.splits if_splits)
  then show ?thesis by (simp add: x509_key_pair_def)
qed

text \<open>The whole way of a new node: \<^verbatim>\<open>ssle-cli node add\<close> with a client that the peer API accepts ends well and
  writes two files, with which a node that was never started before starts; the certificate it then
  presents is authenticated as the node that was asked for, where the datacenter's name is shorter
  than the role.\<close>
theorem added_node_starts:
  assumes "etcd_live E ok kvs leases" "ok e"
    and "req = \<lparr>an_name = name, an_datacenter = sub_datacenter sf, an_location = sub_location sf,
           an_node_type = (if sub_observer sf then OBSERVER else AGENT)\<rparr>"
    and "kvs e (node_key (an_datacenter req) (an_name req)) = None"
    and "node_valid (requested_node req)" "txn_size (add_node_txn req) < 2 ^ 20"
    and "length (an_datacenter req) < length (role_of (an_node_type req))"
    and "cli_peer_api_client dial fl (cw_files w) = Inr cl" "handshake t srv cl"
    and "sub_node_crt sf \<noteq> ''-''" "sub_node_key sf \<noteq> ''-''" "sub_node_crt sf \<noteq> sub_node_key sf"
    and "fs_writable (cw_files w) (sub_node_crt sf)" "fs_writable (cw_files w) (sub_node_key sf)"
  shows "\<exists>w' e' c.
    run_add dial fl sf name (\<lambda>cl req. remote_call t srv cl addr (\<lambda>ctx. add_node E st seed now req)) w e = (CliDone, w', e')
    \<and> (\<forall>f dir crt_path key_path_name.
        (\<forall>p. fs_readable f p \<and> fs_writable f p)
        \<and> fs_files f (path_join dir ''node.crt'') = None \<and> fs_files f (path_join dir ''node.key'') = None
        \<and> fs_files f crt_path = fs_files (cw_files w') (sub_node_crt sf)
        \<and> fs_files f key_path_name = fs_files (cw_files w') (sub_node_key sf) \<longrightarrow>
        (\<exists>f'. load_node_crt dir crt_path key_path_name f = (Inr (path_join dir ''node.crt'', path_join dir ''node.key'',
           \<lparr>kp_leaf = c, kp_private = EdPrivate seed\<rparr>), f')))
    \<and> (\<forall>ctx. presents ctx c \<longrightarrow> caller (kvs e') ctx (role_of (an_node_type req)) = Inr (requested_node req))"
proof -
  obtain e' c where a: "add_node E st seed now req e = (Inr (CertPem c, KeyPem (EdPrivate seed)), e')"
    and auth: "\<forall>ctx. presents ctx c \<longrightarrow> caller (kvs e') ctx (role_of (an_node_type req)) = Inr (requested_node req)"
    using add_node_authenticates [OF assms(1,2,4-7), of st seed now] by blast
  obtain w' where w': "keep_credentials sf (Inr (CertPem c, KeyPem (EdPrivate seed))) w = (CliDone, w')"
    "fs_files (cw_files w') (sub_node_crt sf) = Some (CertPem c)" "fs_files (cw_files w') (sub_node_key sf) = Some (KeyPem (EdPrivate seed))"
    using assms(10-14) by (rule keep_credentials_files)
  have "run_add dial fl sf name (\<lambda>cl req. remote_call t srv cl addr (\<lambda>ctx. add_node E st seed now req)) w e = (CliDone, w', e')"
    using assms(8,9) a w'(1) by (simp add: run_add_def remote_call_def flip: assms(3))
  moreover note load_node_crt_provided [OF _ _ _ _ _ _ created_pair [OF a]]
  ultimately show ?thesis
    using auth w'(2,3) by (intro exI [of _ w'] exI [of _ e'] exI [of _ c]) simp
qed

text \<open>The administrator's machine with the files of a registry.\<close>

definition admin_world :: "state \<Rightarrow> cli_world" where
  "admin_world st =
     \<lparr>cw_files = sample_fs\<lparr>fs_files := [''ca.crt'' \<mapsto> CertPem (kp_leaf (st_ca st)),
        ''peer.crt'' \<mapsto> CertPem (kp_leaf (st_server_key_pair st)), ''peer.key'' \<mapsto> KeyPem (kp_private (st_server_key_pair st))]\<rparr>,
      cw_stdout = [], cw_stdout_ok = True\<rparr>"

lemma admin_client:
  assumes "x509_key_pair (CertPem (kp_leaf (st_server_key_pair st))) (KeyPem (kp_private (st_server_key_pair st))) =
      Inr (st_server_key_pair st)"
  shows "cli_peer_api_client (\<lambda>a. Inr ()) default_flags (cw_files (admin_world st)) =
    Inr \<lparr>tlc_target = ''127.0.0.1:2382'', tlc_server_name = registry_server_name, tlc_roots = [kp_leaf (st_ca st)],
      tlc_pair = st_server_key_pair st\<rparr>"
  using assms by (simp add: cli_peer_api_client_def admin_world_def default_flags_def read_file_def sample_fs_def
      load_x509_key_pair_def roots_of_def)

theorem added_node_starts_witness:
  "\<exists>st f' srv w' e'. load_state (\<lambda>t i n. t @ i) ''rnd'' ''seed'' 0 sample_config sample_fs = (Inr st, f')
    \<and> run_add (\<lambda>a. Inr ()) default_flags (default_sub_flags ''eu'' ''dc1'') ''n2''
        (\<lambda>cl req. remote_call 0 srv cl [] (\<lambda>ctx. add_node store_etcd st ''key'' 0 req)) (admin_world st) sample_store =
      (CliDone, w', e')"
proof -
  let ?sf = "default_sub_flags ''eu'' ''dc1''"
  obtain st f' where s: "load_state (\<lambda>t i n. t @ i) ''rnd'' ''seed'' 0 sample_config sample_fs = (Inr st, f')"
    "valid_at 0 (kp_leaf (st_ca st))" "authority_certificate ''Servers'' 0 (st_ca st)"
    "server_certificate 0 (st_ca st) (st_server_key_pair st)"
    "x509_key_pair (CertPem (kp_leaf (st_server_key_pair st))) (KeyPem (kp_private (st_server_key_pair st))) =
       Inr (st_server_key_pair st)"
    by (rule sample_registry)
  define srv where "srv = \<lparr>tls_address = [], tls_pair = st_server_key_pair st, tls_client_cas = [kp_leaf (st_ca st)]\<rparr>"
  define cl where "cl = \<lparr>tlc_target = ''127.0.0.1:2382'', tlc_server_name = registry_server_name,
    tlc_roots = [kp_leaf (st_ca st)], tlc_pair = st_server_key_pair st\<rparr>"
  have h: "handshake 0 srv cl"
    using s(2-4) server_handshake [of 0 "st_ca st" srv 0 cl "''Servers''" 0 0]
    by (simp add: srv_def cl_def whole_second_def second_def day_def)
  have req: "\<lparr>an_name = ''n2'', an_datacenter = sub_datacenter ?sf, an_location = sub_location ?sf,
      an_node_type = (if sub_observer ?sf then OBSERVER else AGENT)\<rparr> = sample_add ''dc1''"
    by (simp add: sample_add_def default_sub_flags_def)
  have free: "store_kvs sample_store (node_key (an_datacenter (sample_add ''dc1'')) (an_name (sample_add ''dc1''))) = None"
    using node_entries_n2(1) by (simp add: sample_add_def)
  have c: "cli_peer_api_client (\<lambda>a. Inr ()) default_flags (cw_files (admin_world st)) = Inr cl"
    using admin_client [OF s(5)] by (simp add: cl_def)
  have f: "length (an_datacenter (sample_add ''dc1'')) < length (role_of (an_node_type (sample_add ''dc1'')))"
    "sub_node_crt ?sf \<noteq> ''-''" "sub_node_key ?sf \<noteq> ''-''" "sub_node_crt ?sf \<noteq> sub_node_key ?sf"
    "fs_writable (cw_files (admin_world st)) (sub_node_crt ?sf)" "fs_writable (cw_files (admin_world st)) (sub_node_key ?sf)"
    by (simp_all add: sample_add_def role_of_def agent_certificate_ou_def default_sub_flags_def admin_world_def sample_fs_def)
  note run = added_node_starts [where E = store_etcd and ok = store_wf and kvs = store_kvs and leases = store_leases
      and e = sample_store and req = "sample_add ''dc1''" and name = "''n2''" and sf = ?sf and dial = "\<lambda>a. Inr ()"
      and fl = default_flags and w = "admin_world st" and cl = cl and t = 0 and srv = srv and st = st and seed = "''key''"
      and now = 0 and addr = "[]"]
  from run [OF etcd_ref_live sample_store_wf req [symmetric] free sample_add_valid(1) sample_add_size(1) f(1) c h f(2-6)]
  obtain w' e' where "run_add (\<lambda>a. Inr ()) default_flags ?sf ''n2''
      (\<lambda>cl req. remote_call 0 srv cl [] (\<lambda>ctx. add_node store_etcd st ''key'' 0 req)) (admin_world st) sample_store =
    (CliDone, w', e')"
    by blast
  with s(1) show ?thesis by blast
qed

text \<open>Credentials that the state directory of a node holds win over the ones it is given: new ones, as
  \<^verbatim>\<open>ssle-cli node creds\<close> fetches them for a node that was away until its certificate expired, are never
  looked at, and with the old ones no server lets the node in.\<close>
theorem stored_credentials_win:
  assumes "\<And>p. fs_readable f p" "\<And>p. fs_writable f p"
    and "fs_files f (path_join dir ''node.crt'') = Some crt" "fs_files f (path_join dir ''node.key'') = Some key"
    and "x509_key_pair crt key = Inr kp"
  shows "(\<exists>f'. load_node_crt dir crt_path key_path_name f =
      (Inr (path_join dir ''node.crt'', path_join dir ''node.key'', kp), f'))
    \<and> (\<forall>t srv cl. crt_not_after (kp_leaf kp) < t \<and> tlc_pair cl = kp \<longrightarrow> \<not> handshake t srv cl)"
  using load_node_crt_stored [OF assms] by (auto simp: handshake_def verifies_client_def valid_at_def)

theorem stored_credentials_win_witness:
  "\<exists>f'. load_node_crt ''node'' ''new.crt'' ''new.key''
      (sample_files\<lparr>fs_files := [path_join ''node'' ''node.crt'' \<mapsto> CertPem sample_authority,
         path_join ''node'' ''node.key'' \<mapsto> KeyPem (EdPrivate ''seed'')]\<rparr>) =
    (Inr (path_join ''node'' ''node.crt'', path_join ''node'' ''node.key'',
       \<lparr>kp_leaf = sample_authority, kp_private = EdPrivate ''seed''\<rparr>), f')"
proof -
  let ?f = "sample_files\<lparr>fs_files := [path_join ''node'' ''node.crt'' \<mapsto> CertPem sample_authority,
    path_join ''node'' ''node.key'' \<mapsto> KeyPem (EdPrivate ''seed'')]\<rparr>"
  have "x509_key_pair (CertPem sample_authority) (KeyPem (EdPrivate ''seed'')) =
      Inr \<lparr>kp_leaf = sample_authority, kp_private = EdPrivate ''seed''\<rparr>"
    by (simp add: x509_key_pair_def sample_authority_def)
  then show ?thesis
    using stored_credentials_win [of ?f "''node''" "CertPem sample_authority" "KeyPem (EdPrivate ''seed'')"]
    by (simp add: sample_files_def)
qed

end
