(* ===== verification/Commands.thy ===== *)
theory Commands
  imports Cli
begin

text \<open>
  The command line of ssle-cli: the tree of commands that the \<^verbatim>\<open>init\<close> functions of cmd/cmd build, and what
  \<^verbatim>\<open>main\<close> does with a command line. The parser itself is the library cobra; its contract is the locale
  \<open>command_parser\<close>, and \<open>parse_arguments\<close> is a parser of the documented forms that keeps it.
\<close>

section \<open>Commands\<close>

datatype flag_value = StringFlag string | BoolFlag bool

record flag_decl =
  fd_name :: string
  fd_default :: flag_value
  fd_usage :: string

text \<open>\<^verbatim>\<open>ExactArgs\<close> is the number of arguments that a command takes; a command without a \<^verbatim>\<open>Run\<close> only groups
  others.\<close>

datatype command = Command
  (cmd_use: string) (cmd_short: string) (cmd_exact_args: "nat option") (cmd_runnable: bool)
  (cmd_persistent: "flag_decl list") (cmd_flags: "flag_decl list") (cmd_required: "string list")
  (cmd_children: "command list")

definition string_var :: "string \<Rightarrow> string \<Rightarrow> string \<Rightarrow> flag_decl" where
  "string_var name value usage = \<lparr>fd_name = name, fd_default = StringFlag value, fd_usage = usage\<rparr>"

definition bool_var :: "string \<Rightarrow> bool \<Rightarrow> string \<Rightarrow> flag_decl" where
  "bool_var name value usage = \<lparr>fd_name = name, fd_default = BoolFlag value, fd_usage = usage\<rparr>"

fun mark_flag_required :: "command \<Rightarrow> string \<Rightarrow> command outcome" where
  "mark_flag_required (Command use short args runs ps fs rs cs) name =
     (if name \<in> fd_name ` set fs then Inr (Command use short args runs ps fs (rs @ [name]) cs)
      else Inl (Failure ''no such flag''))"

fun mark_all_required :: "command \<Rightarrow> string list \<Rightarrow> command outcome" where
  "mark_all_required c [] = Inr c"
| "mark_all_required c (name # names) =
     (case mark_flag_required c name of
        Inl _ \<Rightarrow> Inl (Panic ''MarkFlagRequired'')
      | Inr c \<Rightarrow> mark_all_required c names)"

definition add_command :: "command outcome" where
  "add_command = mark_all_required
     (Command ''add'' ''Add an node to the SSLE registry'' (Some 1) True []
        [bool_var ''observer'' False ''Whether this node is a datacenter observer'',
         string_var ''node-crt'' ''node.crt'' ''Path to where the node certificate will be written'',
         string_var ''node-key'' ''node.key'' ''Path to where the node key will be written'',
         string_var ''location'' [] ''Datacenter where the node is located'',
         string_var ''datacenter'' [] ''The datacenter location''] [] [])
     [''location'', ''datacenter'']"

definition creds_command :: "command outcome" where
  "creds_command = mark_all_required
     (Command ''creds'' ''Retrieve new node credentials'' (Some 1) True []
        [string_var ''node-crt'' ''node.crt'' ''Path to where the node certificate will be written'',
         string_var ''node-key'' ''node.key'' ''Path to where the node key will be written'',
         string_var ''datacenter'' [] ''The datacenter location''] [] [])
     [''datacenter'']"

definition node_command :: "command list \<Rightarrow> command" where
  "node_command cs = Command ''node'' ''Manage SSLE registry nodes'' None False [] [] [] cs"

definition root_flags :: "flag_decl list" where
  "root_flags =
     [string_var ''ca'' ''ca.crt'' ''Path to the certificate authority file'',
      string_var ''crt'' ''peer.crt'' ''Path to a peer certificate file'',
      string_var ''key'' ''peer.key'' ''Path to a peer key file'',
      string_var ''cluster'' ''127.0.0.1:2382'' ''Address of the cluster peer api'']"

definition root_command :: "command list \<Rightarrow> command" where
  "root_command cs = Command ''ssle-cli'' ''Helper client for managing the SSLE service registry'' None False root_flags [] [] cs"

text \<open>The \<^verbatim>\<open>init\<close> functions run in the order of their files.\<close>

definition command_tree :: "command outcome" where
  "command_tree =
     (case add_command of
        Inl err \<Rightarrow> Inl err
      | Inr add \<Rightarrow>
          (case creds_command of
             Inl err \<Rightarrow> Inl err
           | Inr creds \<Rightarrow> Inr (root_command [node_command [add, creds]])))"

section \<open>Command lines\<close>

text \<open>A parsed command line: the names of the chosen command below the root, the flags that were given, in
  their order, and the arguments.\<close>

record invocation =
  inv_path :: "string list"
  inv_given :: "(string \<times> flag_value) list"
  inv_args :: "string list"

datatype parsed = Invoke invocation | ShowHelp | UsageError string

fun find_command :: "command \<Rightarrow> string list \<Rightarrow> (command \<times> flag_decl list) option" where
  "find_command c [] = Some (c, cmd_persistent c @ cmd_flags c)"
| "find_command c (name # names) =
     (case find (\<lambda>d. cmd_use d = name) (cmd_children c) of
        None \<Rightarrow> None
      | Some d \<Rightarrow> (case find_command d names of None \<Rightarrow> None | Some (e, fs) \<Rightarrow> Some (e, cmd_persistent c @ fs)))"

fun same_kind :: "flag_value \<Rightarrow> flag_value \<Rightarrow> bool" where
  "same_kind (StringFlag _) (StringFlag _) = True"
| "same_kind (BoolFlag _) (BoolFlag _) = True"
| "same_kind _ _ = False"

fun_cases same_kind_stringE: "same_kind (StringFlag s) v"

definition valid_invocation :: "command \<Rightarrow> invocation \<Rightarrow> bool" where
  "valid_invocation tree iv =
     (case find_command tree (inv_path iv) of
        None \<Rightarrow> False
      | Some (c, fs) \<Rightarrow>
          cmd_runnable c
          \<and> (case cmd_exact_args c of None \<Rightarrow> True | Some n \<Rightarrow> length (inv_args iv) = n)
          \<and> list_all (\<lambda>name. name \<in> fst ` set (inv_given iv)) (cmd_required c)
          \<and> list_all (\<lambda>(name, v). list_ex (\<lambda>f. fd_name f = name \<and> same_kind (fd_default f) v) fs) (inv_given iv))"

text \<open>What cobra promises: only a command that runs is invoked, with as many arguments as it takes, with
  its required flags given, and with flags that it or a command above it declares.\<close>

locale command_parser =
  fixes parse :: "command \<Rightarrow> string list \<Rightarrow> parsed"
  assumes parse_valid: "parse tree argv = Invoke iv \<Longrightarrow> valid_invocation tree iv"
begin

lemma parse_runs:
  assumes "parse tree argv = Invoke iv"
  obtains c fs where "find_command tree (inv_path iv) = Some (c, fs)" "cmd_runnable c"
    "\<And>n. cmd_exact_args c = Some n \<Longrightarrow> length (inv_args iv) = n"
    "\<And>name. name \<in> set (cmd_required c) \<Longrightarrow> \<exists>v. (name, v) \<in> set (inv_given iv)"
    "\<And>name v. (name, v) \<in> set (inv_given iv) \<Longrightarrow> \<exists>f \<in> set fs. fd_name f = name \<and> same_kind (fd_default f) v"
  using parse_valid [OF assms] that
  by (fastforce simp: valid_invocation_def list_all_iff list_ex_iff split: option.splits prod.splits)

end

text \<open>The value of a flag after parsing: the last one given, or else the default.\<close>

definition given_string :: "invocation \<Rightarrow> string \<Rightarrow> string \<Rightarrow> string" where
  "given_string iv name unset =
     (case map_of (rev (inv_given iv)) name of Some (StringFlag v) \<Rightarrow> v | _ \<Rightarrow> unset)"

definition given_bool :: "invocation \<Rightarrow> string \<Rightarrow> bool \<Rightarrow> bool" where
  "given_bool iv name unset =
     (case map_of (rev (inv_given iv)) name of Some (BoolFlag v) \<Rightarrow> v | _ \<Rightarrow> unset)"

definition flags_given :: "invocation \<Rightarrow> cli_flags" where
  "flags_given iv =
     \<lparr>cli_ca = given_string iv ''ca'' (cli_ca default_flags), cli_crt = given_string iv ''crt'' (cli_crt default_flags),
      cli_key = given_string iv ''key'' (cli_key default_flags),
      cli_cluster = given_string iv ''cluster'' (cli_cluster default_flags)\<rparr>"

definition sub_flags_given :: "invocation \<Rightarrow> sub_flags" where
  "sub_flags_given iv =
     \<lparr>sub_location = given_string iv ''location'' [], sub_datacenter = given_string iv ''datacenter'' [],
      sub_node_crt = given_string iv ''node-crt'' ''node.crt'', sub_node_key = given_string iv ''node-key'' ''node.key'',
      sub_observer = given_bool iv ''observer'' False\<rparr>"

section \<open>A parser\<close>

text \<open>The flags \<^verbatim>\<open>--name=value\<close> and \<^verbatim>\<open>--name value\<close>, \<^verbatim>\<open>--name\<close> for a boolean, \<^verbatim>\<open>--help\<close>, and \<^verbatim>\<open>--\<close> before arguments; the
  command is chosen by the words that name a child, one level at a time.\<close>

definition flag_named :: "flag_decl list \<Rightarrow> string \<Rightarrow> flag_decl option" where
  "flag_named fs name = find (\<lambda>f. fd_name f = name) fs"

definition set_flag :: "flag_decl list \<Rightarrow> string \<Rightarrow> string \<Rightarrow> (string \<times> flag_value) option" where
  "set_flag fs name value =
     (case flag_named fs name of
        None \<Rightarrow> None
      | Some f \<Rightarrow>
          (case fd_default f of
             StringFlag _ \<Rightarrow> Some (name, StringFlag value)
           | BoolFlag _ \<Rightarrow>
               if value = ''true'' then Some (name, BoolFlag True)
               else if value = ''false'' then Some (name, BoolFlag False) else None))"

definition finish_parse :: "command \<Rightarrow> invocation \<Rightarrow> parsed" where
  "finish_parse tree iv =
     (case find_command tree (inv_path iv) of
        None \<Rightarrow> UsageError ''unknown command''
      | Some (c, fs) \<Rightarrow>
          if \<not> cmd_runnable c then (if inv_args iv = [] then ShowHelp else UsageError ''unknown command'')
          else if valid_invocation tree iv then Invoke iv
          else UsageError ''accepts other arguments or requires other flags'')"

text \<open>A flag with its value and the words that are left.\<close>

definition scan_flag :: "flag_decl list \<Rightarrow> string \<Rightarrow> string list \<Rightarrow> string + (string \<times> flag_value) \<times> string list" where
  "scan_flag fs w ws =
     (let name = takeWhile (\<lambda>c. c \<noteq> CHR ''='') w; rest = dropWhile (\<lambda>c. c \<noteq> CHR ''='') w in
      case flag_named fs name of
        None \<Rightarrow> Inl ''unknown flag''
      | Some f \<Rightarrow>
          if rest \<noteq> [] then (case set_flag fs name (tl rest) of None \<Rightarrow> Inl ''invalid argument'' | Some g \<Rightarrow> Inr (g, ws))
          else if same_kind (fd_default f) (BoolFlag True) then Inr ((name, BoolFlag True), ws)
          else (case ws of [] \<Rightarrow> Inl ''flag needs an argument'' | v # ws' \<Rightarrow> Inr ((name, StringFlag v), ws')))"

lemma scan_flag_shorter: "scan_flag fs w ws = Inr (g, ws') \<Longrightarrow> length ws' \<le> length ws"
  by (cases ws) (auto simp: scan_flag_def Let_def split: option.splits if_splits)

text \<open>One word of the command line: the end of parsing, or the invocation so far and the words that are left.\<close>

definition scan_word :: "command \<Rightarrow> invocation \<Rightarrow> string \<Rightarrow> string list \<Rightarrow> parsed + invocation \<times> string list" where
  "scan_word tree iv w ws =
     (case find_command tree (inv_path iv) of
        None \<Rightarrow> Inl (UsageError ''unknown command'')
      | Some (c, fs) \<Rightarrow>
          if w = ''--'' then Inl (finish_parse tree (iv\<lparr>inv_args := inv_args iv @ ws\<rparr>))
          else if w = ''--help'' \<or> w = ''-h'' then Inl ShowHelp
          else if prefix ''--'' w then
            (case scan_flag fs (drop 2 w) ws of
               Inl msg \<Rightarrow> Inl (UsageError msg)
             | Inr (g, ws') \<Rightarrow> Inr (iv\<lparr>inv_given := inv_given iv @ [g]\<rparr>, ws'))
          else if inv_args iv = [] \<and> list_ex (\<lambda>d. cmd_use d = w) (cmd_children c) then
            Inr (iv\<lparr>inv_path := inv_path iv @ [w]\<rparr>, ws)
          else Inr (iv\<lparr>inv_args := inv_args iv @ [w]\<rparr>, ws))"

lemma scan_word_shorter: "scan_word tree iv w ws = Inr (iv', ws') \<Longrightarrow> length ws' \<le> length ws"
  by (auto simp: scan_word_def dest: scan_flag_shorter split: option.splits prod.splits if_splits sum.splits)

function scan_arguments :: "command \<Rightarrow> invocation \<Rightarrow> string list \<Rightarrow> parsed" where
  "scan_arguments tree iv [] = finish_parse tree iv"
| "scan_arguments tree iv (w # ws) =
     (case scan_word tree iv w ws of
        Inl r \<Rightarrow> r
      | Inr (iv', ws') \<Rightarrow> scan_arguments tree iv' ws')"
  by pat_completeness auto

termination
  by (relation "measure (\<lambda>(_, _, ws). length ws)") (auto simp: le_imp_less_Suc dest: scan_word_shorter)

definition parse_arguments :: "command \<Rightarrow> string list \<Rightarrow> parsed" where
  "parse_arguments tree argv = scan_arguments tree \<lparr>inv_path = [], inv_given = [], inv_args = []\<rparr> argv"

lemma finish_parse_valid: "finish_parse tree iv = Invoke iv' \<Longrightarrow> valid_invocation tree iv'"
  by (auto simp: finish_parse_def split: option.splits prod.splits if_splits)

lemma scan_word_valid: "scan_word tree iv w ws = Inl (Invoke iv') \<Longrightarrow> valid_invocation tree iv'"
  by (auto simp: scan_word_def finish_parse_valid split: option.splits prod.splits if_splits sum.splits)

lemma scan_arguments_valid: "scan_arguments tree iv argv = Invoke iv' \<Longrightarrow> valid_invocation tree iv'"
  by (induction tree iv argv rule: scan_arguments.induct)
    (auto simp: finish_parse_valid scan_word_valid split: sum.splits)

interpretation reference_parser: command_parser parse_arguments
  by unfold_locales (simp add: parse_arguments_def scan_arguments_valid)

section \<open>\<^verbatim>\<open>main\<close>\<close>

text \<open>\<open>add\<close> and \<open>creds\<close> are the calls to the registry, as in \<open>run_add\<close> and \<open>run_creds\<close>.\<close>

definition run_invocation ::
  "(string \<Rightarrow> unit outcome) \<Rightarrow> (tls_client \<Rightarrow> add_node_request \<Rightarrow> 'e \<Rightarrow> (blob \<times> blob) outcome \<times> 'e) \<Rightarrow>
   (tls_client \<Rightarrow> credentials_request \<Rightarrow> 'e \<Rightarrow> (blob \<times> blob) outcome \<times> 'e) \<Rightarrow> invocation \<Rightarrow> cli_world \<Rightarrow> 'e \<Rightarrow>
   cli_end \<times> cli_world \<times> 'e" where
  "run_invocation dial add creds iv w e =
     (case inv_args iv of
        [] \<Rightarrow> (CliDied (Panic ''index out of range''), w, e)
      | name # _ \<Rightarrow>
          if inv_path iv = [''node'', ''add''] then run_add dial (flags_given iv) (sub_flags_given iv) name add w e
          else run_creds dial (flags_given iv) (sub_flags_given iv) name creds w e)"

definition execute ::
  "(command \<Rightarrow> string list \<Rightarrow> parsed) \<Rightarrow> (string \<Rightarrow> unit outcome) \<Rightarrow>
   (tls_client \<Rightarrow> add_node_request \<Rightarrow> 'e \<Rightarrow> (blob \<times> blob) outcome \<times> 'e) \<Rightarrow>
   (tls_client \<Rightarrow> credentials_request \<Rightarrow> 'e \<Rightarrow> (blob \<times> blob) outcome \<times> 'e) \<Rightarrow> string list \<Rightarrow> cli_world \<Rightarrow> 'e \<Rightarrow>
   cli_end \<times> cli_world \<times> 'e" where
  "execute parse dial add creds argv w e =
     (case command_tree of
        Inl err \<Rightarrow> (CliDied err, w, e)
      | Inr root \<Rightarrow>
          (case parse root argv of
             UsageError msg \<Rightarrow> (CliDied (Fatal msg), w, e)
           | ShowHelp \<Rightarrow> (CliDone, w, e)
           | Invoke iv \<Rightarrow> run_invocation dial add creds iv w e))"

section \<open>Properties\<close>

text \<open>The tree that \<^verbatim>\<open>init\<close> builds; no required flag is missing from it, so \<^verbatim>\<open>init\<close> does not panic.\<close>

definition node_flags :: "flag_decl list" where
  "node_flags =
     [string_var ''node-crt'' ''node.crt'' ''Path to where the node certificate will be written'',
      string_var ''node-key'' ''node.key'' ''Path to where the node key will be written'']"

definition add_tree :: command where
  "add_tree = Command ''add'' ''Add an node to the SSLE registry'' (Some 1) True []
     (bool_var ''observer'' False ''Whether this node is a datacenter observer'' # node_flags
       @ [string_var ''location'' [] ''Datacenter where the node is located'', string_var ''datacenter'' [] ''The datacenter location''])
     [''location'', ''datacenter''] []"

definition creds_tree :: command where
  "creds_tree = Command ''creds'' ''Retrieve new node credentials'' (Some 1) True []
     (node_flags @ [string_var ''datacenter'' [] ''The datacenter location'']) [''datacenter''] []"

lemma command_tree_value: "command_tree = Inr (root_command [node_command [add_tree, creds_tree]])"
  by (simp add: command_tree_def add_command_def creds_command_def add_tree_def creds_tree_def node_flags_def
      string_var_def bool_var_def)

lemma find_leaf:
  "find_command add_tree p = (if p = [] then Some (add_tree, cmd_flags add_tree) else None)"
  "find_command creds_tree p = (if p = [] then Some (creds_tree, cmd_flags creds_tree) else None)"
  by (cases p; simp add: add_tree_def creds_tree_def)+

lemma find_below_node:
  "find_command (node_command [add_tree, creds_tree]) (b # bs) =
    (if b = ''add'' then find_command add_tree bs else if b = ''creds'' then find_command creds_tree bs else None)"
  by (auto simp: node_command_def add_tree_def creds_tree_def split: option.split prod.split)

lemma find_below_root:
  "find_command (root_command [node_command cs]) (a # as) =
    (if a = ''node'' then map_option (\<lambda>(e, fs). (e, root_flags @ fs)) (find_command (node_command cs) as) else None)"
  by (auto simp: root_command_def node_command_def split: option.split)

lemma leaf_fields:
  "cmd_required add_tree = [''location'', ''datacenter'']" "cmd_required creds_tree = [''datacenter'']"
  "cmd_exact_args add_tree = Some 1" "cmd_exact_args creds_tree = Some 1"
  "\<forall>f \<in> set (root_flags @ cmd_flags add_tree). fd_name f \<in> {''location'', ''datacenter''} \<longrightarrow> fd_default f = StringFlag []"
  "\<forall>f \<in> set (root_flags @ cmd_flags creds_tree). fd_name f \<in> {''location'', ''datacenter''} \<longrightarrow> fd_default f = StringFlag []"
  by (simp_all add: add_tree_def creds_tree_def root_flags_def node_flags_def string_var_def bool_var_def)

lemma runnable_paths:
  assumes "command_tree = Inr root" "find_command root p = Some (c, fs)" "cmd_runnable c"
  shows "(p = [''node'', ''add''] \<and> cmd_required c = [''location'', ''datacenter'']
      \<or> p = [''node'', ''creds''] \<and> cmd_required c = [''datacenter''])
    \<and> cmd_exact_args c = Some 1
    \<and> (\<forall>f \<in> set fs. fd_name f \<in> {''location'', ''datacenter''} \<longrightarrow> fd_default f = StringFlag [])"
proof -
  note root = trans [OF sym [OF assms(1)] command_tree_value, unfolded sum.inject]
  have groups: "\<not> cmd_runnable (root_command cs)" "\<not> cmd_runnable (node_command cs)" for cs
    by (simp_all add: root_command_def node_command_def)
  have "p \<noteq> []" using assms(2,3) groups by (auto simp: root)
  then obtain a as where p: "p = a # as" by (cases p) auto
  then have a: "a = ''node''" using assms(2) by (simp add: root find_below_root del: find_command.simps(2) split: if_splits)
  have "as \<noteq> []" using assms(2,3) groups by (auto simp: p a root find_below_root simp del: find_command.simps(2))
  then obtain b bs where as: "as = b # bs" by (cases as) auto
  have "bs = [] \<and> (b = ''add'' \<and> c = add_tree \<or> b = ''creds'' \<and> c = creds_tree) \<and> fs = root_flags @ cmd_flags c"
    using assms(2) by (auto simp: p a as root find_below_root find_below_node find_leaf simp del: find_command.simps(2) split: if_splits)
  then show ?thesis using leaf_fields by (auto simp: p a as)
qed

lemma given_required:
  assumes "(name, v) \<in> set (inv_given iv)" "\<And>u. (name, u) \<in> set (inv_given iv) \<Longrightarrow> \<exists>x. u = StringFlag x"
  obtains x where "map_of (rev (inv_given iv)) name = Some (StringFlag x)"
proof -
  obtain u where u: "map_of (rev (inv_given iv)) name = Some u"
    using weak_map_of_SomeI [of name v "rev (inv_given iv)"] assms(1) by auto
  then have "(name, u) \<in> set (inv_given iv)" by (auto dest: map_of_SomeD)
  with assms(2) u that show thesis by blast
qed

text \<open>What an invocation that the parser lets through holds.\<close>

lemma invocation_complete:
  assumes "command_parser parse" "command_tree = Inr root" "parse root argv = Invoke iv"
  obtains c name where "inv_args iv = [name]"
    "inv_path iv = [''node'', ''add''] \<and> cmd_required c = [''location'', ''datacenter'']
      \<or> inv_path iv = [''node'', ''creds''] \<and> cmd_required c = [''datacenter'']"
    "\<And>n. n \<in> set (cmd_required c) \<Longrightarrow> \<exists>x. map_of (rev (inv_given iv)) n = Some (StringFlag x)"
proof -
  obtain c fs where c: "find_command root (inv_path iv) = Some (c, fs)" "cmd_runnable c"
    "\<And>n. cmd_exact_args c = Some n \<Longrightarrow> length (inv_args iv) = n"
    "\<And>name. name \<in> set (cmd_required c) \<Longrightarrow> \<exists>v. (name, v) \<in> set (inv_given iv)"
    "\<And>name v. (name, v) \<in> set (inv_given iv) \<Longrightarrow> \<exists>f \<in> set fs. fd_name f = name \<and> same_kind (fd_default f) v"
    by (rule command_parser.parse_runs [OF assms(1,3)]) (rule that)
  note paths = runnable_paths [OF assms(2) c(1,2)]
  have str: "\<exists>x. u = StringFlag x" if u: "(n, u) \<in> set (inv_given iv)" "n \<in> {''location'', ''datacenter''}" for n u
  proof -
    obtain f where "f \<in> set fs" "fd_name f = n" "same_kind (fd_default f) u" using c(5) [OF u(1)] by blast
    moreover from this have "fd_default f = StringFlag []" using paths u(2) by blast
    ultimately show ?thesis by (auto elim: same_kind_stringE)
  qed
  have "\<exists>x. map_of (rev (inv_given iv)) n = Some (StringFlag x)" if n: "n \<in> set (cmd_required c)" for n
  proof -
    obtain v where "(n, v) \<in> set (inv_given iv)" using c(4) [OF n] by blast
    moreover have "n \<in> {''location'', ''datacenter''}" using n paths by auto
    ultimately show ?thesis using str given_required by metis
  qed
  moreover obtain name where "inv_args iv = [name]" using c(3) paths by (auto simp: length_Suc_conv)
  ultimately show thesis using paths by (intro that [of name c]) auto
qed

text \<open>C37: whatever the command line, \<^verbatim>\<open>ssle-cli\<close> calls the registry only for \<^verbatim>\<open>node add\<close> and \<^verbatim>\<open>node creds\<close> with exactly
  one name, the datacenter and, for \<^verbatim>\<open>add\<close>, the location given on it; every other command line prints help
  or ends with an error, and then no file is changed and nothing is asked of the registry.\<close>
theorem command_line_checked:
  assumes "command_parser parse"
  shows "\<exists>root. command_tree = Inr root \<and>
    (case parse root argv of
       UsageError msg \<Rightarrow> execute parse dial add creds argv w e = (CliDied (Fatal msg), w, e)
     | ShowHelp \<Rightarrow> execute parse dial add creds argv w e = (CliDone, w, e)
     | Invoke iv \<Rightarrow> \<exists>name dc. inv_args iv = [name]
         \<and> map_of (rev (inv_given iv)) ''datacenter'' = Some (StringFlag dc) \<and> sub_datacenter (sub_flags_given iv) = dc
         \<and> (inv_path iv = [''node'', ''add'']
             \<and> map_of (rev (inv_given iv)) ''location'' = Some (StringFlag (sub_location (sub_flags_given iv)))
             \<and> execute parse dial add creds argv w e = run_add dial (flags_given iv) (sub_flags_given iv) name add w e
           \<or> inv_path iv = [''node'', ''creds'']
             \<and> execute parse dial add creds argv w e = run_creds dial (flags_given iv) (sub_flags_given iv) name creds w e))"
proof -
  obtain root where root: "command_tree = Inr root" using command_tree_value by blast
  show ?thesis
  proof (cases "parse root argv")
    case (Invoke iv)
    obtain c name where name: "inv_args iv = [name]"
      and paths: "inv_path iv = [''node'', ''add''] \<and> cmd_required c = [''location'', ''datacenter'']
        \<or> inv_path iv = [''node'', ''creds''] \<and> cmd_required c = [''datacenter'']"
      and given: "\<And>n. n \<in> set (cmd_required c) \<Longrightarrow> \<exists>x. map_of (rev (inv_given iv)) n = Some (StringFlag x)"
      by (rule invocation_complete [OF assms root Invoke]) (rule that)
    obtain dc where dc: "map_of (rev (inv_given iv)) ''datacenter'' = Some (StringFlag dc)" using given paths by force
    then have sub: "sub_datacenter (sub_flags_given iv) = dc" by (simp add: sub_flags_given_def given_string_def)
    have run: "execute parse dial add creds argv w e = run_invocation dial add creds iv w e"
      using Invoke by (simp add: execute_def root)
    from paths consider (add) "inv_path iv = [''node'', ''add'']" "cmd_required c = [''location'', ''datacenter'']"
      | (creds) "inv_path iv = [''node'', ''creds'']" by blast
    then show ?thesis
    proof cases
      case add
      then obtain l where l: "map_of (rev (inv_given iv)) ''location'' = Some (StringFlag l)" using given by force
      then have "sub_location (sub_flags_given iv) = l" by (simp add: sub_flags_given_def given_string_def)
      with add(1) l show ?thesis
        by (intro exI [of _ root] conjI root) (simp add: Invoke run run_invocation_def name dc sub)
    next
      case creds
      then show ?thesis
        by (intro exI [of _ root] conjI root) (simp add: Invoke run run_invocation_def name dc sub)
    qed
  qed (simp_all add: execute_def root)
qed

theorem command_line_checked_witness:
  "\<forall>dial add creds w (e :: 'e). \<exists>iv. execute parse_arguments dial add creds [''node'', ''add'', ''n2'', ''--location'', ''eu'', ''--datacenter=dc1''] w e =
      run_add dial (flags_given iv) (sub_flags_given iv) ''n2'' add w e
    \<and> flags_given iv = default_flags \<and> sub_flags_given iv = default_sub_flags ''eu'' ''dc1''"
proof (intro allI)
  fix dial add creds w and e :: 'e
  let ?argv = "[''node'', ''add'', ''n2'', ''--location'', ''eu'', ''--datacenter=dc1'']"
  let ?iv = "\<lparr>inv_path = [''node'', ''add''], inv_given = [(''location'', StringFlag ''eu''), (''datacenter'', StringFlag ''dc1'')],
    inv_args = [''n2'']\<rparr>"
  obtain root where root: "command_tree = Inr root"
    "case parse_arguments root ?argv of
       UsageError msg \<Rightarrow> execute parse_arguments dial add creds ?argv w e = (CliDied (Fatal msg), w, e)
     | ShowHelp \<Rightarrow> execute parse_arguments dial add creds ?argv w e = (CliDone, w, e)
     | Invoke iv \<Rightarrow> \<exists>name dc. inv_args iv = [name]
         \<and> map_of (rev (inv_given iv)) ''datacenter'' = Some (StringFlag dc) \<and> sub_datacenter (sub_flags_given iv) = dc
         \<and> (inv_path iv = [''node'', ''add'']
             \<and> map_of (rev (inv_given iv)) ''location'' = Some (StringFlag (sub_location (sub_flags_given iv)))
             \<and> execute parse_arguments dial add creds ?argv w e = run_add dial (flags_given iv) (sub_flags_given iv) name add w e
           \<or> inv_path iv = [''node'', ''creds'']
             \<and> execute parse_arguments dial add creds ?argv w e = run_creds dial (flags_given iv) (sub_flags_given iv) name creds w e)"
    using command_line_checked [OF reference_parser.command_parser_axioms, where argv = ?argv and dial = dial and add = add and creds = creds and w = w and e = e] by blast
  have "map_sum id (\<lambda>root. parse_arguments root ?argv) command_tree = Inr (Invoke ?iv)" by code_simp
  then have "parse_arguments root ?argv = Invoke ?iv" by (simp add: root(1))
  with root(2) have "execute parse_arguments dial add creds ?argv w e =
      run_add dial (flags_given ?iv) (sub_flags_given ?iv) ''n2'' add w e" by simp
  moreover have "flags_given ?iv = default_flags" by code_simp
  moreover have "sub_flags_given ?iv = default_sub_flags ''eu'' ''dc1''" by code_simp
  ultimately show "\<exists>iv. execute parse_arguments dial add creds ?argv w e =
      run_add dial (flags_given iv) (sub_flags_given iv) ''n2'' add w e
    \<and> flags_given iv = default_flags \<and> sub_flags_given iv = default_sub_flags ''eu'' ''dc1''" by blast
qed

end
