(* ===== verification/Environment.thy ===== *)
theory Environment
  imports GoLib
begin

text \<open>
  Configuration from environment variables. A struct's tags declare for each field its variable, its
  default and whether it is required; the library caarlos0/env reads them. Its contract for fields of
  type \<^verbatim>\<open>string\<close> is the locale \<open>env_parser\<close>. It leaves open what an empty variable means.
\<close>

record env_field =
  ef_name :: string
  ef_default :: "string option"
  ef_required :: bool

type_synonym environment = "string \<rightharpoonup> string"

text \<open>The tags in use: a default, a required variable, or neither. A field without a value is empty.\<close>

definition with_default :: "string \<Rightarrow> string \<Rightarrow> env_field" where
  "with_default name value = \<lparr>ef_name = name, ef_default = Some value, ef_required = False\<rparr>"

definition required :: "string \<Rightarrow> env_field" where
  "required name = \<lparr>ef_name = name, ef_default = None, ef_required = True\<rparr>"

definition optional :: "string \<Rightarrow> env_field" where
  "optional name = \<lparr>ef_name = name, ef_default = None, ef_required = False\<rparr>"

definition value_of :: "environment \<Rightarrow> string \<Rightarrow> string" where
  "value_of vals name = (case vals name of None \<Rightarrow> [] | Some v \<Rightarrow> v)"

locale env_parser =
  fixes parse :: "string \<Rightarrow> env_field list \<Rightarrow> environment \<Rightarrow> environment outcome"
  assumes parse_set: "parse p fs env = Inr vals \<Longrightarrow> distinct (map ef_name fs) \<Longrightarrow> f \<in> set fs \<Longrightarrow>
      env (p @ ef_name f) = Some v \<Longrightarrow> v \<noteq> [] \<Longrightarrow> vals (ef_name f) = Some v"
    and parse_unset: "parse p fs env = Inr vals \<Longrightarrow> distinct (map ef_name fs) \<Longrightarrow> f \<in> set fs \<Longrightarrow>
      env (p @ ef_name f) = None \<Longrightarrow> vals (ef_name f) = ef_default f"
    and parse_ok: "is_ok (parse p fs env) \<longleftrightarrow> (\<forall>f \<in> set fs. ef_required f \<longrightarrow> env (p @ ef_name f) \<noteq> None)"
begin

lemma parse_total:
  assumes "\<And>f. f \<in> set fs \<Longrightarrow> ef_required f \<Longrightarrow> env (p @ ef_name f) \<noteq> None"
  obtains vals where "parse p fs env = Inr vals"
  using assms parse_ok [of p fs env] by (cases "parse p fs env") auto

lemma parse_missing:
  assumes "f \<in> set fs" "ef_required f" "env (p @ ef_name f) = None"
  obtains err where "parse p fs env = Inl err"
  using assms parse_ok [of p fs env] by (cases "parse p fs env") auto

text \<open>What a field holds in the end; without a default that is the zero value.\<close>

lemma parse_field:
  assumes "parse p fs env = Inr vals" "distinct (map ef_name fs)" "f \<in> set fs" "env (p @ ef_name f) \<noteq> Some []"
  shows "vals (ef_name f) = (case env (p @ ef_name f) of Some v \<Rightarrow> Some v | None \<Rightarrow> ef_default f)"
  using assms parse_set parse_unset by (cases "env (p @ ef_name f)") auto

end

section \<open>A reader\<close>

definition field_value :: "string \<Rightarrow> environment \<Rightarrow> env_field \<Rightarrow> string option" where
  "field_value p env f =
     (case env (p @ ef_name f) of
        None \<Rightarrow> ef_default f
      | Some v \<Rightarrow> if v = [] \<and> ef_default f \<noteq> None then ef_default f else Some v)"

definition read_environment :: "string \<Rightarrow> env_field list \<Rightarrow> environment \<Rightarrow> environment outcome" where
  "read_environment p fs env =
     (if list_ex (\<lambda>f. ef_required f \<and> env (p @ ef_name f) = None) fs then Inl (Failure ''required environment variable is not set'')
      else Inr (\<lambda>name. case find (\<lambda>f. ef_name f = name) fs of None \<Rightarrow> None | Some f \<Rightarrow> field_value p env f))"

lemma find_field:
  "distinct (map ef_name fs) \<Longrightarrow> f \<in> set fs \<Longrightarrow> find (\<lambda>g. ef_name g = ef_name f) fs = Some f"
  by (induction fs) auto

interpretation reference_env: env_parser read_environment
  by unfold_locales
    (auto simp: read_environment_def find_field field_value_def list_ex_iff split: if_splits)

end
