(* ===== verification/Decoding.thy ===== *)
theory Decoding
  imports Base64 Utf8
begin

text \<open>
  The decoders of Go's standard library that agent/signature.go uses on what it downloads: \<^verbatim>\<open>encoding/hex\<close>,
  \<^verbatim>\<open>encoding/pem\<close>, and the conversion of a JSON number to \<^verbatim>\<open>float64\<close> and on to \<^verbatim>\<open>int64\<close>.
\<close>

section \<open>Hexadecimal\<close>

fun hex_decode :: "string \<Rightarrow> string option" where
  "hex_decode [] = Some []"
| "hex_decode [c] = None"
| "hex_decode (a # b # cs) =
     (case (hex_val a, hex_val b) of
        (Some x, Some y) \<Rightarrow> map_option ((#) (char_of (x * 16 + y))) (hex_decode cs)
      | _ \<Rightarrow> None)"

definition hex_encode :: "string \<Rightarrow> string" where
  "hex_encode s = concat (map (\<lambda>c. [hex_digit (of_char c div 16), hex_digit (of_char c mod 16)]) s)"

lemma hex_decode_encode: "hex_decode (hex_encode s) = Some s"
proof (induction s)
  case (Cons c s)
  have "(of_char c :: nat) < 256" by (rule nat_of_char_less_256)
  then have "of_char c div 16 < (16 :: nat)" by linarith
  then have "hex_val (hex_digit (of_char c div 16)) = Some (of_char c div 16)"
    "hex_val (hex_digit (of_char c mod 16)) = Some (of_char c mod 16)" by (intro hex_val_digit; simp)+
  moreover have "of_char c div 16 * 16 + of_char c mod 16 = (of_char c :: nat)" by simp
  ultimately show ?case using Cons by (simp add: hex_encode_def)
qed (simp add: hex_encode_def)

interpretation hex: codec "\<lambda>_. True" hex_encode hex_decode
  by unfold_locales (simp add: hex_decode_encode)

lemma b64_encode_ascii: "list_all (\<lambda>c. of_char c < (128 :: nat)) (b64_encode s)"
proof -
  have "b64_val c = None \<and> c \<noteq> b64_pad" if "\<not> of_char c < (128 :: nat)" for c
    using that by (auto simp: b64_val_def b64_pad_def Let_def)
  then show ?thesis using b64_encode_alphabet unfolding list_all_iff by blast
qed

lemma hex_encode_ascii: "list_all (\<lambda>c. of_char c < (128 :: nat)) (hex_encode s)"
proof -
  have d: "of_char (hex_digit n) < (128 :: nat)" if "n < 16" for n
    using that by (auto simp: hex_digit_def)
  have "of_char c div 16 < (16 :: nat)" for c using byte_bound [of c] by linarith
  then show ?thesis by (induction s) (simp_all add: hex_encode_def d)
qed

lemma to_valid_encoded [simp]: "to_valid (b64_encode s) = b64_encode s" "to_valid (hex_encode s) = hex_encode s"
  by (simp_all add: to_valid_id utf8_valid_ascii b64_encode_ascii hex_encode_ascii)

section \<open>PEM\<close>

definition pem_begin :: string where "pem_begin = ''-----BEGIN ''"
definition pem_end :: string where "pem_end = ''-----END ''"
definition pem_dashes :: string where "pem_dashes = ''-----''"

definition is_blank :: "char \<Rightarrow> bool" where
  "is_blank c \<longleftrightarrow> c = CHR '' '' \<or> c = CHR 0x09"

text \<open>The first line without its end and trailing blanks, and what follows it.\<close>

definition get_line :: "string \<Rightarrow> string \<times> string" where
  "get_line data =
     (let line = takeWhile (\<lambda>c. c \<noteq> CHR 0x0A) data;
          rest = drop (Suc (length line)) data;
          line = (if length line < length data \<and> line \<noteq> [] \<and> last line = CHR 0x0D then butlast line else line)
      in (rev (dropWhile is_blank (rev line)), rest))"

lemma length_get_line: "data \<noteq> [] \<Longrightarrow> length (snd (get_line data)) < length data"
  by (simp add: get_line_def Let_def)

text \<open>The header lines, if any, up to the first line without a colon; \<open>None\<close> when the text ends before it.\<close>

function skip_headers :: "bool \<Rightarrow> string \<Rightarrow> (bool \<times> string) option" where
  "skip_headers seen data =
     (if data = [] then None
      else if CHR '':'' \<in> set (fst (get_line data)) then skip_headers True (snd (get_line data))
      else Some (seen, data))"
  by pat_completeness auto
termination
  by (relation "measure (length \<circ> snd)") (auto simp: length_get_line)

declare skip_headers.simps [simp del]

text \<open>The body and what follows the dashes of the end line; without headers the end may come at once.\<close>

definition split_body :: "bool \<Rightarrow> string \<Rightarrow> (string \<times> string) option" where
  "split_body headers data =
     (if \<not> headers \<and> prefix pem_end data then Some ([], drop (length pem_end) data)
      else split_first (CHR 0x0A # pem_end) data)"

definition end_line_ok :: "string \<Rightarrow> string \<Rightarrow> bool" where
  "end_line_ok typ trailer \<longleftrightarrow>
     prefix (typ @ pem_dashes) trailer
     \<and> fst (get_line (drop (length typ + length pem_dashes) trailer)) = []"

text \<open>The first block's bytes. Each attempt starts behind a begin mark; \<open>n\<close> bounds the attempts, and as
  every one consumes a mark the length of the data suffices.\<close>

fun pem_blocks :: "nat \<Rightarrow> string \<Rightarrow> string option" where
  "pem_blocks 0 rest = None"
| "pem_blocks (Suc n) rest =
     (case (if prefix pem_begin rest then Some ([], drop (length pem_begin) rest)
            else split_first (CHR 0x0A # pem_begin) rest) of
        None \<Rightarrow> None
      | Some (_, rest) \<Rightarrow>
          (let (type_line, rest) = get_line rest; (typ, ended) = cut_suffix type_line pem_dashes in
           if \<not> ended then pem_blocks n rest
           else
             (case skip_headers False rest of
                None \<Rightarrow> None
              | Some (headers, rest) \<Rightarrow>
                  (case split_body headers rest of
                     None \<Rightarrow> pem_blocks n rest
                   | Some (body, trailer) \<Rightarrow>
                       if end_line_ok typ trailer then
                         (case b64_decode (filter (\<lambda>c. \<not> is_blank c) body) of
                            None \<Rightarrow> pem_blocks n rest
                          | Some bytes \<Rightarrow> Some bytes)
                       else pem_blocks n rest))))"

definition pem_decode :: "string \<Rightarrow> string option" where
  "pem_decode data = pem_blocks (Suc (length data)) data"

text \<open>What \<^verbatim>\<open>pem.Encode\<close> writes for a block without headers: lines of 64 digits.\<close>

function pem_lines :: "string \<Rightarrow> string" where
  "pem_lines s = (if s = [] then [] else take 64 s @ CHR 0x0A # pem_lines (drop 64 s))"
  by pat_completeness auto
termination by (relation "measure length") auto

declare pem_lines.simps [simp del]

definition pem_encode :: "string \<Rightarrow> string \<Rightarrow> string" where
  "pem_encode typ der =
     pem_begin @ typ @ pem_dashes @ CHR 0x0A # pem_lines (b64_encode der) @ pem_end @ typ @ pem_dashes @ [CHR 0x0A]"

lemma pem_lines_ends: "s \<noteq> [] \<Longrightarrow> \<exists>b. pem_lines s = b @ [CHR 0x0A]"
proof (induction s rule: pem_lines.induct)
  case (1 s)
  show ?case
  proof (cases "drop 64 s = []")
    case True
    with 1(2) show ?thesis by (subst pem_lines.simps) (simp add: pem_lines.simps [of "[]"])
  next
    case False
    with 1 obtain b where "pem_lines (drop 64 s) = b @ [CHR 0x0A]" by blast
    with 1(2) have "pem_lines s = (take 64 s @ CHR 0x0A # b) @ [CHR 0x0A]" by (subst pem_lines.simps) simp
    then show ?thesis by blast
  qed
qed

lemma set_pem_lines: "set (pem_lines s) \<subseteq> insert (CHR 0x0A) (set s)"
proof (induction s rule: pem_lines.induct)
  case (1 s)
  then show ?case by (subst pem_lines.simps) (auto dest: in_set_takeD in_set_dropD)
qed

lemma pem_lines_hd: "s \<noteq> [] \<Longrightarrow> \<exists>r. pem_lines s = hd s # r"
  by (subst pem_lines.simps) (cases s; simp)

lemma filter_pem_lines:
  "list_all (\<lambda>c. \<not> is_newline c) s \<Longrightarrow> filter (\<lambda>c. \<not> is_newline c) (pem_lines s) = s"
proof (induction s rule: pem_lines.induct)
  case (1 s)
  show ?case
  proof (cases "s = []")
    case True
    then show ?thesis by (simp add: pem_lines.simps)
  next
    case False
    have n: "\<forall>c \<in> set (take 64 s). \<not> is_newline c" "list_all (\<lambda>c. \<not> is_newline c) (drop 64 s)"
      using 1(2) by (auto simp: list_all_iff dest: in_set_takeD in_set_dropD)
    then have "filter (\<lambda>c. \<not> is_newline c) (take 64 s) = take 64 s" by (simp add: filter_id_conv)
    with 1(1) [OF False n(2)] False show ?thesis
      by (subst pem_lines.simps) (simp add: is_newline_def)
  qed
qed

lemma get_line_line:
  assumes "CHR 0x0A \<notin> set l" "l \<noteq> [] \<Longrightarrow> last l \<noteq> CHR 0x0D \<and> \<not> is_blank (last l)"
  shows "get_line (l @ CHR 0x0A # r) = (l, r)"
proof -
  have t: "takeWhile (\<lambda>c. c \<noteq> CHR 0x0A) (l @ CHR 0x0A # r) = l" using assms(1) by (auto simp: takeWhile_tail takeWhile_eq_all_conv)
  have "rev (dropWhile is_blank (rev l)) = l"
    using assms(2) by (cases l rule: rev_cases) simp_all
  then show ?thesis using assms(2) by (auto simp: get_line_def t Let_def)
qed

lemma set_get_line: "set (fst (get_line d)) \<subseteq> set d"
proof -
  have "set (rev (dropWhile is_blank (rev l))) \<subseteq> set l" for l by (auto dest: set_dropWhileD)
  then show ?thesis
    by (auto simp: get_line_def Let_def dest!: subsetD in_set_butlastD set_takeWhileD)
qed

lemma split_first_second:
  assumes "d \<notin> set p" "d \<noteq> c"
  shows "split_first (c # d # sep) (p @ c # d # sep @ s) = Some (p, s)"
  using assms
proof (induction p)
  case (Cons x p)
  then have "\<not> prefix (d # sep) (p @ c # d # sep @ s)" by (cases p) auto
  with Cons show ?case by simp
qed simp

lemma pem_alphabet:
  "CHR ''-'' \<notin> set (pem_lines (b64_encode s))" "CHR '':'' \<notin> set (pem_lines (b64_encode s))"
  "c \<in> set (pem_lines (b64_encode s)) \<Longrightarrow> \<not> is_blank c"
proof -
  have n: "c \<notin> set (b64_encode s)" if "b64_val c = None" "c \<noteq> b64_pad" for c
    using that by (rule b64_encode_alphabet)
  show "CHR ''-'' \<notin> set (pem_lines (b64_encode s))" "CHR '':'' \<notin> set (pem_lines (b64_encode s))"
    using set_pem_lines [of "b64_encode s"] n [of "CHR ''-''"] n [of "CHR '':''"]
    by (auto simp: b64_val_def b64_pad_def)
  show "\<not> is_blank c" if "c \<in> set (pem_lines (b64_encode s))"
    using that set_pem_lines [of "b64_encode s"] n [of "CHR '' ''"] n [of "CHR 0x09"]
    by (auto simp: b64_val_def b64_pad_def is_blank_def)
qed

lemma filter_not_blank: "(\<And>c. c \<in> set s \<Longrightarrow> \<not> is_blank c) \<Longrightarrow> filter (\<lambda>c. \<not> is_blank c) s = s"
  by (simp add: filter_id_conv)

text \<open>The body of an encoded block up to its end line, and the bytes it decodes to.\<close>

lemma split_body_encoded:
  obtains b where "split_body False (pem_lines (b64_encode der) @ pem_end @ t) = Some (b, t)"
    "b64_decode (filter (\<lambda>c. \<not> is_blank c) b) = Some der"
proof (cases "der = []")
  case True
  then show ?thesis using that [of "[]"] by (simp add: split_body_def pem_lines.simps b64_decode_def)
next
  case False
  let ?B = "pem_lines (b64_encode der)"
  have ne: "b64_encode der \<noteq> []" using False by (cases der rule: b64_encode.cases) simp_all
  then obtain b where b: "?B = b @ [CHR 0x0A]" using pem_lines_ends by blast
  obtain x r where x: "?B = x # r" "x \<noteq> CHR ''-''"
    using pem_lines_hd [OF ne] pem_alphabet(1) [of der] by fastforce
  have "CHR ''-'' \<notin> set b" using pem_alphabet(1) [of der] b by simp
  then have "split_first (CHR 0x0A # pem_end) (b @ CHR 0x0A # pem_end @ t) = Some (b, t)"
    using split_first_second [of "CHR ''-''" b "CHR 0x0A" "''----END ''" t] by (simp add: pem_end_def)
  then have "split_first (CHR 0x0A # pem_end) (?B @ pem_end @ t) = Some (b, t)" by (simp add: b)
  moreover have "\<not> prefix pem_end (?B @ pem_end @ t)" using x by (simp add: pem_end_def)
  ultimately have s: "split_body False (?B @ pem_end @ t) = Some (b, t)" by (simp add: split_body_def)
  have "filter (\<lambda>c. \<not> is_blank c) b = b" by (intro filter_not_blank pem_alphabet(3) [of _ der]) (simp add: b)
  moreover have "filter (\<lambda>c. \<not> is_newline c) b = b64_encode der"
    using filter_pem_lines [OF b64_encode_no_newline, of der] b by (simp add: is_newline_def)
  ultimately show ?thesis using that [OF s] by (simp add: b64_decode_def b64_quanta_encode)
qed

theorem pem_decode_encode:
  assumes "CHR 0x0A \<notin> set typ" "CHR '':'' \<notin> set typ"
  shows "pem_decode (pem_encode typ der) = Some der"
proof -
  let ?t = "typ @ pem_dashes @ [CHR 0x0A]"
  let ?r = "pem_lines (b64_encode der) @ pem_end @ ?t"
  obtain b where b: "split_body False ?r = Some (b, ?t)" "b64_decode (filter (\<lambda>c. \<not> is_blank c) b) = Some der"
    by (rule split_body_encoded)
  have line: "get_line (typ @ pem_dashes @ CHR 0x0A # ?r) = (typ @ pem_dashes, ?r)"
    using get_line_line [of "typ @ pem_dashes" ?r] assms(1) by (simp add: pem_dashes_def is_blank_def)
  have "CHR '':'' \<notin> set ?r" using assms(2) pem_alphabet(2) by (auto simp: pem_end_def pem_dashes_def)
  then have "CHR '':'' \<notin> set (fst (get_line ?r))" using set_get_line [of ?r] by blast
  then have skip: "skip_headers False ?r = Some (False, ?r)" by (subst skip_headers.simps) (simp add: pem_end_def)
  have ok: "end_line_ok typ ?t"
    using get_line_line [of "[]" "[]"] by (simp add: end_line_ok_def prefix_def)
  have "pem_blocks (Suc n) (pem_begin @ typ @ pem_dashes @ CHR 0x0A # ?r) = Some der" for n
    by (simp add: line skip b ok)
  then show ?thesis by (simp add: pem_decode_def pem_encode_def)
qed

section \<open>Numbers\<close>

text \<open>A JSON number \<open>-? digits (. digits)? (e digits)?\<close> as sign and fraction \<open>p / q\<close>.\<close>

definition exponent_of :: "string \<Rightarrow> int" where
  "exponent_of s =
     (case s of
        [] \<Rightarrow> 0
      | c # cs \<Rightarrow>
          if c = CHR ''-'' then - int (dec_val 0 cs)
          else if c = CHR ''+'' then int (dec_val 0 cs) else int (dec_val 0 (c # cs)))"

definition number_parts :: "string \<Rightarrow> bool \<times> nat \<times> nat" where
  "number_parts lit =
     (let neg = prefix ''-'' lit;
          body = (if neg then drop 1 lit else lit);
          mant = takeWhile (\<lambda>c. c \<noteq> CHR ''e'' \<and> c \<noteq> CHR ''E'') body;
          e = exponent_of (drop (Suc (length mant)) body);
          whole = takeWhile (\<lambda>c. c \<noteq> CHR ''.'') mant;
          frac = drop (Suc (length whole)) mant;
          m = dec_val 0 (whole @ frac);
          s = e - int (length frac)
      in if 0 \<le> s then (neg, m * 10 ^ nat s, 1) else (neg, m, 10 ^ nat (- s)))"

text \<open>Division to the nearest, ties to even.\<close>

definition div_even :: "nat \<Rightarrow> nat \<Rightarrow> nat" where
  "div_even a b =
     (let d = a div b; r = a mod b in
      if 2 * r < b then d else if b < 2 * r then d + 1 else if even d then d else d + 1)"

fun bit_count :: "nat \<Rightarrow> nat" where
  "bit_count n = (if n = 0 then 0 else Suc (bit_count (n div 2)))"

declare bit_count.simps [simp del]

text \<open>The integer part of the nearest \<^verbatim>\<open>float64\<close> to \<open>p / q\<close>: 53 significant bits.\<close>

definition float_trunc :: "nat \<Rightarrow> nat \<Rightarrow> nat" where
  "float_trunc p q =
     (let b = bit_count (p div q) in
      if b \<le> 53 then div_even (p * 2 ^ (53 - b)) q div 2 ^ (53 - b)
      else div_even p (q * 2 ^ (b - 53)) * 2 ^ (b - 53))"

text \<open>Numbers that round beyond the largest \<^verbatim>\<open>float64\<close>, which \<^verbatim>\<open>json.Unmarshal\<close> refuses.\<close>

definition float_overflows :: "string \<Rightarrow> bool" where
  "float_overflows lit = (let (_, p, q) = number_parts lit in (2 ^ 1024 - 2 ^ 970) * q \<le> p)"

text \<open>\<^verbatim>\<open>int64(float64)\<close>: out of range the result is the least value, as on amd64.\<close>

definition float_int64 :: "string \<Rightarrow> int" where
  "float_int64 lit =
     (let (neg, p, q) = number_parts lit; i = (if neg then - int (float_trunc p q) else int (float_trunc p q))
      in if - (2 ^ 63) \<le> i \<and> i < 2 ^ 63 then i else - (2 ^ 63))"

text \<open>A natural number up to \<open>2 ^ 53\<close> keeps its value; the next one does not.\<close>

lemma bit_count_le: "n < 2 ^ k \<Longrightarrow> bit_count n \<le> k"
proof (induction n arbitrary: k rule: bit_count.induct)
  case (1 n)
  show ?case
  proof (cases "n = 0")
    case True
    then show ?thesis by (simp add: bit_count.simps)
  next
    case False
    then obtain j where "k = Suc j" using 1(2) by (cases k) auto
    with 1 False have "bit_count (n div 2) \<le> j" by (intro 1(1)) auto
    with False \<open>k = Suc j\<close> show ?thesis by (subst bit_count.simps) simp
  qed
qed

lemma float_trunc_exact:
  assumes "n \<le> 2 ^ 53"
  shows "float_trunc n 1 = n"
proof (cases "bit_count n \<le> 53")
  case True
  then show ?thesis by (simp add: float_trunc_def div_even_def Let_def)
next
  case False
  then have "n = 2 ^ 53" using bit_count_le [of n 53] assms by linarith
  moreover have "bit_count n = 54" using bit_count_le [of n 54] assms False by simp
  ultimately show ?thesis by (simp add: float_trunc_def div_even_def Let_def)
qed

lemma number_parts_show_nat: "number_parts (show_nat n) = (False, n, 1)"
proof -
  have d: "c \<in> set (show_nat n) \<Longrightarrow> is_digit c" for c using show_nat_digits [of n] by (simp add: list_all_iff)
  have "CHR ''-'' \<notin> set (show_nat n)" by (rule digit_notin_show_nat) (simp add: is_digit_def)
  then have m: "\<not> prefix ''-'' (show_nat n)" by (cases "show_nat n") auto
  have t: "takeWhile (\<lambda>c. c \<noteq> CHR ''e'' \<and> c \<noteq> CHR ''E'') (show_nat n) = show_nat n"
    "takeWhile (\<lambda>c. c \<noteq> CHR ''.'') (show_nat n) = show_nat n"
    by (auto simp: takeWhile_eq_all_conv is_digit_def dest!: d)
  show ?thesis using m by (simp add: number_parts_def Let_def t exponent_of_def dec_val_show_nat)
qed

lemma float_int64_exact: "n \<le> 2 ^ 53 \<Longrightarrow> float_int64 (show_nat n) = int n"
  using float_trunc_exact [of n] by (simp add: float_int64_def number_parts_show_nat)

lemma float_int64_rounds: "float_int64 (show_nat (2 ^ 53 + 1)) = 2 ^ 53"
proof -
  have "bit_count (2 ^ 53 + 1) = 54" by (simp add: bit_count.simps)
  then have "float_trunc (2 ^ 53 + 1) 1 = 2 ^ 53" by (simp add: float_trunc_def div_even_def Let_def)
  then show ?thesis by (simp add: float_int64_def number_parts_show_nat)
qed

lemma float_overflows_small: "n \<le> 2 ^ 53 \<Longrightarrow> \<not> float_overflows (show_nat n)"
  by (simp add: float_overflows_def number_parts_show_nat)

end
