(* ===== verification/Signature.thy ===== *)
theory Signature
  imports Json Decoding
begin

text \<open>
  agent/signature.go: where the agent finds the signature of an image and what it asks the verifier
  to check. The container registry client, the parser of image manifests and the Sigstore library
  are parameters (\<open>remote\<close>); the walk over the referrers, the older layout that signs a layer of a
  tagged manifest, and the decoding of that layer's annotations are the code's own.
\<close>

section \<open>Calls that may fail\<close>

text \<open>\<open>attempt\<close> is a call of a library that returns an error or a value, with the text the code puts
  before the error; \<open>within\<close> is the same for the code's own functions, whose panics pass through.\<close>

definition and_then :: "'a outcome \<Rightarrow> ('a \<Rightarrow> 'b outcome) \<Rightarrow> 'b outcome" where
  "and_then r k = (case r of Inl err \<Rightarrow> Inl err | Inr x \<Rightarrow> k x)"

definition attempt :: "string \<Rightarrow> string + 'a \<Rightarrow> 'a outcome" where
  "attempt ctx r = (case r of Inl e \<Rightarrow> Inl (Failure (ctx @ e)) | Inr x \<Rightarrow> Inr x)"

fun wrap_fault :: "string \<Rightarrow> fault \<Rightarrow> fault" where
  "wrap_fault ctx (Failure e) = Failure (ctx @ e)"
| "wrap_fault ctx f = f"

definition within :: "string \<Rightarrow> 'a outcome \<Rightarrow> 'a outcome" where
  "within ctx r = (case r of Inl err \<Rightarrow> Inl (wrap_fault ctx err) | Inr x \<Rightarrow> Inr x)"

definition present :: "string \<Rightarrow> 'a option \<Rightarrow> 'a outcome" where
  "present msg v = (case v of None \<Rightarrow> Inl (Failure msg) | Some x \<Rightarrow> Inr x)"

lemma and_then_simps [simp]:
  "and_then (Inr x) k = k x" "and_then (Inl err) k = Inl err"
  by (simp_all add: and_then_def)

lemma attempt_simps [simp]:
  "attempt ctx (Inr x) = Inr x" "attempt ctx (Inl e) = Inl (Failure (ctx @ e))"
  by (simp_all add: attempt_def)

lemma within_simps [simp]:
  "within ctx (Inr x) = Inr x" "within ctx (Inl err) = Inl (wrap_fault ctx err)"
  by (simp_all add: within_def)

lemma present_simps [simp]:
  "present msg (Some x) = Inr x" "present msg None = Inl (Failure msg)"
  by (simp_all add: present_def)

lemma and_then_ok: "and_then r k = Inr y \<longleftrightarrow> (\<exists>x. r = Inr x \<and> k x = Inr y)"
  by (cases r) simp_all

lemma attempt_ok: "attempt ctx r = Inr y \<longleftrightarrow> r = Inr y"
  by (cases r) simp_all

lemma within_ok: "within ctx r = Inr y \<longleftrightarrow> r = Inr y"
  by (cases r) simp_all

lemma present_ok: "present msg v = Inr y \<longleftrightarrow> v = Some y"
  by (cases v) simp_all

lemma head_ok: "(case xs of [] \<Rightarrow> Inl err | x # ys \<Rightarrow> f x ys) = Inr z \<longleftrightarrow> (\<exists>x ys. xs = x # ys \<and> f x ys = Inr z)"
  by (cases xs) simp_all

lemmas calls_ok = and_then_ok attempt_ok within_ok present_ok head_ok

section \<open>Images, descriptors and bundles\<close>

record image_info =
  im_repo_tags :: "string list"
  im_repo_digests :: "string list"

record v1_hash =
  hash_algorithm :: string
  hash_hex :: string

record descriptor =
  desc_media_type :: string
  desc_digest :: v1_hash
  desc_annotations :: "string \<rightharpoonup> string"

text \<open>\<^verbatim>\<open>name.Digest\<close>: the repository (\<^verbatim>\<open>Context()\<close>) and the identifier behind the at sign.\<close>

record digest_ref =
  ref_context :: string
  ref_identifier :: string

record tlog_entry =
  tle_log_index :: int
  tle_log_id :: string
  tle_kind :: string
  tle_version :: string
  tle_integrated_time :: int
  tle_set :: string
  tle_body :: string

record verification_material =
  vm_certificates :: "string list"
  vm_tlog_entries :: "tlog_entry list"
  vm_timestamps :: "string list option"

datatype hash_alg = SHA2_256

record message_signature =
  ms_algorithm :: hash_alg
  ms_digest :: string
  ms_signature :: string

record proto_bundle =
  pb_media_type :: string
  pb_material :: verification_material
  pb_signature :: message_signature

text \<open>A \<^verbatim>\<open>bundle.Bundle\<close> is either decoded from the content of a layer or built from a protobuf.\<close>

datatype sig_bundle = DecodedBundle string | BuiltBundle proto_bundle

text \<open>\<^verbatim>\<open>verify.CertificateIdentity\<close> as \<^verbatim>\<open>NewShortCertificateIdentity(issuer, "", "", san)\<close> makes it.\<close>

record cert_identity =
  cid_issuer :: string
  cid_san :: string

text \<open>
  The third-party calls, each with an error text or a value. A value of which the code only calls
  one method (an image index, a layer) is what that method returns. \<open>rm_verify\<close> gets the bundle,
  the artifact digest of the policy and the identity, and returns the name in the certificate.
\<close>

record remote =
  rm_new_digest :: "string \<Rightarrow> string + digest_ref"
  rm_new_hash :: "string \<Rightarrow> string + v1_hash"
  rm_hash_text :: "v1_hash \<Rightarrow> string"
  rm_referrers :: "digest_ref \<Rightarrow> string + (string + v1_hash list)"
  rm_get :: "digest_ref \<Rightarrow> string + string"
  rm_tag_manifest :: "string \<Rightarrow> string \<Rightarrow> string + string"
  rm_parse_manifest :: "string \<Rightarrow> string + descriptor list"
  rm_layer :: "digest_ref \<Rightarrow> string + (string + string)"
  rm_decode_bundle :: "string \<Rightarrow> string + unit"
  rm_media_type :: "string \<Rightarrow> string + string"
  rm_new_bundle :: "proto_bundle \<Rightarrow> string + unit"
  rm_verify :: "sig_bundle \<Rightarrow> string \<Rightarrow> cert_identity \<Rightarrow> string + string"

definition annotation :: "descriptor \<Rightarrow> string \<Rightarrow> string" where
  "annotation l k = (case desc_annotations l k of None \<Rightarrow> [] | Some v \<Rightarrow> v)"

section \<open>Annotations as JSON objects\<close>

text \<open>\<^verbatim>\<open>json.Unmarshal\<close> into a map of any values: into the members that are there already, the last of
  equal names wins, \<^verbatim>\<open>null\<close> empties the map, and a number beyond the range of \<^verbatim>\<open>float64\<close> is an error
  wherever it stands. The scanner stops at 10000 nested values.\<close>

fun json_depth :: "json \<Rightarrow> nat"
and elems_depth :: "json list \<Rightarrow> nat"
and members_depth :: "(string \<times> json) list \<Rightarrow> nat" where
  "json_depth (JArr vs) = Suc (elems_depth vs)"
| "json_depth (JObj ms) = Suc (members_depth ms)"
| "json_depth v = 0"
| "elems_depth [] = 0"
| "elems_depth (v # vs) = max (json_depth v) (elems_depth vs)"
| "members_depth [] = 0"
| "members_depth ((k, v) # ms) = max (json_depth v) (members_depth ms)"

fun has_overflow :: "json \<Rightarrow> bool"
and elems_overflow :: "json list \<Rightarrow> bool"
and members_overflow :: "(string \<times> json) list \<Rightarrow> bool" where
  "has_overflow (JNum lit) = float_overflows lit"
| "has_overflow (JArr vs) = elems_overflow vs"
| "has_overflow (JObj ms) = members_overflow ms"
| "has_overflow v = False"
| "elems_overflow [] = False"
| "elems_overflow (v # vs) = (has_overflow v \<or> elems_overflow vs)"
| "members_overflow [] = False"
| "members_overflow ((k, v) # ms) = (has_overflow v \<or> members_overflow ms)"

definition object_map :: "(string \<times> json) list \<Rightarrow> string \<rightharpoonup> json" where
  "object_map ms = map_of (rev ms)"

definition unmarshal_map :: "string \<Rightarrow> (string \<rightharpoonup> json) \<Rightarrow> string + (string \<rightharpoonup> json)" where
  "unmarshal_map text m =
     (case json_parse text of
        None \<Rightarrow> Inl ''invalid JSON text''
      | Some v \<Rightarrow>
          if 10000 < json_depth v then Inl ''exceeded max depth''
          else
            (case v of
               JNull \<Rightarrow> Inr Map.empty
             | JObj ms \<Rightarrow> if members_overflow ms then Inl ''cannot unmarshal number'' else Inr (m ++ object_map ms)
             | _ \<Rightarrow> Inl ''cannot unmarshal into map''))"

text \<open>The checked assertions to \<^verbatim>\<open>float64\<close> and \<^verbatim>\<open>string\<close>, and the two unchecked ones, which panic.\<close>

definition float_field :: "(string \<rightharpoonup> json) \<Rightarrow> string \<Rightarrow> string option" where
  "float_field m k = (case m k of Some (JNum lit) \<Rightarrow> Some lit | _ \<Rightarrow> None)"

definition string_field :: "(string \<rightharpoonup> json) \<Rightarrow> string \<Rightarrow> string option" where
  "string_field m k = (case m k of Some (JStr s) \<Rightarrow> Some s | _ \<Rightarrow> None)"

definition must_object :: "(string \<rightharpoonup> json) \<Rightarrow> string \<Rightarrow> (string \<rightharpoonup> json) outcome" where
  "must_object m k =
     (case m k of Some (JObj ms) \<Rightarrow> Inr (object_map ms) | _ \<Rightarrow> Inl (Panic ''interface conversion''))"

definition must_string :: "(string \<rightharpoonup> json) \<Rightarrow> string \<Rightarrow> string outcome" where
  "must_string m k = (case string_field m k of Some s \<Rightarrow> Inr s | None \<Rightarrow> Inl (Panic ''interface conversion''))"

definition or_error :: "string \<Rightarrow> 'a option \<Rightarrow> string + 'a" where
  "or_error msg v = (case v of None \<Rightarrow> Inl msg | Some x \<Rightarrow> Inr x)"

lemma or_error_simps [simp]: "or_error msg (Some x) = Inr x" "or_error msg None = Inl msg"
  by (simp_all add: or_error_def)

lemma or_error_ok [simp]: "or_error msg v = Inr y \<longleftrightarrow> v = Some y"
  by (cases v) simp_all

definition hex_bytes :: "string \<Rightarrow> string + string" where
  "hex_bytes s = or_error ''encoding/hex: invalid text'' (hex_decode s)"

definition b64_bytes :: "string \<Rightarrow> string + string" where
  "b64_bytes s = or_error ''illegal base64 data'' (b64_decode s)"

section \<open>Verification material\<close>

definition tlog_entries :: "descriptor \<Rightarrow> tlog_entry list outcome" where
  "tlog_entries layer =
     and_then (attempt ''error unmarshaling json: '' (unmarshal_map (annotation layer ''dev.sigstore.cosign/bundle'') Map.empty)) (\<lambda>data.
     and_then (must_object data ''Payload'') (\<lambda>payload.
     and_then (present ''error getting logIndex'' (float_field payload ''logIndex'')) (\<lambda>log_index.
     and_then (present ''error getting logID'' (string_field payload ''logID'')) (\<lambda>li.
     and_then (attempt ''error decoding logID: '' (hex_bytes li)) (\<lambda>log_id.
     and_then (present ''error getting integratedTime'' (float_field payload ''integratedTime'')) (\<lambda>integrated_time.
     and_then (present ''error getting SignedEntryTimestamp'' (string_field data ''SignedEntryTimestamp'')) (\<lambda>set.
     and_then (attempt ''error decoding signedEntryTimestamp: '' (b64_bytes set)) (\<lambda>signed_entry_timestamp.
     and_then (present ''error getting body'' (string_field payload ''body'')) (\<lambda>body.
     and_then (attempt ''error decoding body: '' (b64_bytes body)) (\<lambda>body_bytes.
     and_then (attempt ''error unmarshaling json: '' (unmarshal_map body_bytes data)) (\<lambda>data.
     and_then (must_string data ''apiVersion'') (\<lambda>api_version.
     and_then (must_string data ''kind'') (\<lambda>kind.
     Inr [\<lparr>tle_log_index = float_int64 log_index, tle_log_id = log_id, tle_kind = kind, tle_version = api_version,
       tle_integrated_time = float_int64 integrated_time, tle_set = signed_entry_timestamp,
       tle_body = body_bytes\<rparr>])))))))))))))"

text \<open>\<^verbatim>\<open>json.Unmarshal\<close> into a map of strings: \<^verbatim>\<open>null\<close> members leave the empty string.\<close>

fun string_members :: "(string \<times> json) list \<Rightarrow> string + (string \<times> string) list" where
  "string_members [] = Inr []"
| "string_members ((k, v) # ms) =
     (case (v, string_members ms) of
        (JStr s, Inr ps) \<Rightarrow> Inr ((k, s) # ps)
      | (JNull, Inr ps) \<Rightarrow> Inr ((k, []) # ps)
      | _ \<Rightarrow> Inl ''cannot unmarshal into string'')"

definition unmarshal_strings :: "string \<Rightarrow> string + (string \<rightharpoonup> string)" where
  "unmarshal_strings text =
     (case json_parse text of
        None \<Rightarrow> Inl ''invalid JSON text''
      | Some v \<Rightarrow>
          if 10000 < json_depth v then Inl ''exceeded max depth''
          else
            (case v of
               JNull \<Rightarrow> Inr Map.empty
             | JObj ms \<Rightarrow> map_sum id (\<lambda>ps. map_of (rev ps)) (string_members ms)
             | _ \<Rightarrow> Inl ''cannot unmarshal into map''))"

definition timestamp_entries :: "descriptor \<Rightarrow> string list outcome" where
  "timestamp_entries layer =
     and_then (attempt ''error unmarshaling JSON blob into key/val map: ''
       (unmarshal_strings (annotation layer ''dev.sigstore.cosign/rfc3161timestamp''))) (\<lambda>pairs.
     and_then (present ''error getting SignedRFC3161Timestamp from key/value pairs'' (pairs ''SignedRFC3161Timestamp'')) (\<lambda>ts.
     and_then (attempt ''error decoding base64 encoded timestamp: '' (b64_bytes ts)) (\<lambda>der. Inr [der])))"

definition certificate_chain :: "descriptor \<Rightarrow> string list outcome" where
  "certificate_chain layer =
     and_then (present ''failed to decode PEM block'' (pem_decode (annotation layer ''dev.sigstore.cosign/certificate''))) (\<lambda>der.
     Inr [der])"

definition bundle_verification_material :: "descriptor \<Rightarrow> bool \<Rightarrow> bool \<Rightarrow> verification_material outcome" where
  "bundle_verification_material layer has_tlog has_timestamp =
     and_then (within ''error getting signing certificate: '' (certificate_chain layer)) (\<lambda>chain.
     and_then (if has_tlog then within ''error getting tlog entries: '' (tlog_entries layer) else Inr []) (\<lambda>entries.
     and_then (if has_timestamp then within ''error getting timestamp entries: '' (map_sum id Some (timestamp_entries layer)) else Inr None) (\<lambda>stamps.
     Inr \<lparr>vm_certificates = chain, vm_tlog_entries = entries, vm_timestamps = stamps\<rparr>)))"

definition bundle_msg_signature :: "descriptor \<Rightarrow> message_signature outcome" where
  "bundle_msg_signature layer =
     (if hash_algorithm (desc_digest layer) \<noteq> ''sha256''
      then Inl (Failure (''unknown digest algorithm: '' @ hash_algorithm (desc_digest layer)))
      else
        and_then (attempt ''error decoding digest: '' (hex_bytes (hash_hex (desc_digest layer)))) (\<lambda>digest.
        and_then (attempt ''error decoding manSig: '' (b64_bytes (annotation layer ''dev.cosignproject.cosign/signature''))) (\<lambda>sig.
        Inr \<lparr>ms_algorithm = SHA2_256, ms_digest = digest, ms_signature = sig\<rparr>)))"

section \<open>Finding the bundle\<close>

text \<open>The error of \<^verbatim>\<open>v1.NewHash\<close> is overwritten or dropped; the hash is then empty.\<close>

definition hash_or_zero :: "remote \<Rightarrow> string \<Rightarrow> v1_hash" where
  "hash_or_zero R s =
     (case rm_new_hash R s of Inl _ \<Rightarrow> \<lparr>hash_algorithm = [], hash_hex = []\<rparr> | Inr h \<Rightarrow> h)"

definition at_digest :: "remote \<Rightarrow> digest_ref \<Rightarrow> v1_hash \<Rightarrow> digest_ref" where
  "at_digest R ref h = ref\<lparr>ref_identifier := rm_hash_text R h\<rparr>"

definition bundle_media_prefix :: string where
  "bundle_media_prefix = ''application/vnd.dev.sigstore.bundle''"

definition simple_signing_media :: string where
  "simple_signing_media = ''application/vnd.dev.cosign.simplesigning.v1+json''"

text \<open>The loop over the referrers: the first one with a bundle decides, and one that cannot be read or
  has no layers ends the search with an error.\<close>

fun referrer_bundle :: "remote \<Rightarrow> digest_ref \<Rightarrow> v1_hash list \<Rightarrow> (sig_bundle \<times> string) option outcome" where
  "referrer_bundle R ref [] = Inr None"
| "referrer_bundle R ref (v # vs) =
     and_then (attempt ''error downloading signature manifest: '' (rm_get R (at_digest R ref v))) (\<lambda>mf.
     and_then (attempt ''error parsing signature manifest: '' (rm_parse_manifest R mf)) (\<lambda>layers.
     (case layers of
        [] \<Rightarrow> Inl (Failure ''signature manifest contains no layers'')
      | layer # _ \<Rightarrow>
          if \<not> prefix bundle_media_prefix (desc_media_type layer) then referrer_bundle R ref vs
          else
            and_then (attempt ''error downloading signature layer: '' (rm_layer R (at_digest R ref (desc_digest layer)))) (\<lambda>contents.
            and_then (attempt ''error opening layer contents reader: '' contents) (\<lambda>text.
            and_then (attempt ''error decoding bundle: '' (rm_decode_bundle R text)) (\<lambda>_.
            Inr (Some (DecodedBundle text, hash_hex (hash_or_zero R (ref_identifier ref))))))))))"

definition simple_signing_layer :: "remote \<Rightarrow> digest_ref \<Rightarrow> descriptor outcome" where
  "simple_signing_layer R ref =
     (let h = hash_or_zero R (ref_identifier ref);
          sig_tag = hash_algorithm h @ ''-'' @ hash_hex h @ ''.sig''
      in and_then (attempt ''error getting signature manifest: '' (rm_tag_manifest R (ref_context ref) sig_tag)) (\<lambda>mf.
         and_then (attempt ''error parsing signature manifest: '' (rm_parse_manifest R mf)) (\<lambda>layers.
         (case layers of
            [] \<Rightarrow> Inl (Failure ''no suitable layers found in signature manifest'')
          | layer # _ \<Rightarrow>
              if desc_media_type layer \<noteq> simple_signing_media
              then Inl (Failure ''no suitable layers found in signature manifest'') else Inr layer))))"

definition layer_bundle :: "remote \<Rightarrow> descriptor \<Rightarrow> bool \<Rightarrow> bool \<Rightarrow> (sig_bundle \<times> string) outcome" where
  "layer_bundle R layer has_tlog has_timestamp =
     and_then (within ''error getting verification material: '' (bundle_verification_material layer has_tlog has_timestamp)) (\<lambda>material.
     and_then (within ''error getting message signature: '' (bundle_msg_signature layer)) (\<lambda>signature.
     and_then (attempt ''error getting bundle media type: '' (rm_media_type R ''0.1'')) (\<lambda>media.
     let pb = \<lparr>pb_media_type = media, pb_material = material, pb_signature = signature\<rparr>
     in and_then (attempt ''error creating bundle: '' (rm_new_bundle R pb)) (\<lambda>_.
        Inr (BuiltBundle pb, hash_hex (desc_digest layer))))))"

definition local_image_err :: fault where
  [simp]: "local_image_err = Failure ''local image cannot be verified''"

definition bundle_from_image :: "remote \<Rightarrow> image_info \<Rightarrow> bool \<Rightarrow> bool \<Rightarrow> (sig_bundle \<times> string) outcome" where
  "bundle_from_image R img has_tlog has_timestamp =
     (case im_repo_digests img of
        [] \<Rightarrow> Inl local_image_err
      | d # _ \<Rightarrow>
          and_then (attempt [] (rm_new_digest R d)) (\<lambda>ref.
          and_then (attempt [] (rm_referrers R ref)) (\<lambda>index.
          and_then (attempt [] index) (\<lambda>manifests.
          and_then (referrer_bundle R ref manifests) (\<lambda>found.
          (case found of
             Some r \<Rightarrow> Inr r
           | None \<Rightarrow>
               and_then (within ''error getting simple signing layer: '' (simple_signing_layer R ref)) (\<lambda>layer.
               layer_bundle R layer has_tlog has_timestamp)))))))"

definition verify_bundle :: "remote \<Rightarrow> cert_identity \<Rightarrow> sig_bundle \<times> string \<Rightarrow> string outcome" where
  "verify_bundle R cid b =
     and_then (attempt [] (hex_bytes (snd b))) (\<lambda>digest. attempt [] (rm_verify R (fst b) digest cid))"

definition verify_image_signature :: "remote \<Rightarrow> cert_identity \<Rightarrow> image_info \<Rightarrow> string outcome" where
  "verify_image_signature R cid img = and_then (bundle_from_image R img True False) (verify_bundle R cid)"

section \<open>What a verdict rests on\<close>

lemma referrer_bundle_found:
  "referrer_bundle R ref vs = Inr (Some r) \<Longrightarrow>
    \<exists>v \<in> set vs. \<exists>mf layer layers text. rm_get R (at_digest R ref v) = Inr mf \<and> rm_parse_manifest R mf = Inr (layer # layers)
      \<and> prefix bundle_media_prefix (desc_media_type layer) \<and> rm_layer R (at_digest R ref (desc_digest layer)) = Inr (Inr text)
      \<and> rm_decode_bundle R text = Inr () \<and> r = (DecodedBundle text, hash_hex (hash_or_zero R (ref_identifier ref)))"
proof (induction vs)
  case (Cons v vs)
  then show ?case by (auto simp: calls_ok split: list.splits if_splits)
qed simp

lemma layer_bundle_ok:
  "layer_bundle R layer t s = Inr r \<Longrightarrow>
    \<exists>pb. r = (BuiltBundle pb, hash_hex (desc_digest layer)) \<and> hex_decode (hash_hex (desc_digest layer)) = Some (ms_digest (pb_signature pb))"
  by (auto simp: layer_bundle_def calls_ok Let_def bundle_msg_signature_def hex_bytes_def split: if_splits)

lemma simple_signing_layer_ok:
  "simple_signing_layer R ref = Inr layer \<Longrightarrow> desc_media_type layer = simple_signing_media"
  by (auto simp: simple_signing_layer_def calls_ok Let_def split: if_splits)

lemma verify_bundle_ok:
  "verify_bundle R cid (b, h) = Inr san \<longleftrightarrow> (\<exists>bytes. hex_decode h = Some bytes \<and> rm_verify R b bytes cid = Inr san)"
  by (auto simp: verify_bundle_def calls_ok hex_bytes_def)

text \<open>C14: an image is accepted only on a verdict of the verifier for the identity that was asked for, about
  one of two digests. Either the bundle is the first layer, of a bundle's media type, of the manifest of one of the
  referrers of the image's first repository digest, and then the digest is the image's own; or, when none of the referrers is a bundle, the bundle
  built from the simple signing layer behind the image's signature tag, and then the digest is that
  of the layer, which is also the digest inside the bundle.\<close>
theorem verdict_origin:
  assumes "verify_image_signature R cid img = Inr san"
  shows "\<exists>d ds ref vs. im_repo_digests img = d # ds \<and> rm_new_digest R d = Inr ref \<and> rm_referrers R ref = Inr (Inr vs)
    \<and> ((\<exists>v \<in> set vs. \<exists>mf layer layers text bytes. rm_get R (at_digest R ref v) = Inr mf
          \<and> rm_parse_manifest R mf = Inr (layer # layers) \<and> prefix bundle_media_prefix (desc_media_type layer)
          \<and> rm_layer R (at_digest R ref (desc_digest layer)) = Inr (Inr text) \<and> rm_decode_bundle R text = Inr ()
          \<and> hex_decode (hash_hex (hash_or_zero R (ref_identifier ref))) = Some bytes
          \<and> rm_verify R (DecodedBundle text) bytes cid = Inr san)
      \<or> (referrer_bundle R ref vs = Inr None
          \<and> (\<exists>layer pb. simple_signing_layer R ref = Inr layer \<and> desc_media_type layer = simple_signing_media
              \<and> hex_decode (hash_hex (desc_digest layer)) = Some (ms_digest (pb_signature pb))
              \<and> rm_verify R (BuiltBundle pb) (ms_digest (pb_signature pb)) cid = Inr san)))"
proof -
  from assms obtain b h where b: "bundle_from_image R img True False = Inr (b, h)" "verify_bundle R cid (b, h) = Inr san"
    by (auto simp: verify_image_signature_def calls_ok)
  then obtain d ds ref vs found where f: "im_repo_digests img = d # ds" "rm_new_digest R d = Inr ref"
    "rm_referrers R ref = Inr (Inr vs)" "referrer_bundle R ref vs = Inr found"
    and rest: "(case found of Some r \<Rightarrow> Inr r | None \<Rightarrow>
       and_then (within ''error getting simple signing layer: '' (simple_signing_layer R ref)) (\<lambda>layer.
         layer_bundle R layer True False)) = Inr (b, h)"
    by (auto simp: bundle_from_image_def calls_ok)
  show ?thesis
  proof (cases found)
    case (Some r)
    then show ?thesis using f rest b(2) referrer_bundle_found [of R ref vs r]
      by (auto simp: verify_bundle_ok) blast
  next
    case None
    then obtain layer where layer: "simple_signing_layer R ref = Inr layer" "layer_bundle R layer True False = Inr (b, h)"
      using rest by (auto simp: calls_ok)
    then show ?thesis
      using f None b(2) layer_bundle_ok [OF layer(2)] simple_signing_layer_ok [OF layer(1)] by (auto simp: verify_bundle_ok)
  qed
qed

section \<open>What cosign attaches\<close>

text \<open>The annotations of a simple signing layer as cosign writes them: the certificate as PEM, the entry of
  the transparency log as JSON and the signature in base64.\<close>

definition rekor_bundle :: "nat \<Rightarrow> nat \<Rightarrow> tlog_entry \<Rightarrow> json" where
  "rekor_bundle index time e = JObj
     [(''SignedEntryTimestamp'', JStr (b64_encode (tle_set e))),
      (''Payload'', JObj
        [(''body'', JStr (b64_encode (tle_body e))), (''integratedTime'', JNum (show_int (int time))),
         (''logIndex'', JNum (show_int (int index))), (''logID'', JStr (hex_encode (tle_log_id e)))])]"

definition cosign_layer :: "string \<Rightarrow> string \<Rightarrow> nat \<Rightarrow> nat \<Rightarrow> tlog_entry \<Rightarrow> string \<Rightarrow> descriptor" where
  "cosign_layer digest der index time e sig =
     \<lparr>desc_media_type = simple_signing_media,
      desc_digest = \<lparr>hash_algorithm = ''sha256'', hash_hex = hex_encode digest\<rparr>,
      desc_annotations =
        [''dev.sigstore.cosign/certificate'' \<mapsto> pem_encode ''CERTIFICATE'' der,
         ''dev.sigstore.cosign/bundle'' \<mapsto> json_print (rekor_bundle index time e),
         ''dev.cosignproject.cosign/signature'' \<mapsto> b64_encode sig]\<rparr>"

text \<open>The body of an entry is an object that names its kind and version.\<close>

definition rekor_body :: "tlog_entry \<Rightarrow> bool" where
  "rekor_body e \<longleftrightarrow>
     (case json_parse (tle_body e) of
        Some (JObj ms) \<Rightarrow> json_depth (JObj ms) \<le> 10000 \<and> \<not> members_overflow ms
          \<and> object_map ms ''apiVersion'' = Some (JStr (tle_version e)) \<and> object_map ms ''kind'' = Some (JStr (tle_kind e))
      | _ \<Rightarrow> False)"

lemma to_valid_names:
  "to_valid ''SignedEntryTimestamp'' = ''SignedEntryTimestamp''" "to_valid ''Payload'' = ''Payload''"
  "to_valid ''body'' = ''body''" "to_valid ''integratedTime'' = ''integratedTime''"
  "to_valid ''logIndex'' = ''logIndex''" "to_valid ''logID'' = ''logID''"
  by (simp_all add: to_valid_id utf8_valid_ascii)

lemma rekor_bundle_parses: "json_parse (json_print (rekor_bundle index time e)) = Some (rekor_bundle index time e)"
proof -
  have "nums_ok (rekor_bundle index time e)" by (auto simp: rekor_bundle_def)
  moreover have "json_clean (rekor_bundle index time e) = rekor_bundle index time e"
    by (simp add: rekor_bundle_def to_valid_names)
  ultimately show ?thesis using json_parse_print by metis
qed

lemma show_int_nat: "show_int (int n) = show_nat n"
  by (simp add: show_int_def)

lemma cosign_tlog_entries:
  assumes "index \<le> 2 ^ 53" "time \<le> 2 ^ 53" "rekor_body e"
    and "tle_log_index e = int index" "tle_integrated_time e = int time"
  shows "tlog_entries (cosign_layer digest der index time e sig) = Inr [e]"
proof -
  obtain ms where ms: "json_parse (tle_body e) = Some (JObj ms)" "json_depth (JObj ms) \<le> 10000" "\<not> members_overflow ms"
    "object_map ms ''apiVersion'' = Some (JStr (tle_version e))" "object_map ms ''kind'' = Some (JStr (tle_kind e))"
    using assms(3) by (auto simp: rekor_body_def split: option.splits json.splits)
  let ?payload = "object_map [(''body'', JStr (b64_encode (tle_body e))), (''integratedTime'', JNum (show_nat time)),
    (''logIndex'', JNum (show_nat index)), (''logID'', JStr (hex_encode (tle_log_id e)))]"
  obtain data where u: "unmarshal_map (json_print (rekor_bundle index time e)) Map.empty = Inr data"
    "must_object data ''Payload'' = Inr ?payload"
    "string_field data ''SignedEntryTimestamp'' = Some (b64_encode (tle_set e))"
    using float_overflows_small [OF assms(1)] float_overflows_small [OF assms(2)]
    by (simp add: unmarshal_map_def rekor_bundle_parses)
      (simp add: rekor_bundle_def show_int_nat must_object_def string_field_def object_map_def)
  have body: "unmarshal_map (tle_body e) data = Inr (data ++ object_map ms)" using ms by (simp add: unmarshal_map_def)
  have kv: "must_string (data ++ object_map ms) ''apiVersion'' = Inr (tle_version e)"
    "must_string (data ++ object_map ms) ''kind'' = Inr (tle_kind e)"
    using ms by (simp_all add: must_string_def string_field_def map_add_Some_iff map_add_def)
  have p: "float_field ?payload ''logIndex'' = Some (show_nat index)"
    "float_field ?payload ''integratedTime'' = Some (show_nat time)"
    "string_field ?payload ''logID'' = Some (hex_encode (tle_log_id e))"
    "string_field ?payload ''body'' = Some (b64_encode (tle_body e))"
    by (simp_all add: float_field_def string_field_def object_map_def)
  have a: "annotation (cosign_layer digest der index time e sig) ''dev.sigstore.cosign/bundle'' = json_print (rekor_bundle index time e)"
    by (simp add: annotation_def cosign_layer_def)
  show ?thesis
    unfolding tlog_entries_def a
    using float_int64_exact [OF assms(1)] float_int64_exact [OF assms(2)] assms(4,5)
    by (simp add: u p hex_bytes_def b64_bytes_def hex_decode_encode b64_decode_encode body kv)
qed

lemma cosign_certificate: "certificate_chain (cosign_layer digest der index time e sig) = Inr [der]"
  by (simp add: certificate_chain_def annotation_def cosign_layer_def pem_decode_encode)

lemma cosign_signature:
  "bundle_msg_signature (cosign_layer digest der index time e sig) =
    Inr \<lparr>ms_algorithm = SHA2_256, ms_digest = digest, ms_signature = sig\<rparr>"
  by (simp add: bundle_msg_signature_def cosign_layer_def annotation_def hex_bytes_def b64_bytes_def
      hex_decode_encode b64_decode_encode)

lemma cosign_material:
  assumes "index \<le> 2 ^ 53" "time \<le> 2 ^ 53" "rekor_body e"
    and "tle_log_index e = int index" "tle_integrated_time e = int time"
  shows "bundle_verification_material (cosign_layer digest der index time e sig) True False =
    Inr \<lparr>vm_certificates = [der], vm_tlog_entries = [e], vm_timestamps = None\<rparr>"
  using cosign_tlog_entries [OF assms] by (simp add: bundle_verification_material_def cosign_certificate)

text \<open>C31: what cosign attaches to a layer is read back as it was: the certificate, the entry of the
  transparency log, the digest and the signature, for indices and times up to \<open>2 ^ 53\<close>. Both pass
  through \<^verbatim>\<open>float64\<close>, so the index after that is read as its predecessor.\<close>
theorem cosign_layer_roundtrip:
  assumes "index \<le> 2 ^ 53" "time \<le> 2 ^ 53" "rekor_body e"
    and "tle_log_index e = int index" "tle_integrated_time e = int time"
  shows "bundle_verification_material (cosign_layer digest der index time e sig) True False =
      Inr \<lparr>vm_certificates = [der], vm_tlog_entries = [e], vm_timestamps = None\<rparr>
    \<and> bundle_msg_signature (cosign_layer digest der index time e sig) =
      Inr \<lparr>ms_algorithm = SHA2_256, ms_digest = digest, ms_signature = sig\<rparr>
    \<and> float_int64 (show_nat (2 ^ 53 + 1)) = 2 ^ 53"
  using cosign_material [OF assms] cosign_signature float_int64_rounds by blast

definition sample_entry :: tlog_entry where
  "sample_entry = \<lparr>tle_log_index = 7, tle_log_id = ''log'', tle_kind = ''hashedrekord'', tle_version = ''0.0.1'',
     tle_integrated_time = 1700000000, tle_set = ''set'',
     tle_body = json_print (JObj [(''apiVersion'', JStr ''0.0.1''), (''kind'', JStr ''hashedrekord'')])\<rparr>"

lemma sample_entry_body: "rekor_body sample_entry"
proof -
  let ?v = "JObj [(''apiVersion'', JStr ''0.0.1''), (''kind'', JStr ''hashedrekord'')]"
  have "json_parse (json_print ?v) = Some (json_clean ?v)" by (rule json_parse_print) simp
  also have "json_clean ?v = ?v" by (simp add: to_valid_id utf8_valid_ascii)
  finally show ?thesis by (simp add: rekor_body_def sample_entry_def object_map_def)
qed

definition sample_layer :: descriptor where
  "sample_layer = cosign_layer ''layer digest'' ''der'' 7 1700000000 sample_entry ''sig''"

theorem cosign_layer_roundtrip_witness:
  "bundle_verification_material sample_layer True False =
      Inr \<lparr>vm_certificates = [''der''], vm_tlog_entries = [sample_entry], vm_timestamps = None\<rparr>
    \<and> bundle_msg_signature sample_layer = Inr \<lparr>ms_algorithm = SHA2_256, ms_digest = ''layer digest'', ms_signature = ''sig''\<rparr>"
  using cosign_layer_roundtrip [of 7 1700000000 sample_entry "''layer digest''" "''der''" "''sig''"] sample_entry_body
  by (simp add: sample_layer_def sample_entry_def)

section \<open>The older layout does not bind the image\<close>

text \<open>The image has no referrers, and \<open>mf\<close> is the manifest served under the tag of its signature.\<close>

definition signed_by_tag :: "remote \<Rightarrow> image_info \<Rightarrow> string \<Rightarrow> bool" where
  "signed_by_tag R img mf \<longleftrightarrow>
     (\<exists>d ds ref h. im_repo_digests img = d # ds \<and> rm_new_digest R d = Inr ref \<and> rm_referrers R ref = Inr (Inr [])
        \<and> h = hash_or_zero R (ref_identifier ref)
        \<and> rm_tag_manifest R (ref_context ref) (hash_algorithm h @ ''-'' @ hash_hex h @ ''.sig'') = Inr mf)"

text \<open>What the verdict is then a function of: the manifest alone.\<close>

definition manifest_verdict :: "remote \<Rightarrow> cert_identity \<Rightarrow> string \<Rightarrow> string outcome" where
  "manifest_verdict R cid mf =
     and_then (within ''error getting simple signing layer: ''
       (and_then (attempt ''error parsing signature manifest: '' (rm_parse_manifest R mf)) (\<lambda>layers.
         (case layers of
            [] \<Rightarrow> Inl (Failure ''no suitable layers found in signature manifest'')
          | layer # _ \<Rightarrow>
              if desc_media_type layer \<noteq> simple_signing_media
              then Inl (Failure ''no suitable layers found in signature manifest'') else Inr layer)))) (\<lambda>layer.
     and_then (layer_bundle R layer True False) (verify_bundle R cid))"

lemma and_then_assoc: "and_then (and_then r f) g = and_then r (\<lambda>x. and_then (f x) g)"
  by (cases r) simp_all

lemma verdict_of_manifest: "signed_by_tag R img mf \<Longrightarrow> verify_image_signature R cid img = manifest_verdict R cid mf"
  by (auto simp: signed_by_tag_def verify_image_signature_def bundle_from_image_def simple_signing_layer_def
      manifest_verdict_def Let_def and_then_assoc)

text \<open>C12: for an image without referrers the verdict depends on nothing but the manifest that its own
  repository serves under the tag of its signature: two images for which the same manifest is
  served get the same verdict, whatever the signed payload says, for it is never read. A signature
  that its holder made for one image therefore admits any other one.\<close>
theorem legacy_signature_not_bound:
  assumes "signed_by_tag R img mf" "signed_by_tag R img' mf"
  shows "verify_image_signature R cid img = verify_image_signature R cid img'
    \<and> verify_image_signature (R\<lparr>rm_layer := payload\<rparr>) cid img = verify_image_signature R cid img"
proof -
  have "signed_by_tag (R\<lparr>rm_layer := payload\<rparr>) img mf"
    using assms(1) by (simp add: signed_by_tag_def hash_or_zero_def)
  moreover have "manifest_verdict (R\<lparr>rm_layer := payload\<rparr>) cid mf = manifest_verdict R cid mf"
    by (simp add: manifest_verdict_def layer_bundle_def verify_bundle_def [abs_def])
  ultimately show ?thesis using assms by (simp add: verdict_of_manifest)
qed

text \<open>A registry that serves one signed layer under every signature tag, and a verifier that accepts the
  digest of that layer only.\<close>

definition sample_remote :: remote where
  "sample_remote =
     \<lparr>rm_new_digest = (\<lambda>s. Inr \<lparr>ref_context = ''web'', ref_identifier = s\<rparr>),
      rm_new_hash = (\<lambda>s. Inr \<lparr>hash_algorithm = ''sha256'', hash_hex = s\<rparr>), rm_hash_text = hash_hex,
      rm_referrers = (\<lambda>ref. Inr (Inr [])), rm_get = (\<lambda>ref. Inl ''not found''),
      rm_tag_manifest = (\<lambda>repo t. Inr ''signed''), rm_parse_manifest = (\<lambda>mf. Inr [sample_layer]),
      rm_layer = (\<lambda>ref. Inl ''not found''), rm_decode_bundle = (\<lambda>t. Inr ()), rm_media_type = (\<lambda>v. Inr v),
      rm_new_bundle = (\<lambda>pb. Inr ()),
      rm_verify = (\<lambda>b d cid. if d = ''layer digest'' then Inr ''builder'' else Inl ''digest mismatch'')\<rparr>"

definition sample_image :: "string \<Rightarrow> image_info" where
  "sample_image d = \<lparr>im_repo_tags = [''web:1''], im_repo_digests = [d]\<rparr>"

lemma sample_signed: "signed_by_tag sample_remote (sample_image d) ''signed''"
  by (simp add: signed_by_tag_def sample_remote_def sample_image_def)

lemma sample_verdict: "verify_image_signature sample_remote cid (sample_image d) = Inr ''builder''"
proof -
  have b: "bundle_verification_material sample_layer True False =
      Inr \<lparr>vm_certificates = [''der''], vm_tlog_entries = [sample_entry], vm_timestamps = None\<rparr>"
    unfolding sample_layer_def by (rule cosign_material) (simp_all add: sample_entry_body, simp_all add: sample_entry_def)
  have d: "hex_decode (hash_hex (desc_digest sample_layer)) = Some ''layer digest''"
    "desc_media_type sample_layer = simple_signing_media"
    by (simp_all add: sample_layer_def cosign_layer_def hex_decode_encode)
  then have v: "verify_bundle sample_remote cid (b, hash_hex (desc_digest sample_layer)) = Inr ''builder''" for b
    by (simp add: verify_bundle_def hex_bytes_def) (simp add: sample_remote_def)
  obtain b where "layer_bundle sample_remote sample_layer True False = Inr (b, hash_hex (desc_digest sample_layer))"
    using b by (simp add: layer_bundle_def sample_remote_def cosign_signature sample_layer_def)
  moreover have "rm_parse_manifest sample_remote mf = Inr [sample_layer]" for mf by (simp add: sample_remote_def)
  ultimately show ?thesis
    unfolding verdict_of_manifest [OF sample_signed] by (simp add: manifest_verdict_def d v)
qed

definition sample_identity :: cert_identity where
  "sample_identity = \<lparr>cid_issuer = ''idp'', cid_san = []\<rparr>"

theorem legacy_signature_not_bound_witness:
  "verify_image_signature sample_remote sample_identity (sample_image ''sha256:signed'') =
      verify_image_signature sample_remote sample_identity (sample_image ''sha256:other'')
    \<and> verify_image_signature sample_remote sample_identity (sample_image ''sha256:other'') = Inr ''builder''"
  using legacy_signature_not_bound [OF sample_signed sample_signed] sample_verdict by blast

theorem verdict_origin_witness:
  "\<exists>d ds ref. im_repo_digests (sample_image ''sha256:aa'') = d # ds \<and> rm_new_digest sample_remote d = Inr ref"
  using verdict_origin [OF sample_verdict [of sample_identity "''sha256:aa''"]] by blast

end
