(* ===== verification/Agent.thy ===== *)
theory Agent
  imports AgentApi NodeUtils Signature
begin

text \<open>
  agent/main.go, agent/events and agent/state: what the agent does when containers come and go. The
  Docker daemon and the signature verification are parameters; what the agent asks of them and of
  the registry is the list of its actions, in order, since none of their outcomes changes what it
  does next.
\<close>

section \<open>Containers, images and the outside world\<close>

record container =
  ct_id :: string
  ct_name :: string
  ct_image :: string
  ct_labels :: "string \<rightharpoonup> string"
  ct_ports :: "(string \<times> string list) list"

text \<open>\<open>ct_ports\<close> lists, in the order Go ranges over the map, each port with the host ports bound to it.\<close>

record outside =
  ow_inspect :: "string \<Rightarrow> container outcome"
  ow_identity :: "string \<Rightarrow> string \<Rightarrow> unit outcome"
  ow_image :: "string \<Rightarrow> image_info outcome"
  ow_remote :: remote

datatype agent_event =
    UnsignedImage string string
  | NoSignatureConfiguration string

datatype agent_action =
    CallRegister register_request
  | CallDeregister deregister_request
  | RemoveContainer string
  | RemoveImage string
  | WriteEvent agent_event

section \<open>The events log\<close>

definition event_code :: "agent_event \<Rightarrow> nat" where
  "event_code ev = (case ev of UnsignedImage _ _ \<Rightarrow> 1 | NoSignatureConfiguration _ \<Rightarrow> 2)"

definition event_text :: "agent_event \<Rightarrow> string" where
  "event_text ev =
     (case ev of
        UnsignedImage _ _ \<Rightarrow> ''Unsigned image detected''
      | NoSignatureConfiguration _ \<Rightarrow> ''Container does not have signature verification configured'')"

text \<open>\<open>time\<close> is the text of the time stamp.\<close>

definition json_event :: "string \<Rightarrow> agent_event \<Rightarrow> json" where
  "json_event time ev = JObj
     ([(''timestamp'', JStr time), (''code'', JNum (show_nat (event_code ev))), (''msg'', JStr (event_text ev))]
      @ (case ev of
           UnsignedImage img reason \<Rightarrow> [(''image'', JStr img), (''reason'', JStr reason)]
         | NoSignatureConfiguration ctr \<Rightarrow> [(''container'', JStr ctr)]))"

definition write_event :: "string \<Rightarrow> agent_event \<Rightarrow> string \<Rightarrow> string" where
  "write_event time ev log = log @ json_print (json_event time ev) @ [CHR 0x0A]"

section \<open>Registration\<close>

text \<open>An invalid port reads as zero, one out of range as 65535; a port without a protocol panics.\<close>

fun container_ports :: "(string \<times> string list) list \<Rightarrow> port_spec option list outcome" where
  "container_ports [] = Inr []"
| "container_ports ((port, binds) # ps) =
     (let parts = split_n2 ''/'' port;
          raw = (case binds of [] \<Rightarrow> hd parts | b # _ \<Rightarrow> b);
          svc_port = of_nat (fst (parse_uint 16 raw))
      in if length parts < 2 then Inl (Panic ''index out of range'')
         else
           (case container_ports ps of
              Inl err \<Rightarrow> Inl err
            | Inr rest \<Rightarrow>
                Inr (Some \<lparr>port_name = Some (hd parts), port_port = Some svc_port, port_protocol = Some (parts ! 1)\<rparr> # rest)))"

definition container_instance :: "string \<Rightarrow> string" where
  "container_instance name = replace_char (CHR ''/'') (CHR ''_'') (fst (cut_prefix name ''/''))"

text \<open>A run of the agent: its actions in order and how the run ends.\<close>

type_synonym agent_run = "agent_action list \<times> unit outcome"

definition followed_by :: "agent_run \<Rightarrow> agent_run \<Rightarrow> agent_run" where
  "followed_by r r' =
     (case snd r of Inl err \<Rightarrow> r | Inr _ \<Rightarrow> (fst r @ fst r', snd r'))"

definition register_service_from_container :: "container \<Rightarrow> agent_run" where
  "register_service_from_container ctr =
     (case ct_labels ctr ''ssle.service'' of
        None \<Rightarrow> ([], Inr ())
      | Some svc \<Rightarrow>
          (case (case ct_labels ctr ''ssle.metrics'' of
                   None \<Rightarrow> Some 0
                 | Some metrics \<Rightarrow> (case parse_uint 16 metrics of (n, None) \<Rightarrow> Some (of_nat n) | (_, Some _) \<Rightarrow> None)) of
             None \<Rightarrow> ([], Inr ())
           | Some metrics_port \<Rightarrow>
               (case container_ports (ct_ports ctr) of
                  Inl err \<Rightarrow> ([], Inl err)
                | Inr ports \<Rightarrow>
                    ([CallRegister \<lparr>reg_service = svc, reg_instance = container_instance (ct_name ctr),
                       reg_addresses = [], reg_ports = ports, reg_metrics_port = Some metrics_port\<rparr>], Inr ()))))"

definition ctr_label :: "container \<Rightarrow> string \<Rightarrow> string" where
  "ctr_label ctr l = (case ct_labels ctr l of None \<Rightarrow> [] | Some v \<Rightarrow> v)"

text \<open>\<^verbatim>\<open>err.Error()\<close>; the errors of the verification are all failures.\<close>

fun error_text :: "fault \<Rightarrow> string" where
  "error_text (Status code s) = s"
| "error_text (Failure s) = s"
| "error_text (Panic s) = s"
| "error_text (Fatal s) = s"

definition certificate_identity :: "container \<Rightarrow> cert_identity" where
  "certificate_identity ctr = \<lparr>cid_issuer = ctr_label ctr ''ssle.issuer'', cid_san = ctr_label ctr ''ssle.san''\<rparr>"

text \<open>Whether the container may stay, with the events written; a panic of the verification is the agent's.\<close>

definition check_image :: "outside \<Rightarrow> container \<Rightarrow> agent_action list \<times> bool outcome" where
  "check_image W ctr =
     (let issuer = ctr_label ctr ''ssle.issuer''; san = ctr_label ctr ''ssle.san'' in
      if issuer = [] then ([WriteEvent (NoSignatureConfiguration (ct_name ctr))], Inr True)
      else
        (case ow_identity W issuer san of
           Inl _ \<Rightarrow> ([], Inr False)
         | Inr _ \<Rightarrow>
             (case ow_image W (ct_image ctr) of
                Inl _ \<Rightarrow> ([], Inr False)
              | Inr img \<Rightarrow>
                  (case verify_image_signature (ow_remote W) (certificate_identity ctr) img of
                     Inl (Panic p) \<Rightarrow> ([], Inl (Panic p))
                   | Inl err \<Rightarrow>
                       ([WriteEvent (UnsignedImage
                          (case im_repo_tags img of [] \<Rightarrow> ct_image ctr | t # _ \<Rightarrow> t) (error_text err))], Inr False)
                   | Inr _ \<Rightarrow> ([], Inr True)))))"

definition remove_unsigned_image :: "string \<Rightarrow> agent_run" where
  "remove_unsigned_image image_id = ([RemoveImage image_id], Inr ())"

declare remove_unsigned_image_def [simp]

text \<open>What follows the check: registration, or removal of the container \<open>cid\<close> and of its image.\<close>

definition admit_container :: "outside \<Rightarrow> string \<Rightarrow> container \<Rightarrow> agent_run" where
  "admit_container W cid ctr =
     (case check_image W ctr of
        (acts, Inl err) \<Rightarrow> (acts, Inl err)
      | (acts, Inr ok) \<Rightarrow>
          followed_by (acts, Inr ())
            (if ok then register_service_from_container ctr
             else followed_by ([RemoveContainer cid], Inr ()) (remove_unsigned_image (ct_image ctr))))"

text \<open>\<^verbatim>\<open>registerService\<close>, which nothing calls: registration without the check.\<close>

definition register_service :: "outside \<Rightarrow> string \<Rightarrow> agent_run" where
  "register_service W cid =
     (case ow_inspect W cid of Inl _ \<Rightarrow> ([], Inr ()) | Inr ctr \<Rightarrow> register_service_from_container ctr)"

section \<open>Docker events\<close>

datatype docker_action = ActionCreate | ActionStart | ActionRemove | ActionStop | ActionDie | ActionOther

record docker_event =
  de_container :: bool
  de_action :: docker_action
  de_id :: string
  de_attributes :: "string \<rightharpoonup> string"

definition deregister_of :: "(string \<rightharpoonup> string) \<Rightarrow> agent_run" where
  "deregister_of attrs =
     (case attrs ''name'' of
        None \<Rightarrow> ([], Inr ())
      | Some name \<Rightarrow>
          (case attrs ''ssle.service'' of
             None \<Rightarrow> ([], Inr ())
           | Some service \<Rightarrow> ([CallDeregister \<lparr>dereg_service = service, dereg_instance = name\<rparr>], Inr ())))"

definition handle_event_container :: "outside \<Rightarrow> docker_event \<Rightarrow> agent_run" where
  "handle_event_container W ev =
     (if de_attributes ev ''manager'' \<noteq> Some ''ssle'' then ([], Inr ())
      else if de_action ev \<in> {ActionCreate, ActionStart} then
        (case ow_inspect W (de_id ev) of
           Inl _ \<Rightarrow> ([], Inr ())
         | Inr ctr \<Rightarrow> admit_container W (de_id ev) ctr)
      else if de_action ev \<in> {ActionRemove, ActionStop, ActionDie} then deregister_of (de_attributes ev)
      else ([], Inr ()))"

definition handle_event :: "outside \<Rightarrow> docker_event \<Rightarrow> agent_run" where
  "handle_event W ev = (if de_container ev then handle_event_container W ev else ([], Inr ()))"

section \<open>Start-up\<close>

text \<open>The loop over the listed containers; an error of one inspection ends it.\<close>

fun consistency_loop :: "outside \<Rightarrow> string list \<Rightarrow> agent_run" where
  "consistency_loop W [] = ([], Inr ())"
| "consistency_loop W (i # is) =
     (case ow_inspect W i of
        Inl _ \<Rightarrow> ([], Inr ())
      | Inr ctr \<Rightarrow> followed_by (admit_container W (ct_id ctr) ctr) (consistency_loop W is))"

text \<open>\<open>listed\<close> is what \<^verbatim>\<open>ContainerList\<close> returns: a failure panics.\<close>

definition startup_consistency_job :: "outside \<Rightarrow> string list outcome \<Rightarrow> agent_run" where
  "startup_consistency_job W listed =
     (case listed of Inl _ \<Rightarrow> ([], Inl (Panic ''ContainerList'')) | Inr is \<Rightarrow> consistency_loop W is)"

section \<open>Facts\<close>

text \<open>A container that the check admits without or with a verified signature.\<close>

definition admissible :: "outside \<Rightarrow> container \<Rightarrow> bool" where
  "admissible W ctr \<longleftrightarrow>
     ctr_label ctr ''ssle.issuer'' = []
     \<or> (case ow_image W (ct_image ctr) of
          Inl _ \<Rightarrow> False
        | Inr img \<Rightarrow> is_ok (ow_identity W (ctr_label ctr ''ssle.issuer'') (ctr_label ctr ''ssle.san''))
            \<and> is_ok (verify_image_signature (ow_remote W) (certificate_identity ctr) img))"

lemma check_image_admissible: "snd (check_image W ctr) = Inr ok \<Longrightarrow> ok \<longleftrightarrow> admissible W ctr"
  by (auto simp: check_image_def admissible_def Let_def split: sum.splits if_splits fault.splits)

lemma check_image_actions: "a \<in> set (fst (check_image W ctr)) \<Longrightarrow> \<exists>ev. a = WriteEvent ev"
  by (auto simp: check_image_def Let_def split: if_splits sum.splits fault.splits)

lemma check_image_no_call [simp]:
  "CallRegister req \<notin> set (fst (check_image W ctr))" "CallDeregister dr \<notin> set (fst (check_image W ctr))"
  using check_image_actions by blast+

lemma register_actions:
  assumes "CallRegister req \<in> set (fst (register_service_from_container ctr))"
  shows "ct_labels ctr ''ssle.service'' = Some (reg_service req) \<and> reg_instance req = container_instance (ct_name ctr)"
  using assms by (auto simp: register_service_from_container_def split: option.splits sum.splits)

lemma admit_register:
  assumes "CallRegister req \<in> set (fst (admit_container W cid ctr))"
  shows "admissible W ctr \<and> ct_labels ctr ''ssle.service'' = Some (reg_service req)
    \<and> reg_instance req = container_instance (ct_name ctr)"
proof (cases "check_image W ctr")
  case (Pair acts r)
  then have n: "CallRegister req \<notin> set acts" using check_image_no_call(1) [of req W ctr] by simp
  show ?thesis
  proof (cases r)
    case (Inl err)
    then show ?thesis using assms n Pair by (simp add: admit_container_def)
  next
    case (Inr ok)
    then have "ok" "CallRegister req \<in> set (fst (register_service_from_container ctr))"
      using assms n Pair by (auto simp: admit_container_def followed_by_def split: if_splits)
    then show ?thesis using register_actions check_image_admissible [of W ctr ok] Pair Inr by simp
  qed
qed

lemma admit_refused:
  assumes "\<not> admissible W ctr" "is_ok (snd (admit_container W cid ctr))"
  shows "\<exists>evs. fst (admit_container W cid ctr) = map WriteEvent evs @ [RemoveContainer cid, RemoveImage (ct_image ctr)]"
proof (cases "check_image W ctr")
  case (Pair acts r)
  have "\<forall>a \<in> set acts. \<exists>ev. a = WriteEvent ev" using check_image_actions [of _ W ctr] Pair by simp
  then have "acts \<in> lists (range WriteEvent)" by auto
  then obtain evs where "acts = map WriteEvent evs" unfolding lists_image by auto
  moreover obtain ok where "r = Inr ok" using assms(2) Pair by (cases r) (auto simp: admit_container_def)
  ultimately show ?thesis
    using assms(1) check_image_admissible [of W ctr ok] Pair by (auto simp: admit_container_def followed_by_def)
qed

lemma deregister_of_actions [simp]: "CallRegister req \<notin> set (fst (deregister_of attrs))"
  by (simp add: deregister_of_def split: option.split)

lemma handle_event_admits:
  "de_container ev \<Longrightarrow> de_attributes ev ''manager'' = Some ''ssle'' \<Longrightarrow> de_action ev \<in> {ActionCreate, ActionStart} \<Longrightarrow>
    ow_inspect W (de_id ev) = Inr ctr \<Longrightarrow> handle_event W ev = admit_container W (de_id ev) ctr"
  by (simp add: handle_event_def handle_event_container_def)

lemma handle_event_register:
  assumes "CallRegister req \<in> set (fst (handle_event W ev))"
  obtains ctr where "ow_inspect W (de_id ev) = Inr ctr" "CallRegister req \<in> set (fst (admit_container W (de_id ev) ctr))"
  using assms
  by (cases "ow_inspect W (de_id ev)") (auto simp: handle_event_def handle_event_container_def split: if_splits)

section \<open>Properties\<close>

text \<open>The agent registers a service only for a container whose signature was verified or that asks for
  no verification; the container of a start event that is neither is removed together with its image,
  and nothing is registered for it, whenever the check does not panic.\<close>
theorem agent_registers_only_admissible:
  shows "(\<forall>req. CallRegister req \<in> set (fst (handle_event W ev)) \<longrightarrow>
      (\<exists>ctr. ow_inspect W (de_id ev) = Inr ctr \<and> admissible W ctr
        \<and> ct_labels ctr ''ssle.service'' = Some (reg_service req)))
    \<and> (\<forall>ctr. de_container ev \<and> de_attributes ev ''manager'' = Some ''ssle'' \<and> de_action ev \<in> {ActionCreate, ActionStart}
        \<and> ow_inspect W (de_id ev) = Inr ctr \<and> \<not> admissible W ctr \<and> is_ok (snd (handle_event W ev)) \<longrightarrow>
        (\<exists>evs. fst (handle_event W ev) = map WriteEvent evs @ [RemoveContainer (de_id ev), RemoveImage (ct_image ctr)]))"
proof (intro conjI allI impI)
  fix req assume "CallRegister req \<in> set (fst (handle_event W ev))"
  then show "\<exists>ctr. ow_inspect W (de_id ev) = Inr ctr \<and> admissible W ctr \<and> ct_labels ctr ''ssle.service'' = Some (reg_service req)"
    by (rule handle_event_register) (use admit_register in blast)
next
  fix ctr
  assume "de_container ev \<and> de_attributes ev ''manager'' = Some ''ssle'' \<and> de_action ev \<in> {ActionCreate, ActionStart}
    \<and> ow_inspect W (de_id ev) = Inr ctr \<and> \<not> admissible W ctr \<and> is_ok (snd (handle_event W ev))"
  then show "\<exists>evs. fst (handle_event W ev) = map WriteEvent evs @ [RemoveContainer (de_id ev), RemoveImage (ct_image ctr)]"
    using handle_event_admits admit_refused by metis
qed

definition sample_container :: container where
  "sample_container = \<lparr>ct_id = ''f00'', ct_name = ''/c1'', ct_image = ''sha'',
     ct_labels = [''manager'' \<mapsto> ''ssle'', ''ssle.service'' \<mapsto> ''web'', ''ssle.issuer'' \<mapsto> ''idp''],
     ct_ports = [(''80/tcp'', [''8080''])]\<rparr>"

definition sample_outside :: "remote \<Rightarrow> outside" where
  "sample_outside R = \<lparr>ow_inspect = (\<lambda>i. Inr sample_container), ow_identity = (\<lambda>i s. Inr ()),
     ow_image = (\<lambda>i. Inr (sample_image ''web@sha256:aa'')), ow_remote = R\<rparr>"

definition sample_event :: "docker_action \<Rightarrow> docker_event" where
  "sample_event a = \<lparr>de_container = True, de_action = a, de_id = ''f00'',
     de_attributes = [''manager'' \<mapsto> ''ssle'', ''name'' \<mapsto> ''c1'', ''ssle.service'' \<mapsto> ''web'']\<rparr>"

text \<open>A registry whose referrers cannot be listed.\<close>

definition silent_remote :: remote where
  "silent_remote = sample_remote\<lparr>rm_referrers := (\<lambda>ref. Inl ''unavailable'')\<rparr>"

lemma silent_verdict: "verify_image_signature silent_remote cid (sample_image d) = Inl (Failure ''unavailable'')"
  by (simp add: verify_image_signature_def bundle_from_image_def silent_remote_def sample_remote_def sample_image_def)

lemma sample_check:
  "check_image (sample_outside R) sample_container =
    (case verify_image_signature R (certificate_identity sample_container) (sample_image ''web@sha256:aa'') of
       Inl (Panic p) \<Rightarrow> ([], Inl (Panic p))
     | Inl err \<Rightarrow> ([WriteEvent (UnsignedImage ''web:1'' (error_text err))], Inr False)
     | Inr _ \<Rightarrow> ([], Inr True))"
  by (simp add: check_image_def sample_outside_def sample_container_def ctr_label_def sample_image_def
      split: sum.split fault.split)

lemma sample_start:
  "handle_event (sample_outside R) (sample_event ActionStart) = admit_container (sample_outside R) ''f00'' sample_container"
  by (simp add: handle_event_def handle_event_container_def sample_event_def sample_outside_def)

theorem agent_registers_only_admissible_witness:
  "\<exists>evs. fst (handle_event (sample_outside silent_remote) (sample_event ActionStart)) =
    map WriteEvent evs @ [RemoveContainer ''f00'', RemoveImage ''sha'']"
proof -
  let ?W = "sample_outside silent_remote"
  have "\<not> admissible ?W sample_container"
    by (simp add: admissible_def ctr_label_def sample_outside_def sample_container_def silent_verdict)
  moreover have "is_ok (snd (handle_event ?W (sample_event ActionStart)))"
    by (simp add: sample_start admit_container_def sample_check silent_verdict followed_by_def)
  moreover have "ow_inspect ?W (de_id (sample_event ActionStart)) = Inr sample_container"
    by (simp add: sample_outside_def)
  ultimately show ?thesis
    using agent_registers_only_admissible [of ?W "sample_event ActionStart"]
    by (simp add: sample_event_def sample_container_def)
qed

text \<open>C38: what a container's stop, death or removal deregisters is what its start registered: the service of
  its label and the instance of its name, if the name has no slash but the leading one of Docker.\<close>
theorem stop_deregisters_what_start_registered:
  assumes "CallRegister req \<in> set (fst (handle_event W ev))" "ow_inspect W (de_id ev) = Inr ctr"
    and "ct_name ctr = CHR ''/'' # name" "slash_free name"
    and "de_container ev'" "de_action ev' \<in> {ActionRemove, ActionStop, ActionDie}"
    and "de_attributes ev' ''manager'' = Some ''ssle''" "de_attributes ev' ''name'' = Some name"
    and "de_attributes ev' ''ssle.service'' = ct_labels ctr ''ssle.service''"
  shows "handle_event W' ev' =
    ([CallDeregister \<lparr>dereg_service = reg_service req, dereg_instance = reg_instance req\<rparr>], Inr ())"
proof -
  from assms(1,2) have "CallRegister req \<in> set (fst (admit_container W (de_id ev) ctr))"
    by (auto elim: handle_event_register)
  note r = admit_register [OF this]
  have "map (\<lambda>x. if x = CHR ''/'' then CHR ''_'' else x) name = name"
    using assms(4) by (auto simp: slash_free_def intro: map_idI)
  then have "reg_instance req = name"
    using r assms(3) by (simp add: container_instance_def cut_prefix_def replace_char_def)
  then show ?thesis
    using assms(5-9) r by (auto simp: handle_event_def handle_event_container_def deregister_of_def)
qed

theorem stop_deregisters_what_start_registered_witness:
  "handle_event (sample_outside sample_remote) (sample_event ActionStop) =
    ([CallDeregister \<lparr>dereg_service = ''web'', dereg_instance = ''c1''\<rparr>], Inr ())"
proof -
  let ?W = "sample_outside sample_remote"
  let ?req = "\<lparr>reg_service = ''web'', reg_instance = ''c1'', reg_addresses = [],
    reg_ports = [Some \<lparr>port_name = Some ''80'', port_port = Some (of_nat (fst (parse_uint 16 ''8080''))), port_protocol = Some ''tcp''\<rparr>],
    reg_metrics_port = Some 0\<rparr>"
  have i: "container_instance ''/c1'' = ''c1''" "split_n2 ''/'' ''80/tcp'' = [''80'', ''tcp'']" by code_simp+
  have start: "CallRegister ?req \<in> set (fst (handle_event ?W (sample_event ActionStart)))"
    by (simp add: sample_start admit_container_def sample_check sample_verdict followed_by_def)
      (simp add: register_service_from_container_def sample_container_def i)
  have c: "ow_inspect ?W (de_id (sample_event ActionStart)) = Inr sample_container"
    "ct_name sample_container = CHR ''/'' # ''c1''" "slash_free ''c1''"
    by (simp_all add: sample_outside_def sample_container_def slash_free_def)
  show ?thesis
    using stop_deregisters_what_start_registered [OF start c, of "sample_event ActionStop" "sample_outside sample_remote"]
    by (simp add: sample_event_def sample_container_def)
qed

lemma container_ports_bound:
  "container_ports ps = Inr out \<Longrightarrow> p \<in> set out \<Longrightarrow> \<exists>x n. p = Some x \<and> port_port x = Some n \<and> unat n < 2 ^ 16"
proof (induction ps arbitrary: out)
  case (Cons b ps)
  obtain port binds where b: "b = (port, binds)" by fastforce
  define raw where "raw = (case binds of [] \<Rightarrow> hd (split_n2 ''/'' port) | x # _ \<Rightarrow> x)"
  from Cons.prems(1) obtain rest x where rest: "container_ports ps = Inr rest" "out = Some x # rest"
    "port_port x = Some (of_nat (fst (parse_uint 16 raw)))"
    by (auto simp: b raw_def Let_def split: if_splits sum.splits)
  have "fst (parse_uint 16 raw) < 2 ^ 16" by (rule parse_uint_bound)
  then have "unat (of_nat (fst (parse_uint 16 raw)) :: 32 word) < 2 ^ 16" by (simp add: unat_of_nat)
  with Cons rest show ?case by auto
qed simp

text \<open>Every port that is registered for a container fits sixteen bits, whatever text Docker reports; a
  host port in range is registered as it is, but one out of range, or no number, is not an error: it
  becomes 65535 or 0.\<close>
theorem registered_ports_fit:
  shows "(container_ports ps = Inr out \<and> Some x \<in> set out \<longrightarrow> (\<exists>n. port_port x = Some n \<and> unat n < 2 ^ 16))
    \<and> (\<forall>k proto. n < 2 ^ 16 \<and> slash_free k \<longrightarrow>
        container_ports [(k @ CHR ''/'' # proto, [show_nat n])] =
          Inr [Some \<lparr>port_name = Some k, port_port = Some (of_nat n), port_protocol = Some proto\<rparr>])
    \<and> map_sum id (map (map_option port_port)) (container_ports [(''80/tcp'', [''70000''])]) = Inr [Some (Some 65535)]"
proof (intro conjI allI impI)
  assume "container_ports ps = Inr out \<and> Some x \<in> set out"
  then show "\<exists>n. port_port x = Some n \<and> unat n < 2 ^ 16" using container_ports_bound by blast
next
  fix k proto assume a: "n < 2 ^ 16 \<and> slash_free k"
  then have "split_n2 ''/'' (k @ CHR ''/'' # proto) = [k, proto]"
    using split_first_append [of "CHR ''/''" k "[]" proto] by (simp add: split_n2_def slash_free_def)
  moreover have "parse_uint 16 (show_nat n) = (n, None)" using a by (intro parse_uint_show_nat) simp
  ultimately show "container_ports [(k @ CHR ''/'' # proto, [show_nat n])] =
      Inr [Some \<lparr>port_name = Some k, port_port = Some (of_nat n), port_protocol = Some proto\<rparr>]"
    by (simp add: Let_def)
next
  have "split_n2 ''/'' ''80/tcp'' = [''80'', ''tcp'']" by code_simp
  moreover have "fst (parse_uint 16 ''70000'') = 65535"
    by (simp add: parse_uint_def digit_val_def is_digit_def)
  ultimately show "map_sum id (map (map_option port_port)) (container_ports [(''80/tcp'', [''70000''])]) = Inr [Some (Some 65535)]"
    by (simp add: Let_def)
qed

theorem registered_ports_fit_witness:
  "container_ports [(''80/tcp'', [''7''])] =
    Inr [Some \<lparr>port_name = Some ''80'', port_port = Some 7, port_protocol = Some ''tcp''\<rparr>]"
proof -
  have "show_nat 7 = ''7''" by code_simp
  then show ?thesis
    using registered_ports_fit [of "[]" "[]" undefined 7] by (auto simp: slash_free_def dest: spec [of _ "''80''"])
qed

end
