(* ===== verification/AgentRun.thy ===== *)
theory AgentRun
  imports Agent
begin

text \<open>
  agent/main.go as a process: the loop over Docker's events, the job that goes through the containers
  that run at the start, and \<^verbatim>\<open>main\<close> with its clean-up. The goroutines run at the same time, so the
  actions of the process are any interleaving of initial parts of theirs, and the clean-up, which runs in
  \<^verbatim>\<open>main\<close> or, after an interrupt, in a goroutine of its own, is interleaved with them: nothing stops the
  others before \<^verbatim>\<open>os.Exit\<close>. A panic in a goroutine ends the process at once; the deferred \<^verbatim>\<open>cleanup\<close> of
  \<^verbatim>\<open>main\<close> does not run then.
\<close>

section \<open>The event loop\<close>

datatype feed = DockerEvent docker_event | DockerError string

fun event_loop :: "outside \<Rightarrow> feed list \<Rightarrow> agent_run" where
  "event_loop W [] = ([], Inr ())"
| "event_loop W (DockerEvent ev # fs) = followed_by (handle_event W ev) (event_loop W fs)"
| "event_loop W (DockerError e # fs) = ([], Inl (Panic e))"

section \<open>The process\<close>

datatype process_action = ResetNode | Act agent_action

datatype process_end = Exit nat | GoroutinePanic string

text \<open>Whether the call of Reset succeeds does not matter here.\<close>

definition cleanup :: "process_action list \<times> process_end" where
  "cleanup = ([ResetNode], Exit 0)"

text \<open>What the event loop and the job at the start may have done so far, interleaved: \<open>a\<close> by the job, \<open>b\<close> by the
  loop. \<open>listed\<close> is the list of the containers at the start, \<open>fs\<close> what Docker reports.\<close>

definition goroutines ::
  "outside \<Rightarrow> string list outcome \<Rightarrow> feed list \<Rightarrow> agent_action list \<Rightarrow> agent_action list \<Rightarrow> agent_action list \<Rightarrow> bool" where
  "goroutines W listed fs a b acts \<longleftrightarrow>
     prefix a (fst (startup_consistency_job W listed)) \<and> prefix b (fst (event_loop W fs)) \<and> acts \<in> shuffles a b"

text \<open>A goroutine that has done all its actions and then panicked.\<close>

definition panicked :: "agent_run \<Rightarrow> agent_action list \<Rightarrow> string \<Rightarrow> bool" where
  "panicked r acts p \<longleftrightarrow> acts = fst r \<and> snd r = Inl (Panic p)"

text \<open>
  The runs of \<^verbatim>\<open>main\<close>: \<open>first_reset\<close> and \<open>first_config\<close> are the outcomes of its first two calls of the registry.
  \<open>resets\<close> are the calls of the clean-ups of \<^verbatim>\<open>main\<close> and of the interrupt, which may both be under way; the
  process exits when the first of them is done. \<^verbatim>\<open>log.Fatalf\<close> exits without running what was deferred: where
  the first Config fails, and where the name server cannot be made because resolv.conf cannot be read. The
  deferral comes after the first Reset, whose failure returns from \<^verbatim>\<open>main\<close>.
\<close>

inductive agent_main ::
  "outside \<Rightarrow> unit outcome \<Rightarrow> unit outcome \<Rightarrow> string list outcome \<Rightarrow> feed list \<Rightarrow> process_action list \<Rightarrow> process_end \<Rightarrow> bool"
  for W first_reset first_config listed fs where
  FirstResetFails: "first_reset = Inl err \<Longrightarrow> agent_main W first_reset first_config listed fs [ResetNode] (Exit 0)"
| FirstConfigFails: "first_reset = Inr () \<Longrightarrow> first_config = Inl err \<Longrightarrow> prefix resets (fst cleanup) \<Longrightarrow>
    agent_main W first_reset first_config listed fs (ResetNode # resets) (Exit 1)"
| EarlyInterrupt: "first_reset = Inr () \<Longrightarrow>
    agent_main W first_reset first_config listed fs (ResetNode # fst cleanup) (snd cleanup)"
| CleanedUp: "first_reset = Inr () \<Longrightarrow> first_config = Inr () \<Longrightarrow> goroutines W listed fs a b acts \<Longrightarrow>
    resets \<in> {fst cleanup, fst cleanup @ fst cleanup} \<Longrightarrow> trace \<in> shuffles (map Act acts) resets \<Longrightarrow>
    agent_main W first_reset first_config listed fs (ResetNode # trace) (snd cleanup)"
| NoResolvConf: "first_reset = Inr () \<Longrightarrow> first_config = Inr () \<Longrightarrow> goroutines W listed fs a b acts \<Longrightarrow>
    prefix resets (fst cleanup) \<Longrightarrow> trace \<in> shuffles (map Act acts) resets \<Longrightarrow>
    agent_main W first_reset first_config listed fs (ResetNode # trace) (Exit 1)"
| Panicked: "first_reset = Inr () \<Longrightarrow> first_config = Inr () \<Longrightarrow> goroutines W listed fs a b acts \<Longrightarrow>
    panicked (startup_consistency_job W listed) a p \<or> panicked (event_loop W fs) b p \<Longrightarrow>
    prefix resets (fst cleanup @ fst cleanup) \<Longrightarrow> trace \<in> shuffles (map Act acts) resets \<Longrightarrow>
    agent_main W first_reset first_config listed fs (ResetNode # trace) (GoroutinePanic p)"

text \<open>The calls of the process at a registry, in the order in which it serves them.\<close>

fun call_registry :: "'e etcd \<Rightarrow> rpc_peer option \<Rightarrow> process_action \<Rightarrow> 'e \<Rightarrow> 'e" where
  "call_registry E ctx ResetNode e = snd (reset E ctx e)"
| "call_registry E ctx (Act (CallRegister req)) e = snd (register E ctx req e)"
| "call_registry E ctx (Act (CallDeregister req)) e = snd (deregister E ctx req e)"
| "call_registry E ctx (Act _) e = e"

section \<open>Facts\<close>

lemma followed_by_cases:
  "x \<in> set (fst (followed_by r r')) \<Longrightarrow> x \<in> set (fst r) \<or> x \<in> set (fst r')"
  by (auto simp: followed_by_def split: sum.splits)

lemma followed_by_assoc: "followed_by (followed_by a b) c = followed_by a (followed_by b c)"
  by (cases "snd a"; cases "snd b") (simp_all add: followed_by_def)

lemma followed_by_neutral [simp]:
  "followed_by ([], Inr ()) r = r" "followed_by r ([], Inr ()) = r" "followed_by (acts, Inl err) r = (acts, Inl err)"
  by (simp_all add: followed_by_def split: sum.split) (cases r; simp)+

lemma startup_register:
  "CallRegister req \<in> set (fst (consistency_loop W is)) \<Longrightarrow>
    \<exists>i ctr. ow_inspect W i = Inr ctr \<and> admissible W ctr \<and> ct_labels ctr ''ssle.service'' = Some (reg_service req)"
proof (induction "is")
  case (Cons i "is")
  then show ?case
    by (auto split: sum.splits dest!: followed_by_cases dest: admit_register)
qed simp

lemma loop_register:
  "CallRegister req \<in> set (fst (event_loop W fs)) \<Longrightarrow>
    \<exists>i ctr. ow_inspect W i = Inr ctr \<and> admissible W ctr \<and> ct_labels ctr ''ssle.service'' = Some (reg_service req)"
  by (induction W fs rule: event_loop.induct)
    (auto dest!: followed_by_cases dest: admit_register elim!: handle_event_register)

lemma set_prefix: "prefix xs ys \<Longrightarrow> x \<in> set xs \<Longrightarrow> x \<in> set ys"
  by (auto dest: set_mono_prefix)

section \<open>Properties\<close>

lemma goroutine_register:
  assumes "goroutines W listed fs a b acts" "CallRegister req \<in> set acts"
  shows "\<exists>i ctr. ow_inspect W i = Inr ctr \<and> admissible W ctr \<and> ct_labels ctr ''ssle.service'' = Some (reg_service req)"
proof -
  have "CallRegister req \<in> set (fst (startup_consistency_job W listed)) \<or> CallRegister req \<in> set (fst (event_loop W fs))"
    using assms by (auto simp: goroutines_def set_shuffles dest: set_prefix)
  then show ?thesis
    by (auto simp: startup_consistency_job_def split: sum.splits dest: startup_register loop_register)
qed

text \<open>C13: over a whole run of the agent process, however its goroutines and its clean-up interleave and wherever it
  ends, every service that it registers belongs to a container whose image was verified or that asks for no
  verification. The run starts with a Reset; if its first one succeeded and it ends well it has sent a
  second one, and it sends none and registers nothing if its first one failed.\<close>
theorem process_registers_only_admissible:
  assumes "agent_main W first_reset first_config listed fs trace ending"
  shows "(\<forall>req. Act (CallRegister req) \<in> set trace \<longrightarrow>
      (\<exists>i ctr. ow_inspect W i = Inr ctr \<and> admissible W ctr \<and> ct_labels ctr ''ssle.service'' = Some (reg_service req)))
    \<and> hd trace = ResetNode
    \<and> (first_reset = Inr () \<and> ending = Exit 0 \<longrightarrow> ResetNode \<in> set (tl trace))
    \<and> (first_reset \<noteq> Inr () \<longrightarrow> trace = [ResetNode] \<and> ending = Exit 0)"
  using assms
proof (induction rule: agent_main.induct)
  case (FirstConfigFails err resets)
  then show ?case by (auto simp: cleanup_def dest: set_prefix)
next
  case (CleanedUp a b acts resets trace)
  then show ?case by (auto simp: cleanup_def set_shuffles dest: goroutine_register)
next
  case (NoResolvConf a b acts resets trace)
  then show ?case by (auto simp: cleanup_def set_shuffles dest: goroutine_register set_prefix)
next
  case (Panicked a b acts p resets trace)
  then show ?case by (auto simp: cleanup_def set_shuffles dest: goroutine_register set_prefix)
qed (simp_all add: cleanup_def)

lemma sample_inspect: "ow_inspect (sample_outside R) i = Inr sample_container" "ct_id sample_container = ''f00''"
  by (simp_all add: sample_outside_def sample_container_def)

lemma sample_refused:
  "admit_container (sample_outside silent_remote) i sample_container =
    ([WriteEvent (UnsignedImage ''web:1'' ''unavailable''), RemoveContainer i, RemoveImage ''sha''], Inr ())"
  by (simp add: admit_container_def sample_check silent_verdict followed_by_def) (simp add: sample_container_def)

text \<open>A feed whose start event registers the sample container.\<close>

definition sample_registration :: register_request where
  "sample_registration = \<lparr>reg_service = ''web'', reg_instance = ''c1'', reg_addresses = [],
     reg_ports = [Some \<lparr>port_name = Some ''80'', port_port = Some (of_nat (fst (parse_uint 16 ''8080''))), port_protocol = Some ''tcp''\<rparr>],
     reg_metrics_port = Some 0\<rparr>"

lemma sample_loop:
  "event_loop (sample_outside sample_remote) [DockerEvent (sample_event ActionStart)] = ([CallRegister sample_registration], Inr ())"
proof -
  have i: "container_instance ''/c1'' = ''c1''" "split_n2 ''/'' ''80/tcp'' = [''80'', ''tcp'']" by code_simp+
  show ?thesis
    by (simp add: sample_start admit_container_def sample_check sample_verdict followed_by_def)
      (simp add: register_service_from_container_def sample_container_def sample_registration_def i)
qed

lemma sample_goroutines:
  "goroutines (sample_outside sample_remote) (Inr []) [DockerEvent (sample_event ActionStart)] [] [CallRegister sample_registration]
    [CallRegister sample_registration]"
  unfolding goroutines_def sample_loop by simp

theorem process_registers_only_admissible_witness:
  "agent_main (sample_outside sample_remote) (Inr ()) (Inr ()) (Inr []) [DockerEvent (sample_event ActionStart)]
      [ResetNode, Act (CallRegister sample_registration), ResetNode] (Exit 0)
    \<and> (\<exists>i ctr. ow_inspect (sample_outside sample_remote) i = Inr ctr \<and> admissible (sample_outside sample_remote) ctr
        \<and> ct_labels ctr ''ssle.service'' = Some ''web'')"
proof -
  have "agent_main (sample_outside sample_remote) (Inr ()) (Inr ()) (Inr []) [DockerEvent (sample_event ActionStart)]
      [ResetNode, Act (CallRegister sample_registration), ResetNode] (snd cleanup)"
    by (rule CleanedUp [OF refl refl sample_goroutines]) (auto simp: cleanup_def)
  then have run: "agent_main (sample_outside sample_remote) (Inr ()) (Inr ()) (Inr []) [DockerEvent (sample_event ActionStart)]
      [ResetNode, Act (CallRegister sample_registration), ResetNode] (Exit 0)" by (simp add: cleanup_def)
  with process_registers_only_admissible [OF run] show ?thesis by (auto simp: sample_registration_def)
qed

text \<open>The clean-up does not stop the goroutines: a process may end well and have sent, after the Reset of its clean-up,
  one more Register, for a container that the event loop admits; what that stores stays after the end of the
  process, attached to a lease that nothing renews any more.\<close>
theorem registration_survives_stop:
  assumes "prefix (us @ [CallRegister req]) (fst (event_loop W fs))"
    and "etcd_live E ok kvs leases" "ok e" "caller (kvs e) (Some p) agent_certificate_ou = Inr node"
    and "card (leases e) < 2 ^ 62" "fill_addresses p (registered_spec node req) = Inr spec"
    and "length (lease_key (ns_datacenter node) (ns_name node)) < 2 ^ 17" "txn_size (register_txn node req spec 0) < 2 ^ 20"
  shows "\<exists>late. agent_main W (Inr ()) (Inr ()) listed fs (ResetNode # map Act us @ fst cleanup @ [late]) (snd cleanup)
    \<and> (\<exists>l. \<forall>k \<in> service_keys node (reg_service req) (reg_instance req).
         holds_spec (kvs (call_registry E (Some p) late e)) k spec l)"
proof -
  have g: "goroutines W listed fs [] (us @ [CallRegister req]) (us @ [CallRegister req])"
    using assms(1) by (simp add: goroutines_def)
  have t: "map Act us @ fst cleanup @ [Act (CallRegister req)] \<in> shuffles (map Act (us @ [CallRegister req])) (fst cleanup)"
    by (induction us) (auto simp: cleanup_def Cons_in_shuffles_iff)
  have "agent_main W (Inr ()) (Inr ()) listed fs (ResetNode # map Act us @ fst cleanup @ [Act (CallRegister req)]) (snd cleanup)"
    by (rule CleanedUp [OF refl refl g _ t]) simp
  moreover obtain e' l where "register E (Some p) req e = (Inr spec, e')"
    "\<forall>k \<in> service_keys node (reg_service req) (reg_instance req). holds_spec (kvs e') k spec l"
    using etcd_live.register_total [OF assms(2,3,5,4) refl assms(6-8)] by blast
  then have "\<exists>l. \<forall>k \<in> service_keys node (reg_service req) (reg_instance req).
      holds_spec (kvs (call_registry E (Some p) (Act (CallRegister req)) e)) k spec l" by auto
  ultimately show ?thesis by blast
qed

lemma sample_registration_size:
  "txn_size (register_txn sample_node sample_registration
     ((registered_spec sample_node sample_registration)\<lparr>spec_addresses := [''10.0.0.7'']\<rparr>) 0) < 2 ^ 20"
proof -
  let ?spec = "(registered_spec sample_node sample_registration)\<lparr>spec_addresses := [''10.0.0.7'']\<rparr>"
  have p: "parse_uint 16 ''8080'' = (8080, None)" by (simp add: parse_uint_def digit_val_def is_digit_def)
  have d: "digit_char 8 = CHR ''8''" "digit_char 0 = CHR ''0''" by code_simp+
  have t: "show_nat 8080 = ''8080''" "show_nat 0 = ''0''" by (simp_all add: show_nat.simps d)
  have "json_spec ?spec = JObj [(''service_name'', JStr ''web''), (''instance'', JStr ''c1''), (''location'', JStr ''eu''),
      (''datacenter'', JStr ''dc1''), (''node'', JStr ''n1''), (''addresses'', JArr [JStr ''10.0.0.7'']),
      (''ports'', JArr [JObj [(''name'', JStr ''80''), (''port'', JNum ''8080''), (''protocol'', JStr ''tcp'')]]),
      (''metrics_port'', JNum ''0'')]"
    by (simp add: sample_registration_def p t registered_spec_def sample_node_def json_spec_def json_port_ptr_def json_port_def
        json_uint32_def opt_member_def slice_member_def)
  then have "length (marshal_spec ?spec) = length (json_print (JObj [(''service_name'', JStr ''web''), (''instance'', JStr ''c1''),
      (''location'', JStr ''eu''), (''datacenter'', JStr ''dc1''), (''node'', JStr ''n1''), (''addresses'', JArr [JStr ''10.0.0.7'']),
      (''ports'', JArr [JObj [(''name'', JStr ''80''), (''port'', JNum ''8080''), (''protocol'', JStr ''tcp'')]]),
      (''metrics_port'', JNum ''0'')]))"
    by (simp only: marshal_spec_def)
  also have "\<dots> = 180" by code_simp
  finally show ?thesis
    by (simp add: txn_size_def register_txn_def) (simp add: sample_registration_def sample_service_keys)
qed

theorem registration_survives_stop_witness:
  "\<exists>late. agent_main (sample_outside sample_remote) (Inr ()) (Inr ()) (Inr []) [DockerEvent (sample_event ActionStart)]
      [ResetNode, ResetNode, late] (Exit 0)
    \<and> store_kvs (call_registry store_etcd (Some agent_peer) late sample_store) ''svc/web/eu/dc1/n1/c1'' \<noteq> None"
proof -
  have pre: "prefix ([] @ [CallRegister sample_registration])
      (fst (event_loop (sample_outside sample_remote) [DockerEvent (sample_event ActionStart)]))"
    unfolding sample_loop by simp
  have spec: "fill_addresses agent_peer (registered_spec sample_node sample_registration) =
      Inr ((registered_spec sample_node sample_registration)\<lparr>spec_addresses := [''10.0.0.7'']\<rparr>)"
  proof -
    obtain port where "split_host_port (peer_address agent_peer) = Inr (''10.0.0.7'', port)"
      using sample_spec_filled
      by (auto simp: fill_addresses_def registered_spec_def sample_request_def sample_spec_def split: sum.splits)
    then show ?thesis by (simp add: fill_addresses_def registered_spec_def sample_registration_def)
  qed
  have k: "''svc/web/eu/dc1/n1/c1'' \<in> service_keys sample_node (reg_service sample_registration) (reg_instance sample_registration)"
    by (simp add: service_keys_def sample_registration_def sample_service_keys)
  obtain late l where "agent_main (sample_outside sample_remote) (Inr ()) (Inr ()) (Inr []) [DockerEvent (sample_event ActionStart)]
      (ResetNode # map Act [] @ fst cleanup @ [late]) (snd cleanup)"
    "\<forall>k \<in> service_keys sample_node (reg_service sample_registration) (reg_instance sample_registration).
       holds_spec (store_kvs (call_registry store_etcd (Some agent_peer) late sample_store)) k
         ((registered_spec sample_node sample_registration)\<lparr>spec_addresses := [''10.0.0.7'']\<rparr>) l"
    using registration_survives_stop [OF pre etcd_ref_live sample_store_wf sample_caller(1) sample_empty spec sample_sizes(1)
        sample_registration_size, of "Inr []"] by blast
  with k show ?thesis by (intro exI [of _ late]) (auto simp: cleanup_def holds_spec_def)
qed

text \<open>The event of a container's start.\<close>

definition start_event :: "string \<Rightarrow> docker_event" where
  "start_event i = \<lparr>de_container = True, de_action = ActionStart, de_id = i, de_attributes = [''manager'' \<mapsto> ''ssle'']\<rparr>"

definition start_events :: "string list \<Rightarrow> feed list" where
  "start_events is = map (\<lambda>i. DockerEvent (start_event i)) is"

lemma handle_start:
  "handle_event W (start_event i) =
    (case ow_inspect W i of Inl _ \<Rightarrow> ([], Inr ()) | Inr ctr \<Rightarrow> admit_container W i ctr)"
  by (simp add: start_event_def handle_event_def handle_event_container_def split: sum.split)

lemma event_loop_append: "event_loop W (fs @ gs) = followed_by (event_loop W fs) (event_loop W gs)"
  by (induction W fs rule: event_loop.induct) (simp_all add: followed_by_assoc)

lemma startup_events:
  "\<forall>i \<in> set xs. \<exists>ctr. ow_inspect W i = Inr ctr \<and> ct_id ctr = i \<Longrightarrow>
    consistency_loop W (xs @ ys) = followed_by (event_loop W (start_events xs)) (consistency_loop W ys)"
  by (induction xs) (auto simp: start_events_def handle_start followed_by_assoc)

text \<open>C29: the job at the start treats the listed containers exactly as the event loop would treat their start
  events, in the order of the list, as long as Docker can inspect them. Where an inspection fails
  the two differ: the loop goes on with the next event, the job ends, and the containers after it
  are neither verified nor registered.\<close>
theorem startup_as_events:
  assumes "\<forall>i \<in> set xs. \<exists>ctr. ow_inspect W i = Inr ctr \<and> ct_id ctr = i"
  shows "startup_consistency_job W (Inr xs) = event_loop W (start_events xs)
    \<and> (\<forall>i err ys. ow_inspect W i = Inl err \<longrightarrow>
        startup_consistency_job W (Inr (xs @ i # ys)) = startup_consistency_job W (Inr xs)
        \<and> event_loop W (start_events (xs @ i # ys)) = event_loop W (start_events (xs @ ys)))"
  using startup_events [OF assms] startup_events [OF assms, of "[]"]
  by (simp add: startup_consistency_job_def start_events_def event_loop_append handle_start)

theorem startup_as_events_witness:
  "startup_consistency_job (sample_outside silent_remote) (Inr [''f00'']) =
    event_loop (sample_outside silent_remote) (start_events [''f00''])"
  using startup_as_events [of "[''f00'']" "sample_outside silent_remote"]
  by (simp add: sample_outside_def sample_container_def)

text \<open>An image that only exists on the machine has no signature to look for: its container and the image
  are removed, and the reason is written to the events log.\<close>
theorem local_image_removed:
  assumes "ow_inspect W i = Inr ctr" "ctr_label ctr ''ssle.issuer'' = issuer" "issuer \<noteq> []"
    and "ow_identity W issuer (ctr_label ctr ''ssle.san'') = Inr ()"
    and "ow_image W (ct_image ctr) = Inr img" "im_repo_digests img = []"
  shows "handle_event W (start_event i) =
    ([WriteEvent (UnsignedImage (case im_repo_tags img of [] \<Rightarrow> ct_image ctr | t # _ \<Rightarrow> t) ''local image cannot be verified''),
      RemoveContainer i, RemoveImage (ct_image ctr)], Inr ())"
proof -
  have v: "verify_image_signature (ow_remote W) (certificate_identity ctr) img = Inl (Failure ''local image cannot be verified'')"
    using assms(6) by (simp add: verify_image_signature_def bundle_from_image_def)
  show ?thesis using assms by (simp add: handle_start admit_container_def check_image_def v followed_by_def)
qed

theorem local_image_removed_witness:
  "handle_event ((sample_outside sample_remote)\<lparr>ow_image := (\<lambda>i. Inr \<lparr>im_repo_tags = [], im_repo_digests = []\<rparr>)\<rparr>) (start_event ''f00'') =
    ([WriteEvent (UnsignedImage ''sha'' ''local image cannot be verified''), RemoveContainer ''f00'', RemoveImage ''sha''], Inr ())"
  using local_image_removed [of "(sample_outside sample_remote)\<lparr>ow_image := (\<lambda>i. Inr \<lparr>im_repo_tags = [], im_repo_digests = []\<rparr>)\<rparr>"
    "''f00''" sample_container "''idp''" "\<lparr>im_repo_tags = [], im_repo_digests = []\<rparr>"]
  by (simp add: sample_outside_def sample_container_def ctr_label_def)

section \<open>An annotation that ends the agent\<close>

lemma payload_panics:
  assumes "certificate_chain layer = Inr chain"
    and "unmarshal_map (annotation layer ''dev.sigstore.cosign/bundle'') Map.empty = Inr data"
    and "\<forall>ms. data ''Payload'' \<noteq> Some (JObj ms)"
  shows "bundle_verification_material layer True s = Inl (Panic ''interface conversion'')"
proof -
  have "must_object data ''Payload'' = Inl (Panic ''interface conversion'')"
    using assms(3) by (auto simp: must_object_def split: option.split json.split)
  then show ?thesis using assms(1,2) by (simp add: bundle_verification_material_def tlog_entries_def)
qed

text \<open>A loop that panics on its first event, in a process that found no containers at its start: nothing but Resets is
  ever called.\<close>

lemma panicking_loop:
  assumes "event_loop W fs = ([], Inl (Panic p))" "startup_consistency_job W listed = ([], Inr ())"
  shows "agent_main W (Inr ()) (Inr ()) listed fs [ResetNode] (GoroutinePanic p)"
    "agent_main W (Inr ()) (Inr ()) listed fs trace ending \<Longrightarrow>
      set trace = {ResetNode} \<and> (\<forall>q. ending = GoroutinePanic q \<longrightarrow> q = p)"
proof -
  have g: "goroutines W listed fs a b acts \<longleftrightarrow> a = [] \<and> b = [] \<and> acts = []" for a b acts
    using assms by (auto simp: goroutines_def)
  show "agent_main W (Inr ()) (Inr ()) listed fs [ResetNode] (GoroutinePanic p)"
    by (rule Panicked [where a = "[]" and b = "[]" and acts = "[]" and resets = "[]"]) (auto simp: g panicked_def assms)
  assume "agent_main W (Inr ()) (Inr ()) listed fs trace ending"
  then show "set trace = {ResetNode} \<and> (\<forall>q. ending = GoroutinePanic q \<longrightarrow> q = p)"
    by (cases rule: agent_main.cases) (auto simp: g panicked_def assms cleanup_def dest: set_prefix)
qed

text \<open>C36: an image from a registry that serves, under the tag of its signature, a layer whose bundle annotation
  is a JSON object without an object \<^verbatim>\<open>Payload\<close> ends the agent: the assertion on it is not checked.
  The panic is in a goroutine, so the container is not removed and the node is not reset; what the
  node registered before stays.\<close>
theorem malformed_annotation_ends_agent:
  assumes "ow_inspect W i = Inr ctr" "ctr_label ctr ''ssle.issuer'' = issuer" "issuer \<noteq> []"
    and "ow_identity W issuer (ctr_label ctr ''ssle.san'') = Inr ()"
    and "ow_image W (ct_image ctr) = Inr img" "signed_by_tag (ow_remote W) img mf"
    and "rm_parse_manifest (ow_remote W) mf = Inr (layer # ls)" "desc_media_type layer = simple_signing_media"
    and "certificate_chain layer = Inr chain"
    and "unmarshal_map (annotation layer ''dev.sigstore.cosign/bundle'') Map.empty = Inr data"
    and "\<forall>ms. data ''Payload'' \<noteq> Some (JObj ms)"
  shows "event_loop W (DockerEvent (start_event i) # fs) = ([], Inl (Panic ''interface conversion''))
    \<and> agent_main W (Inr ()) (Inr ()) (Inr []) (DockerEvent (start_event i) # fs) [ResetNode] (GoroutinePanic ''interface conversion'')
    \<and> (\<forall>trace ending. agent_main W (Inr ()) (Inr ()) (Inr []) (DockerEvent (start_event i) # fs) trace ending \<longrightarrow>
        set trace = {ResetNode} \<and> (\<forall>p. ending = GoroutinePanic p \<longrightarrow> p = ''interface conversion''))"
proof -
  have "verify_image_signature (ow_remote W) (certificate_identity ctr) img = Inl (Panic ''interface conversion'')"
    unfolding verdict_of_manifest [OF assms(6)]
    using assms(7,8) payload_panics [OF assms(9-11), of False] by (simp add: manifest_verdict_def layer_bundle_def)
  then have loop: "event_loop W (DockerEvent (start_event i) # fs) = ([], Inl (Panic ''interface conversion''))"
    using assms(1-5) by (simp add: handle_start admit_container_def check_image_def followed_by_def)
  have job: "startup_consistency_job W (Inr []) = ([], Inr ())" by (simp add: startup_consistency_job_def)
  note ends = panicking_loop [OF loop job]
  from loop ends show ?thesis by blast
qed

definition broken_layer :: descriptor where
  "broken_layer = \<lparr>desc_media_type = simple_signing_media,
     desc_digest = \<lparr>hash_algorithm = ''sha256'', hash_hex = ''aa''\<rparr>,
     desc_annotations = [''dev.sigstore.cosign/certificate'' \<mapsto> pem_encode ''CERTIFICATE'' ''der'',
       ''dev.sigstore.cosign/bundle'' \<mapsto> ''{}'']\<rparr>"

theorem malformed_annotation_ends_agent_witness:
  "event_loop (sample_outside (sample_remote\<lparr>rm_parse_manifest := (\<lambda>mf. Inr [broken_layer])\<rparr>)) [DockerEvent (start_event ''f00'')] =
    ([], Inl (Panic ''interface conversion''))"
proof -
  let ?R = "sample_remote\<lparr>rm_parse_manifest := (\<lambda>mf. Inr [broken_layer])\<rparr>"
  have s: "signed_by_tag ?R (sample_image ''web@sha256:aa'') ''signed''"
    by (simp add: signed_by_tag_def sample_remote_def sample_image_def hash_or_zero_def)
  have p: "json_parse ''{}'' = Some (JObj [])" by code_simp
  then have u: "unmarshal_map (annotation broken_layer ''dev.sigstore.cosign/bundle'') Map.empty = Inr Map.empty"
    by (simp add: unmarshal_map_def broken_layer_def annotation_def object_map_def)
  have c: "certificate_chain broken_layer = Inr [''der'']"
    by (simp add: certificate_chain_def broken_layer_def annotation_def pem_decode_encode)
  have o: "ow_inspect (sample_outside ?R) ''f00'' = Inr sample_container" "ow_remote (sample_outside ?R) = ?R"
    "ow_identity (sample_outside ?R) ''idp'' (ctr_label sample_container ''ssle.san'') = Inr ()"
    "ow_image (sample_outside ?R) (ct_image sample_container) = Inr (sample_image ''web@sha256:aa'')"
    "ctr_label sample_container ''ssle.issuer'' = ''idp''" "desc_media_type broken_layer = simple_signing_media"
    by (simp_all add: sample_outside_def sample_container_def ctr_label_def broken_layer_def)
  show ?thesis
    using malformed_annotation_ends_agent [of "sample_outside ?R" "''f00''" sample_container "''idp''" _ "''signed''" broken_layer "[]",
      OF o(1,5) _ o(3,4) _ _ o(6) c u, of "[]"] s o(2)
    by (simp del: event_loop.simps)
qed

end
