(* ===== verification/AgentDns.thy ===== *)
theory AgentDns
  imports AgentApi
begin

text \<open>
  agent/dns.go: the name server of a node. Names below cluster.internal are turned into a \<^verbatim>\<open>Discover\<close>
  request, label by label from the right, and the addresses of the services found become the answer;
  every other name is forwarded to the servers of the host, one after the other. The constants of
  the DNS package are type A = class IN = 1, type AAAA = 28 and the name error code 3.
\<close>

record dns_question =
  dq_name :: string
  dq_class :: "16 word"

datatype rr = RR_A string string | RR_AAAA string string

definition type_a :: "16 word" where "type_a = 1"
definition type_aaaa :: "16 word" where "type_aaaa = 28"
definition rcode_name_error :: "16 word" where "rcode_name_error = 3"

section \<open>The cluster's names\<close>

text \<open>The thresholds are the code's: a node is taken from the fifth label on, an instance never.\<close>

definition dns_request :: "string list \<Rightarrow> discover_request" where
  "dns_request parts =
     (let last_idx = length parts - 1 in
      \<lparr>disc_service = parts ! last_idx,
       disc_location = (if last_idx > 0 then Some (parts ! (last_idx - 1)) else None),
       disc_datacenter = (if last_idx > 1 then Some (parts ! (last_idx - 2)) else None),
       disc_node = (if last_idx > 3 then Some (parts ! (last_idx - 3)) else None),
       disc_instance = (if last_idx > 4 then Some (parts ! (last_idx - 4)) else None)\<rparr>)"

text \<open>The records for one address; a host name is skipped.\<close>

definition address_records :: "dns_question \<Rightarrow> string \<Rightarrow> rr list" where
  "address_records q addr =
     (case parse_addr addr of
        Some ip \<Rightarrow>
          if addr_is4 ip \<and> dq_class q = type_a then [RR_A (dq_name q) (addr_as_slice ip)]
          else if addr_is6 ip \<and> dq_class q = type_a then [RR_AAAA (dq_name q) (addr_as_slice ip)]
          else []
      | None \<Rightarrow> [])"

definition service_records :: "dns_question \<Rightarrow> service_spec list \<Rightarrow> rr list" where
  "service_records q specs = concat (map (\<lambda>s. concat (map (address_records q) (spec_addresses s))) specs)"

text \<open>The loop over the questions, with the response code and the answers so far.\<close>

fun dns_loop ::
  "(discover_request \<Rightarrow> service_spec list outcome) \<Rightarrow> dns_question list \<Rightarrow> 16 word \<Rightarrow> rr list \<Rightarrow> 16 word \<times> rr list" where
  "dns_loop ask [] rcode answers = (rcode, answers)"
| "dns_loop ask (q # qs) rcode answers =
     (let cut = cut_suffix (dq_name q) ''.cluster.internal.''; path = fst cut; found = snd cut;
          rcode = (if \<not> found then rcode_name_error else rcode);
          parts = split_on (CHR ''.'') path
      in if dq_class q \<noteq> type_a \<and> dq_class q \<noteq> type_aaaa then dns_loop ask qs rcode answers
         else if length parts < 1 \<or> length parts > 5 then (rcode_name_error, answers)
         else
           (case ask (dns_request parts) of
              Inl _ \<Rightarrow> (rcode_name_error, answers)
            | Inr specs \<Rightarrow> dns_loop ask qs rcode (answers @ service_records q specs)))"

text \<open>The response code of the request is kept; answers are sent only with code zero.\<close>

definition serve_dns ::
  "(discover_request \<Rightarrow> service_spec list outcome) \<Rightarrow> 16 word \<Rightarrow> dns_question list \<Rightarrow> 16 word \<times> rr list" where
  "serve_dns ask rcode qs =
     (let (rcode, answers) = dns_loop ask qs rcode [] in (rcode, if rcode = 0 then answers else []))"

section \<open>Forwarding\<close>

text \<open>\<open>exchange s n\<close> is the n-th attempt with a server; \<open>None\<close> means that nothing is sent back.\<close>

fun forward_attempts :: "(nat \<Rightarrow> 'r outcome) \<Rightarrow> nat \<Rightarrow> nat \<Rightarrow> 'r option" where
  "forward_attempts exch n 0 = None"
| "forward_attempts exch n (Suc k) =
     (case exch n of
        Inl _ \<Rightarrow> forward_attempts exch (Suc n) k
      | Inr r \<Rightarrow> Some r)"

fun forward_dns :: "(string \<Rightarrow> nat \<Rightarrow> 'r outcome) \<Rightarrow> string \<Rightarrow> nat \<Rightarrow> string list \<Rightarrow> 'r option" where
  "forward_dns exch port attempts [] = None"
| "forward_dns exch port attempts (s # ss) =
     (case forward_attempts (exch (s @ '':'' @ port)) 0 attempts of
        Some r \<Rightarrow> Some r
      | None \<Rightarrow> forward_dns exch port attempts ss)"

text \<open>\<^verbatim>\<open>NewForwardHandler\<close> from what the library reads in resolv.conf: both timeouts are in nanoseconds.\<close>

record resolv_conf =
  rc_servers :: "string list"
  rc_port :: string
  rc_attempts :: nat
  rc_timeout :: int

record forward_handler =
  fh_conf :: resolv_conf
  fh_read_timeout :: int
  fh_write_timeout :: int

definition new_forward_handler :: "resolv_conf outcome \<Rightarrow> forward_handler outcome" where
  "new_forward_handler conf =
     (case conf of
        Inl _ \<Rightarrow> Inl (Fatal ''Failed to read DNS configuration'')
      | Inr rc \<Rightarrow> Inr \<lparr>fh_conf = rc, fh_read_timeout = rc_timeout rc * 1000000000, fh_write_timeout = rc_timeout rc * 1000000000\<rparr>)"

definition serve_forward :: "forward_handler \<Rightarrow> (string \<Rightarrow> nat \<Rightarrow> 'r outcome) \<Rightarrow> 'r option" where
  "serve_forward h exch = forward_dns exch (rc_port (fh_conf h)) (rc_attempts (fh_conf h)) (rc_servers (fh_conf h))"

section \<open>Facts\<close>

text \<open>One round: it ends the loop with an error, skips the question or adds its records.\<close>

definition round_code :: "dns_question \<Rightarrow> 16 word \<Rightarrow> 16 word" where
  "round_code q rcode =
     (if \<not> snd (cut_suffix (dq_name q) ''.cluster.internal.'') then rcode_name_error else rcode)"

lemma dns_loop_round:
  obtains (failed) "dns_loop ask (q # qs) rcode answers = (rcode_name_error, answers)"
  | (skipped) "dns_loop ask (q # qs) rcode answers = dns_loop ask qs (round_code q rcode) answers"
  | (answered) parts specs where "ask (dns_request parts) = Inr specs"
    "dns_loop ask (q # qs) rcode answers = dns_loop ask qs (round_code q rcode) (answers @ service_records q specs)"
proof -
  let ?parts = "split_on (CHR ''.'') (fst (cut_suffix (dq_name q) ''.cluster.internal.''))"
  consider (other) "dq_class q \<noteq> type_a \<and> dq_class q \<noteq> type_aaaa"
    | (labels) "\<not> (dq_class q \<noteq> type_a \<and> dq_class q \<noteq> type_aaaa)" "length ?parts < 1 \<or> length ?parts > 5"
    | (asked) "\<not> (dq_class q \<noteq> type_a \<and> dq_class q \<noteq> type_aaaa)" "\<not> (length ?parts < 1 \<or> length ?parts > 5)"
    by blast
  then show thesis
  proof cases
    case other
    then show thesis by (intro skipped) (simp add: Let_def round_code_def)
  next
    case labels
    then show thesis by (intro failed) (simp only: dns_loop.simps Let_def if_False if_True)
  next
    case asked
    show thesis
    proof (cases "ask (dns_request ?parts)")
      case (Inl err)
      with asked show thesis by (intro failed) (simp only: dns_loop.simps Let_def if_False if_True sum.case)
    next
      case (Inr specs)
      with asked show thesis
        by (intro answered [OF Inr])
          (simp only: dns_loop.simps Let_def if_False if_True sum.case round_code_def)
    qed
  qed
qed

lemma dns_loop_answers:
  "set (snd (dns_loop ask qs rcode answers)) \<subseteq> set answers \<union>
    {r. \<exists>q \<in> set qs. \<exists>parts specs. ask (dns_request parts) = Inr specs \<and> r \<in> set (service_records q specs)}"
proof (induction qs arbitrary: rcode answers)
  case (Cons q qs)
  show ?case
  proof (rule dns_loop_round [of ask q qs rcode answers])
    assume e: "dns_loop ask (q # qs) rcode answers = (rcode_name_error, answers)"
    show ?thesis unfolding e by auto
  next
    assume e: "dns_loop ask (q # qs) rcode answers = dns_loop ask qs (round_code q rcode) answers"
    show ?thesis unfolding e using Cons [of "round_code q rcode" answers] by auto
  next
    fix parts specs
    assume a: "ask (dns_request parts) = Inr specs"
      and e: "dns_loop ask (q # qs) rcode answers = dns_loop ask qs (round_code q rcode) (answers @ service_records q specs)"
    show ?thesis unfolding e using Cons [of "round_code q rcode" "answers @ service_records q specs"] a by auto
  qed
qed simp

lemma dns_loop_rcode:
  "rcode \<noteq> 0 \<or> (\<exists>q \<in> set qs. \<not> snd (cut_suffix (dq_name q) ''.cluster.internal.'')) \<Longrightarrow>
   fst (dns_loop ask qs rcode answers) \<noteq> 0"
proof (induction qs arbitrary: rcode answers)
  case (Cons q qs)
  have code: "rcode_name_error \<noteq> 0" by (simp add: rcode_name_error_def)
  then have prem: "round_code q rcode \<noteq> 0 \<or> (\<exists>q \<in> set qs. \<not> snd (cut_suffix (dq_name q) ''.cluster.internal.''))"
    using Cons.prems by (auto simp: round_code_def)
  show ?case
  proof (rule dns_loop_round [of ask q qs rcode answers])
    assume e: "dns_loop ask (q # qs) rcode answers = (rcode_name_error, answers)"
    show ?thesis unfolding e using code by simp
  next
    assume e: "dns_loop ask (q # qs) rcode answers = dns_loop ask qs (round_code q rcode) answers"
    show ?thesis unfolding e by (rule Cons.IH [OF prem])
  next
    fix parts specs
    assume e: "dns_loop ask (q # qs) rcode answers = dns_loop ask qs (round_code q rcode) (answers @ service_records q specs)"
    show ?thesis unfolding e by (rule Cons.IH [OF prem])
  qed
qed simp

lemma forward_attempts_first:
  "forward_attempts exch n k =
    (case find (\<lambda>i. is_ok (exch i)) [n..<n + k] of None \<Rightarrow> None | Some i \<Rightarrow> Some (projr (exch i)))"
proof (induction k arbitrary: n)
  case (Suc k)
  have "[n..<n + Suc k] = n # [Suc n..<Suc n + k]" by (simp add: upt_conv_Cons)
  then show ?case using Suc [of "Suc n"] by (cases "exch n") simp_all
qed simp

section \<open>Properties\<close>

text \<open>A name outside the cluster's zone, in any of the questions, is answered with an error code and
  without records.\<close>
theorem dns_outside_zone_no_answers:
  assumes "\<exists>q \<in> set qs. \<not> snd (cut_suffix (dq_name q) ''.cluster.internal.'')"
  shows "fst (serve_dns ask rcode qs) \<noteq> 0 \<and> snd (serve_dns ask rcode qs) = []"
  using dns_loop_rcode [of rcode qs ask "[]"] assms by (simp add: serve_dns_def split_beta Let_def)

theorem dns_outside_zone_no_answers_witness:
  "snd (serve_dns (\<lambda>r. Inr []) 0 [\<lparr>dq_name = ''example.com.'', dq_class = 1\<rparr>]) = []"
proof -
  have "\<not> snd (cut_suffix ''example.com.'' ''.cluster.internal.'')" by code_simp
  then show ?thesis
    using dns_outside_zone_no_answers [of "[\<lparr>dq_name = ''example.com.'', dq_class = 1\<rparr>]" "\<lambda>r. Inr []" 0] by simp
qed

text \<open>Every record of an answer has the name of a question and the bytes of an address, of a service that
  a \<^verbatim>\<open>Discover\<close> call returned, that parses: four of them in an A record, sixteen in an AAAA record.\<close>
theorem dns_records_from_services:
  assumes "r \<in> set (snd (serve_dns ask rcode qs))"
  shows "\<exists>q \<in> set qs. \<exists>req specs spec addr ip. ask req = Inr specs \<and> spec \<in> set specs \<and> addr \<in> set (spec_addresses spec)
    \<and> parse_addr addr = Some ip
    \<and> (r = RR_A (dq_name q) (addr_as_slice ip) \<and> length (addr_as_slice ip) = 4 \<or> r = RR_AAAA (dq_name q) (addr_as_slice ip) \<and> addr_is6 ip)"
proof -
  have "r \<in> set (snd (dns_loop ask qs rcode []))"
    using assms by (auto simp: serve_dns_def split_beta Let_def split: if_splits)
  then obtain q parts specs where q: "q \<in> set qs" "ask (dns_request parts) = Inr specs" "r \<in> set (service_records q specs)"
    using dns_loop_answers [of ask qs rcode "[]"] by auto
  from q(3) obtain spec addr where a: "spec \<in> set specs" "addr \<in> set (spec_addresses spec)" "r \<in> set (address_records q addr)"
    by (auto simp: service_records_def)
  obtain ip where "parse_addr addr = Some ip"
    "r = RR_A (dq_name q) (addr_as_slice ip) \<and> addr_is4 ip \<or> r = RR_AAAA (dq_name q) (addr_as_slice ip) \<and> addr_is6 ip"
  proof (cases "parse_addr addr")
    case (Some ip)
    with a(3) show thesis by (intro that [of ip]) (auto simp: address_records_def split: if_splits)
  qed (use a(3) in \<open>simp add: address_records_def\<close>)
  moreover have "length (addr_as_slice ip) = 4" if "addr_is4 ip" using that by (cases ip) simp_all
  ultimately show ?thesis using q(1,2) a(1,2) by blast
qed

theorem dns_records_from_services_witness:
  "\<exists>addr ip. addr \<in> set (spec_addresses sample_spec) \<and> parse_addr addr = Some ip
    \<and> RR_A ''web.cluster.internal.'' [CHR 0x0A, CHR 0x00, CHR 0x00, CHR 0x07] = RR_A ''web.cluster.internal.'' (addr_as_slice ip)"
proof -
  have "serve_dns (\<lambda>r. Inr [sample_spec]) 0 [\<lparr>dq_name = ''web.cluster.internal.'', dq_class = 1\<rparr>] =
      (0, [RR_A ''web.cluster.internal.'' [CHR 0x0A, CHR 0x00, CHR 0x00, CHR 0x07]])" by code_simp
  then have "RR_A ''web.cluster.internal.'' [CHR 0x0A, CHR 0x00, CHR 0x00, CHR 0x07] \<in>
      set (snd (serve_dns (\<lambda>r. Inr [sample_spec]) 0 [\<lparr>dq_name = ''web.cluster.internal.'', dq_class = 1\<rparr>]))" by simp
  from dns_records_from_services [OF this] show ?thesis by auto
qed

text \<open>The name with the five labels instance, node, datacenter, location and service is accepted, but its
  request names the node only; with the four labels from the node on, not even that. No name that is
  accepted ever asks for an instance.\<close>
theorem dns_request_drops_labels:
  shows "dns_request [inst, node, dc, loc, svc] =
      \<lparr>disc_service = svc, disc_location = Some loc, disc_datacenter = Some dc, disc_node = Some node, disc_instance = None\<rparr>
    \<and> dns_request [node, dc, loc, svc] =
      \<lparr>disc_service = svc, disc_location = Some loc, disc_datacenter = Some dc, disc_node = None, disc_instance = None\<rparr>
    \<and> (length parts \<le> 5 \<longrightarrow> disc_instance (dns_request parts) = None)"
  by (auto simp: dns_request_def Let_def)

theorem dns_request_drops_labels_witness:
  "disc_node (dns_request [''n1'', ''dc1'', ''eu'', ''web'']) = None
   \<and> disc_instance (dns_request [''c1'', ''n1'', ''dc1'', ''eu'', ''web'']) = None"
  using dns_request_drops_labels [of "''c1''" "''n1''" "''dc1''" "''eu''" "''web''" "[]"] by simp

text \<open>A forwarded query is answered with the first response of the configured servers, asked in order
  and each as often as configured; nothing is sent back exactly when every attempt fails.\<close>
theorem forward_first_response:
  shows "(\<forall>r. forward_dns exch port attempts servers = Some r \<longrightarrow>
      (\<exists>s \<in> set servers. \<exists>n < attempts. exch (s @ '':'' @ port) n = Inr r))
    \<and> (forward_dns exch port attempts servers = None \<longleftrightarrow>
      (\<forall>s \<in> set servers. \<forall>n < attempts. \<not> is_ok (exch (s @ '':'' @ port) n)))"
proof (induction exch port attempts servers rule: forward_dns.induct)
  case (2 exch port attempts s ss)
  let ?x = "exch (s @ '':'' @ port)"
  have att: "forward_attempts ?x 0 attempts =
      (case find (\<lambda>i. is_ok (?x i)) [0..<attempts] of None \<Rightarrow> None | Some i \<Rightarrow> Some (projr (?x i)))"
    using forward_attempts_first [of ?x 0 attempts] by simp
  show ?case
  proof (cases "find (\<lambda>i. is_ok (?x i)) [0..<attempts]")
    case None
    then have "\<forall>n < attempts. \<not> is_ok (?x n)" by (simp add: find_None_iff)
    with None 2 att show ?thesis by auto
  next
    case (Some i)
    then have i: "i < attempts" "is_ok (?x i)" by (auto simp: find_Some_iff)
    then have "?x i = Inr (projr (?x i))" by (cases "?x i") simp_all
    with Some i att show ?thesis by auto
  qed
qed simp

theorem forward_first_response_witness:
  "forward_dns (\<lambda>s n. if s = ''b:53'' then Inr n else Inl auth_failure) ''53'' 2 [''a'', ''b''] \<noteq> (None :: nat option)"
  using forward_first_response [of "\<lambda>s n. if s = ''b:53'' then Inr n else Inl auth_failure" "''53''" 2 "[''a'', ''b'']"]
  by fastforce

end
