(* ===== verification/PromState.thy ===== *)
theory PromState
  imports ObserverApi NodeUtils
begin

text \<open>
  prom-sd-observer: the targets that Prometheus is to scrape, kept in step with the services of the
  datacenter. The state is a map from services to targets and the file that Prometheus reads; the
  inputs are the messages of the registry's watch and one bulk answer that is fetched at the side.
\<close>

section \<open>Targets\<close>

record service_key =
  sk_node :: string
  sk_service_name :: string
  sk_instance :: string

record prom_service =
  prom_targets :: "string list"
  prom_labels :: "(string, string) gomap"

definition json_prom :: "prom_service \<Rightarrow> json" where
  "json_prom p = JObj
     [(''targets'', JArr (map JStr (prom_targets p))),
      (''labels'', JObj (map (\<lambda>l. (fst l, JStr (snd l))) (sort_key fst (prom_labels p))))]"

text \<open>\<open>pm_can_truncate\<close> and \<open>pm_can_write\<close> say whether the operations on the open file succeed.\<close>

record prom_state =
  pm_targets :: "(service_key, prom_service) gomap"
  pm_file :: string
  pm_can_truncate :: bool
  pm_can_write :: bool

section \<open>\<^verbatim>\<open>writeServices\<close>\<close>

fun write_entries :: "bool \<Rightarrow> (service_key, prom_service) gomap \<Rightarrow> string" where
  "write_entries first [] = []"
| "write_entries first ((k, v) # m) =
     (if first then [] else '','') @ json_print (json_prom v) @ write_entries False m"

text \<open>\<open>ord\<close> is the order in which Go ranges over the map. A failing write is not noticed.\<close>

definition write_services ::
  "((service_key, prom_service) gomap \<Rightarrow> (service_key, prom_service) gomap) \<Rightarrow> prom_state \<Rightarrow> prom_state outcome" where
  "write_services ord st =
     (let buf = ''['' @ write_entries True (ord (pm_targets st)) @ '']'' in
      if \<not> pm_can_truncate st then Inl (Fatal ''truncate'')
      else Inr (st\<lparr>pm_file := (if pm_can_write st then buf else [])\<rparr>))"

definition load_prom_state ::
  "((service_key, prom_service) gomap \<Rightarrow> (service_key, prom_service) gomap) \<Rightarrow> bool \<Rightarrow> bool \<Rightarrow> prom_state outcome" where
  "load_prom_state ord trunc_ok write_ok =
     write_services ord \<lparr>pm_targets = [], pm_file = [], pm_can_truncate = trunc_ok, pm_can_write = write_ok\<rparr>"

section \<open>Updates\<close>

definition target_of :: "32 word \<Rightarrow> string \<Rightarrow> string" where
  "target_of port addr =
     (case parse_addr addr of
        Some ip \<Rightarrow>
          if addr_is4 ip then addr_string ip @ '':'' @ show_nat (unat port)
          else ''['' @ addr_string ip @ '']:'' @ show_nat (unat port)
      | None \<Rightarrow> addr @ '':'' @ show_nat (unat port))"

definition prom_service_of :: "service_spec \<Rightarrow> 32 word \<Rightarrow> string \<Rightarrow> string \<Rightarrow> prom_service" where
  "prom_service_of svc port location inst =
     \<lparr>prom_targets = map (target_of port) (spec_addresses svc),
      prom_labels =
        [(''__meta_location'', location), (''__meta_node'', location), (''__meta_datacenter'', location),
         (''__meta_prometheus_job'', location), (''__meta_instance'', inst)]\<rparr>"

text \<open>The nil fields that are dereferenced panic, those of the log line included.\<close>

definition update_service :: "service_spec \<Rightarrow> prom_state \<Rightarrow> prom_state outcome" where
  "update_service svc st =
     (case spec_metrics_port svc of
        None \<Rightarrow>
          (if spec_node svc = None \<or> spec_instance svc = None then Inl (Panic ''nil pointer dereference'') else Inr st)
      | Some port \<Rightarrow>
          if port = 0 then
            (if spec_node svc = None \<or> spec_instance svc = None then Inl (Panic ''nil pointer dereference'') else Inr st)
          else
            (case (spec_node svc, spec_service_name svc, spec_instance svc, spec_location svc) of
               (Some node, Some name, Some inst, Some location) \<Rightarrow>
                 Inr (st\<lparr>pm_targets :=
                   map_put \<lparr>sk_node = node, sk_service_name = name, sk_instance = inst\<rparr>
                     (prom_service_of svc port location inst) (pm_targets st)\<rparr>)
             | _ \<Rightarrow> Inl (Panic ''nil pointer dereference'')))"

fun update_services :: "service_spec list \<Rightarrow> prom_state \<Rightarrow> prom_state outcome" where
  "update_services [] st = Inr st"
| "update_services (svc # svcs) st =
     (case update_service svc st of
        Inl err \<Rightarrow> Inl err
      | Inr st \<Rightarrow> update_services svcs st)"

definition update_service_bulk ::
  "((service_key, prom_service) gomap \<Rightarrow> (service_key, prom_service) gomap) \<Rightarrow> service_spec list \<Rightarrow>
   prom_state \<Rightarrow> prom_state outcome" where
  "update_service_bulk ord svcs st =
     (case update_services svcs st of
        Inl err \<Rightarrow> Inl err
      | Inr st \<Rightarrow> write_services ord st)"

definition update_one_service ::
  "((service_key, prom_service) gomap \<Rightarrow> (service_key, prom_service) gomap) \<Rightarrow> service_spec \<Rightarrow>
   prom_state \<Rightarrow> prom_state outcome" where
  "update_one_service ord svc st =
     (case update_service svc st of
        Inl err \<Rightarrow> Inl err
      | Inr st \<Rightarrow> write_services ord st)"

definition delete_service ::
  "((service_key, prom_service) gomap \<Rightarrow> (service_key, prom_service) gomap) \<Rightarrow> string \<Rightarrow> string \<Rightarrow> string \<Rightarrow>
   prom_state \<Rightarrow> prom_state outcome" where
  "delete_service ord node name inst st =
     write_services ord (st\<lparr>pm_targets :=
       map_del \<lparr>sk_node = node, sk_service_name = name, sk_instance = inst\<rparr> (pm_targets st)\<rparr>)"

section \<open>The program\<close>

text \<open>The main loop receives the messages of the watch; the answer of \<^verbatim>\<open>GetDatacenterServices\<close> is applied
  by another goroutine, at any moment between them.\<close>

datatype prom_input = Message watch_response | BulkAnswer "service_spec list"

definition prom_handle ::
  "((service_key, prom_service) gomap \<Rightarrow> (service_key, prom_service) gomap) \<Rightarrow> prom_input \<Rightarrow>
   prom_state \<Rightarrow> prom_state outcome" where
  "prom_handle ord inp st =
     (case inp of
        Message (WatchUpdate svc) \<Rightarrow> update_one_service ord svc st
      | Message (WatchDelete d) \<Rightarrow> delete_service ord (wd_node d) (wd_service_name d) (wd_instance d) st
      | BulkAnswer svcs \<Rightarrow> update_service_bulk ord svcs st)"

definition prom_order ::
  "((service_key, prom_service) gomap \<Rightarrow> (service_key, prom_service) gomap) \<Rightarrow> bool" where
  "prom_order ord \<longleftrightarrow> (\<forall>m. mset (ord m) = mset m)"

text \<open>A run: the state after the inputs, each handled with some iteration order.\<close>

inductive prom_run :: "prom_state \<Rightarrow> prom_input list \<Rightarrow> prom_state \<Rightarrow> bool" where
  start: "prom_order ord \<Longrightarrow> load_prom_state ord True True = Inr st \<Longrightarrow> prom_run st [] st"
| step: "prom_run st0 inps st \<Longrightarrow> prom_order ord \<Longrightarrow> prom_handle ord inp st = Inr st' \<Longrightarrow>
    prom_run st0 (inps @ [inp]) st'"

inductive_cases prom_run_lastE: "prom_run st0 (inps @ [inp]) st"

section \<open>The abstract meaning of the inputs\<close>

fun spec_update :: "service_spec \<Rightarrow> (service_key \<rightharpoonup> prom_service) \<Rightarrow> (service_key \<rightharpoonup> prom_service)" where
  "spec_update svc m =
     (case (spec_metrics_port svc, spec_node svc, spec_service_name svc, spec_instance svc, spec_location svc) of
        (Some port, Some node, Some name, Some inst, Some location) \<Rightarrow>
          if port = 0 then m
          else m(\<lparr>sk_node = node, sk_service_name = name, sk_instance = inst\<rparr> \<mapsto> prom_service_of svc port location inst)
      | _ \<Rightarrow> m)"

fun spec_input :: "prom_input \<Rightarrow> (service_key \<rightharpoonup> prom_service) \<Rightarrow> (service_key \<rightharpoonup> prom_service)" where
  "spec_input (Message (WatchUpdate svc)) m = spec_update svc m"
| "spec_input (Message (WatchDelete d)) m =
     m(\<lparr>sk_node = wd_node d, sk_service_name = wd_service_name d, sk_instance = wd_instance d\<rparr> := None)"
| "spec_input (BulkAnswer svcs) m = fold spec_update svcs m"

section \<open>Facts\<close>

lemma write_entries_elems:
  "write_entries first m =
    (if m = [] then [] else (if first then [] else '','') @ json_elems (map (\<lambda>p. json_prom (snd p)) m))"
  by (induction first m rule: write_entries.induct) (auto split: list.split)

lemma write_entries_array:
  "''['' @ write_entries True m @ '']'' = json_print (JArr (map (\<lambda>p. json_prom (snd p)) m))"
  by (simp add: write_entries_elems split: list.split)

lemma nums_ok_prom: "nums_ok (json_prom p)"
proof -
  have "nums_ok_elems (map JStr xs)" for xs by (induction xs) auto
  moreover have "nums_ok_members (map (\<lambda>l. (fst l, JStr (snd l))) ls)" for ls :: "(string, string) gomap"
    by (induction ls) auto
  ultimately show ?thesis by (simp add: json_prom_def)
qed

text \<open>The file holds the targets, in some order.\<close>

definition file_mirrors :: "prom_state \<Rightarrow> bool" where
  "file_mirrors st \<longleftrightarrow>
     (\<exists>vs. json_parse (pm_file st) = Some (JArr vs)
       \<and> mset vs = image_mset (\<lambda>p. json_clean (json_prom (snd p))) (mset (pm_targets st)))"

lemma written_mirrors:
  assumes "prom_order ord" "write_services ord st = Inr st'" "pm_can_write st"
  shows "file_mirrors st'" "pm_targets st' = pm_targets st" "pm_can_write st'" "pm_can_truncate st'"
proof -
  let ?vs = "map (\<lambda>p. json_prom (snd p)) (ord (pm_targets st))"
  have st': "st' = st\<lparr>pm_file := json_print (JArr ?vs)\<rparr>" "pm_can_truncate st"
    using assms(2,3) unfolding write_services_def write_entries_array
    by (auto simp: Let_def simp del: json_print.simps split: if_splits)
  have "nums_ok (JArr ?vs)" by (simp add: nums_ok_elems_all list_all_iff nums_ok_prom)
  then have "json_parse (pm_file st') = Some (JArr (map json_clean ?vs))"
    by (simp add: st' json_parse_print clean_elems_map del: json_print.simps)
  moreover have "mset (ord (pm_targets st)) = mset (pm_targets st)" using assms(1) by (simp add: prom_order_def)
  then have "mset (map json_clean ?vs) = image_mset (\<lambda>p. json_clean (json_prom (snd p))) (mset (pm_targets st))"
    by (metis (no_types, lifting) map_map mset_map comp_def map_eq_conv)
  ultimately show "file_mirrors st'" by (auto simp: file_mirrors_def st'(1))
  show "pm_targets st' = pm_targets st" "pm_can_write st'" "pm_can_truncate st'"
    using st' assms(3) by simp_all
qed

lemma update_service_effect:
  assumes "update_service svc st = Inr st'"
  shows "map_of (pm_targets st') = spec_update svc (map_of (pm_targets st))"
    "gomap_ok (pm_targets st) \<Longrightarrow> gomap_ok (pm_targets st')" "pm_can_write st' = pm_can_write st"
  using assms by (auto simp: update_service_def split: option.splits if_splits)

lemma update_services_effect:
  assumes "update_services svcs st = Inr st'"
  shows "map_of (pm_targets st') = fold spec_update svcs (map_of (pm_targets st))
    \<and> (gomap_ok (pm_targets st) \<longrightarrow> gomap_ok (pm_targets st')) \<and> pm_can_write st' = pm_can_write st"
  using assms
proof (induction svcs arbitrary: st)
  case (Cons svc svcs)
  then obtain st1 where "update_service svc st = Inr st1" "update_services svcs st1 = Inr st'"
    by (auto split: sum.splits)
  with Cons.IH [of st1] update_service_effect [of svc st st1] show ?case by simp
qed simp

lemma prom_handle_effect:
  assumes "prom_order ord" "prom_handle ord inp st = Inr st'" "pm_can_write st" "gomap_ok (pm_targets st)"
  shows "map_of (pm_targets st') = spec_input inp (map_of (pm_targets st))" "gomap_ok (pm_targets st')"
    "file_mirrors st'" "pm_can_write st'"
proof -
  obtain st1 where w: "write_services ord st1 = Inr st'"
    and st1: "map_of (pm_targets st1) = spec_input inp (map_of (pm_targets st))" "gomap_ok (pm_targets st1)" "pm_can_write st1"
  proof (cases inp)
    case (Message msg)
    show thesis
    proof (cases msg)
      case (WatchUpdate svc)
      with Message assms(2) obtain st1 where u: "update_service svc st = Inr st1" "write_services ord st1 = Inr st'"
        by (auto simp: prom_handle_def update_one_service_def split: sum.splits)
      show thesis
        by (rule that [OF u(2)]) (use update_service_effect [OF u(1)] Message WatchUpdate assms(3,4) in simp_all)
    next
      case (WatchDelete d)
      with Message assms(2) have "write_services ord (st\<lparr>pm_targets :=
          map_del \<lparr>sk_node = wd_node d, sk_service_name = wd_service_name d, sk_instance = wd_instance d\<rparr> (pm_targets st)\<rparr>) = Inr st'"
        by (simp add: prom_handle_def delete_service_def)
      then show thesis by (rule that) (use Message WatchDelete assms(3,4) in simp_all)
    qed
  next
    case (BulkAnswer svcs)
    with assms(2) obtain st1 where u: "update_services svcs st = Inr st1" "write_services ord st1 = Inr st'"
      by (auto simp: prom_handle_def update_service_bulk_def split: sum.splits)
    show thesis
      by (rule that [OF u(2)]) (use update_services_effect [OF u(1)] BulkAnswer assms(3,4) in simp_all)
  qed
  note m = written_mirrors [OF assms(1) w st1(3)]
  show "map_of (pm_targets st') = spec_input inp (map_of (pm_targets st))" using m(2) st1(1) by simp
  show "gomap_ok (pm_targets st')" using m(2) st1(2) by simp
  show "file_mirrors st'" "pm_can_write st'" by (rule m)+
qed

lemma prom_run_facts:
  "prom_run st0 inps st \<Longrightarrow> map_of (pm_targets st) = fold spec_input inps Map.empty
    \<and> gomap_ok (pm_targets st) \<and> file_mirrors st \<and> pm_can_write st"
proof (induction rule: prom_run.induct)
  case (start ord st)
  from start(2) have w: "write_services ord \<lparr>pm_targets = [], pm_file = [], pm_can_truncate = True, pm_can_write = True\<rparr> = Inr st"
    by (simp add: load_prom_state_def)
  from written_mirrors [OF start(1) w] show ?case by simp
next
  case (step st0 inps st ord inp st')
  with prom_handle_effect [OF step(2,3)] show ?case by simp
qed

section \<open>Properties\<close>

text \<open>The fields that the interface definition requires of a specification are there.\<close>

definition full_spec :: "service_spec \<Rightarrow> bool" where
  "full_spec svc \<longleftrightarrow> spec_node svc \<noteq> None \<and> spec_service_name svc \<noteq> None \<and> spec_instance svc \<noteq> None
     \<and> spec_location svc \<noteq> None"

fun full_input :: "prom_input \<Rightarrow> bool" where
  "full_input (Message (WatchUpdate svc)) = full_spec svc"
| "full_input (Message (WatchDelete d)) = True"
| "full_input (BulkAnswer svcs) = list_all full_spec svcs"

lemma update_service_total: "full_spec svc \<Longrightarrow> \<exists>st'. update_service svc st = Inr st' \<and> pm_can_truncate st' = pm_can_truncate st"
  by (auto simp: update_service_def full_spec_def split: option.split)

lemma update_services_total:
  "list_all full_spec svcs \<Longrightarrow> \<exists>st'. update_services svcs st = Inr st' \<and> pm_can_truncate st' = pm_can_truncate st"
proof (induction svcs arbitrary: st)
  case (Cons svc svcs)
  then obtain st1 where "update_service svc st = Inr st1" "pm_can_truncate st1 = pm_can_truncate st"
    using update_service_total by force
  moreover obtain st2 where "update_services svcs st1 = Inr st2" "pm_can_truncate st2 = pm_can_truncate st1"
    using Cons by force
  ultimately show ?case by simp
qed simp

lemma write_services_total:
  "pm_can_truncate st \<Longrightarrow> \<exists>st'. write_services ord st = Inr st' \<and> pm_can_truncate st'"
  by (simp add: write_services_def Let_def)

lemma prom_handle_total:
  assumes "full_input inp" "pm_can_truncate st"
  shows "\<exists>st'. prom_handle ord inp st = Inr st' \<and> pm_can_truncate st'"
  using assms
proof (induction inp rule: full_input.induct)
  case (1 svc)
  then obtain st1 where "update_service svc st = Inr st1" "pm_can_truncate st1" using update_service_total by force
  then show ?case using write_services_total [of st1 ord] by (auto simp: prom_handle_def update_one_service_def)
next
  case (2 d)
  then show ?case by (auto simp: prom_handle_def delete_service_def intro!: write_services_total)
next
  case (3 svcs)
  then obtain st1 where "update_services svcs st = Inr st1" "pm_can_truncate st1" using update_services_total by force
  then show ?case using write_services_total [of st1 ord] by (auto simp: prom_handle_def update_service_bulk_def)
qed

lemma prom_run_total:
  assumes "list_all full_input inps"
  shows "\<exists>st0 st. prom_run st0 inps st \<and> pm_can_truncate st"
  using assms
proof (induction inps rule: rev_induct)
  case Nil
  have "prom_order id" by (simp add: prom_order_def)
  moreover obtain st where "load_prom_state id True True = Inr st" "pm_can_truncate st"
    using write_services_total [of "\<lparr>pm_targets = [], pm_file = [], pm_can_truncate = True, pm_can_write = True\<rparr>" id]
    by (auto simp: load_prom_state_def)
  ultimately show ?case by (blast intro: prom_run.start)
next
  case (snoc inp inps)
  then obtain st0 st where st: "prom_run st0 inps st" "pm_can_truncate st" by auto
  obtain st' where "prom_handle id inp st = Inr st'" "pm_can_truncate st'"
    using prom_handle_total [of inp st id] snoc.prems st(2) by auto
  then show ?case using prom_run.step [OF st(1), of id inp st'] by (auto simp: prom_order_def)
qed

definition metrics_spec :: service_spec where
  "metrics_spec = sample_spec\<lparr>spec_metrics_port := Some 9100\<rparr>"

lemma metrics_spec_full: "full_spec metrics_spec"
  by (simp add: full_spec_def metrics_spec_def sample_spec_def registered_spec_def)

text \<open>C19: the observer handles every sequence of inputs whose services have their required fields, and
  however Go orders its maps the targets are then what the inputs mean, each update replacing and each
  deletion removing one service, and the file is a JSON array of exactly these targets.\<close>
theorem targets_follow_inputs:
  assumes "list_all full_input inps"
  shows "(\<exists>st0 st. prom_run st0 inps st)
    \<and> (\<forall>st0 st. prom_run st0 inps st \<longrightarrow>
        map_of (pm_targets st) = fold spec_input inps Map.empty \<and> gomap_ok (pm_targets st) \<and> file_mirrors st)"
  using prom_run_total [OF assms] prom_run_facts by blast

theorem targets_follow_inputs_witness:
  "\<exists>st0 st. prom_run st0 [Message (WatchUpdate metrics_spec)] st
    \<and> map_of (pm_targets st) = spec_update metrics_spec Map.empty \<and> file_mirrors st"
  using targets_follow_inputs [of "[Message (WatchUpdate metrics_spec)]"] metrics_spec_full by fastforce

text \<open>The messages of a service's two lifetime events undo each other: after the update for the stored
  value and the deletion of its key in the observer's datacenter, the targets are as before, without
  the service.\<close>
theorem deletion_event_removes_target:
  assumes "spec_valid spec" "spec_node spec = Some (ns_name node)" "spec_service_name spec = Some s"
    and "spec_instance spec = Some i" "slash_free (ns_name node)" "slash_free s" "slash_free i"
  shows "\<exists>up del. event_message (PutEvent (ds_svc_key node s i) (marshal_spec spec)) = Inr up
    \<and> event_message (DeleteEvent (ds_svc_key node s i)) = Inr del
    \<and> spec_input (Message del) (spec_input (Message up) m) =
        m(\<lparr>sk_node = ns_name node, sk_service_name = s, sk_instance = i\<rparr> := None)"
proof -
  have "event_message (PutEvent (ds_svc_key node s i) (marshal_spec spec)) = Inr (WatchUpdate spec)"
    using unmarshal_marshal_spec(1) [OF assms(1)] by (simp add: event_message_def)
  moreover have "event_message (DeleteEvent (ds_svc_key node s i)) =
      Inr (WatchDelete \<lparr>wd_service_name = s, wd_node = ns_name node, wd_instance = i\<rparr>)"
    using event_message_delete [OF assms(5-7), of "''dcsvc/'' @ ns_datacenter node"]
    by (simp add: ds_svc_key_def key_path_two)
  moreover have "spec_input (Message (WatchDelete \<lparr>wd_service_name = s, wd_node = ns_name node, wd_instance = i\<rparr>))
      (spec_input (Message (WatchUpdate spec)) m) =
      m(\<lparr>sk_node = ns_name node, sk_service_name = s, sk_instance = i\<rparr> := None)"
    using assms(2-4) by (auto split: option.split)
  ultimately show ?thesis by blast
qed

theorem deletion_event_removes_target_witness:
  "\<exists>up del. event_message (PutEvent ''dcsvc/dc1/n1/web/c1'' (marshal_spec sample_spec)) = Inr up
    \<and> event_message (DeleteEvent ''dcsvc/dc1/n1/web/c1'') = Inr del
    \<and> spec_input (Message del) (spec_input (Message up) Map.empty) = Map.empty"
proof -
  have f: "spec_node sample_spec = Some (ns_name sample_node)" "spec_service_name sample_spec = Some ''web''"
    "spec_instance sample_spec = Some ''c1''" "slash_free (ns_name sample_node)" "slash_free ''web''" "slash_free ''c1''"
    by (simp_all add: sample_spec_def registered_spec_def sample_request_def sample_node_def slash_free_def)
  from deletion_event_removes_target [OF sample_spec_valid f, of Map.empty] show ?thesis
    by (simp add: sample_service_keys)
qed

text \<open>The bulk answer may come after the deletion of a service that it still lists: the target is then
  back, whatever came before, and the registry has no further event to remove it.\<close>
theorem late_bulk_revives_deleted:
  assumes "prom_run st0 (inps @ [Message (WatchDelete d), BulkAnswer [svc]]) st"
    and "spec_metrics_port svc = Some port" "port \<noteq> 0" "spec_node svc = Some (wd_node d)"
    and "spec_service_name svc = Some (wd_service_name d)" "spec_instance svc = Some (wd_instance d)"
    and "spec_location svc = Some l"
  shows "map_of (pm_targets st) \<lparr>sk_node = wd_node d, sk_service_name = wd_service_name d, sk_instance = wd_instance d\<rparr> =
    Some (prom_service_of svc port l (wd_instance d))"
  using prom_run_facts [OF assms(1)] assms(2-7) by simp

theorem late_bulk_revives_deleted_witness:
  "\<exists>st0 st. prom_run st0 ([] @ [Message (WatchDelete \<lparr>wd_service_name = ''web'', wd_node = ''n1'', wd_instance = ''c1''\<rparr>),
      BulkAnswer [metrics_spec]]) st
    \<and> map_of (pm_targets st) \<lparr>sk_node = ''n1'', sk_service_name = ''web'', sk_instance = ''c1''\<rparr> \<noteq> None"
proof -
  let ?d = "\<lparr>wd_service_name = ''web'', wd_node = ''n1'', wd_instance = ''c1''\<rparr>"
  have "list_all full_input ([] @ [Message (WatchDelete ?d), BulkAnswer [metrics_spec]])"
    using metrics_spec_full by simp
  then obtain st0 st where run: "prom_run st0 ([] @ [Message (WatchDelete ?d), BulkAnswer [metrics_spec]]) st"
    using prom_run_total by blast
  have f: "spec_metrics_port metrics_spec = Some 9100" "(9100 :: 32 word) \<noteq> 0" "spec_node metrics_spec = Some (wd_node ?d)"
    "spec_service_name metrics_spec = Some (wd_service_name ?d)" "spec_instance metrics_spec = Some (wd_instance ?d)"
    "spec_location metrics_spec = Some ''eu''"
    by (simp_all add: metrics_spec_def sample_spec_def registered_spec_def sample_request_def sample_node_def)
  from late_bulk_revives_deleted [OF run f] run show ?thesis by auto
qed

text \<open>The target of an IPv4 address is host and port as \<^verbatim>\<open>net.SplitHostPort\<close> takes them apart again.\<close>

lemma ipv4_target_splits:
  assumes "addr_is4 ip"
  shows "split_host_port (target_of port (addr_string ip)) = Inr (addr_string ip, show_nat (unat port))"
proof -
  obtain a b c d where ip: "ip = Addr4 a b c d" using assms by (cases ip) auto
  have digits: "is_digit x" if "x \<in> set (show_nat n)" for x n
    using that show_nat_digits by (simp add: list_all_iff)
  have host: "is_digit x \<or> x = CHR ''.''" if "x \<in> set (addr_string ip)" for x
    using that digits by (auto simp: ip ipv4_string_def)
  have "\<not> is_digit (CHR '':'')" "\<not> is_digit (CHR ''['')" "\<not> is_digit (CHR '']'')" by (simp_all add: is_digit_def)
  then have "list_all (\<lambda>c. c \<notin> {CHR '':'', CHR ''['', CHR '']''}) (addr_string ip @ show_nat (unat port))"
    using host digits by (auto simp: list_all_iff)
  then have "split_host_port (addr_string ip @ CHR '':'' # show_nat (unat port)) = Inr (addr_string ip, show_nat (unat port))"
    by (rule split_host_port_plain)
  moreover have "target_of port (addr_string ip) = addr_string ip @ CHR '':'' # show_nat (unat port)"
    using ipv4.dec_enc [OF assms] assms by (simp add: target_of_def)
  ultimately show ?thesis by simp
qed

end
