(* ===== verification/Startup.thy ===== *)
theory Startup
  imports Commands Environment AgentRun AgentDns PromState
begin

text \<open>
  How the two node programs start: the configurations of agent/config and prom-sd-observer/config
  with their defaults, \<^verbatim>\<open>LoadState\<close> of agent/state, and the start of prom-sd-observer/main.go up to its
  loop. The environment parser (theory Environment), the trust root of Sigstore and the Docker client are libraries;
  whether they fail is an argument.
\<close>

section \<open>Configurations\<close>

record agent_config =
  ac_dir :: string
  ac_crt_file :: string
  ac_key_file :: string
  ac_join_url :: string
  ac_ca_file :: string
  ac_dns_bind_addr :: string
  ac_dns_upstream :: string
  ac_events_log :: string

text \<open>What \<^verbatim>\<open>LoadConfig\<close> returns when only the required variable is set.\<close>

definition default_agent_config :: "string \<Rightarrow> agent_config" where
  "default_agent_config join_url =
     \<lparr>ac_dir = ''agent.state'', ac_crt_file = ''node.crt'', ac_key_file = ''node.key'', ac_join_url = join_url,
      ac_ca_file = ''ca.crt'', ac_dns_bind_addr = ''127.0.0.143'', ac_dns_upstream = ''127.0.0.53:53'',
      ac_events_log = ''events.log''\<rparr>"

record observer_config =
  oc_dir :: string
  oc_crt_file :: string
  oc_key_file :: string
  oc_join_url :: string
  oc_ca_file :: string
  oc_targets_file :: string

definition default_observer_config :: "string \<Rightarrow> observer_config" where
  "default_observer_config join_url =
     \<lparr>oc_dir = ''observer.state'', oc_crt_file = ''node.crt'', oc_key_file = ''node.key'', oc_join_url = join_url,
      oc_ca_file = ''ca.crt'', oc_targets_file = ''targets.json''\<rparr>"

text \<open>The variables that the tags of the two structs name. \<^verbatim>\<open>LoadConfig\<close> ends the process when the library reports
  an error; a field without a value is empty.\<close>

definition agent_env_fields :: "env_field list" where
  "agent_env_fields =
     [with_default ''DIR'' ''agent.state'', with_default ''CERTIFICATE'' ''node.crt'', with_default ''KEY'' ''node.key'',
      required ''JOIN_URL'', with_default ''CA_FILE'' ''ca.crt'', with_default ''DNS_BIND_ADDR'' ''127.0.0.143'',
      with_default ''DNS_UPSTREAM'' ''127.0.0.53:53'', with_default ''EVENTS_LOG'' ''events.log'']"

definition load_agent_config ::
  "(string \<Rightarrow> env_field list \<Rightarrow> environment \<Rightarrow> environment outcome) \<Rightarrow> environment \<Rightarrow> agent_config outcome" where
  "load_agent_config parse env =
     (case parse ''AGENT_'' agent_env_fields env of
        Inl _ \<Rightarrow> Inl (Fatal ''Error loading configuration'')
      | Inr v \<Rightarrow> Inr \<lparr>ac_dir = value_of v ''DIR'', ac_crt_file = value_of v ''CERTIFICATE'', ac_key_file = value_of v ''KEY'',
          ac_join_url = value_of v ''JOIN_URL'', ac_ca_file = value_of v ''CA_FILE'',
          ac_dns_bind_addr = value_of v ''DNS_BIND_ADDR'', ac_dns_upstream = value_of v ''DNS_UPSTREAM'',
          ac_events_log = value_of v ''EVENTS_LOG''\<rparr>)"

definition observer_env_fields :: "env_field list" where
  "observer_env_fields =
     [with_default ''DIR'' ''observer.state'', with_default ''CERTIFICATE'' ''node.crt'', with_default ''KEY'' ''node.key'',
      required ''JOIN_URL'', with_default ''CA_FILE'' ''ca.crt'', with_default ''TARGETS_FILE'' ''targets.json'']"

definition load_observer_config ::
  "(string \<Rightarrow> env_field list \<Rightarrow> environment \<Rightarrow> environment outcome) \<Rightarrow> environment \<Rightarrow> observer_config outcome" where
  "load_observer_config parse env =
     (case parse ''OBSERVER_'' observer_env_fields env of
        Inl _ \<Rightarrow> Inl (Fatal ''Error loading configuration'')
      | Inr v \<Rightarrow> Inr \<lparr>oc_dir = value_of v ''DIR'', oc_crt_file = value_of v ''CERTIFICATE'', oc_key_file = value_of v ''KEY'',
          oc_join_url = value_of v ''JOIN_URL'', oc_ca_file = value_of v ''CA_FILE'',
          oc_targets_file = value_of v ''TARGETS_FILE''\<rparr>)"

context env_parser
begin

lemma agent_config_loaded:
  assumes "env ''AGENT_JOIN_URL'' = Some url" "url \<noteq> []" "\<And>name. name \<noteq> ''AGENT_JOIN_URL'' \<Longrightarrow> env name = None"
  shows "load_agent_config parse env = Inr (default_agent_config url)"
proof -
  have d: "distinct (map ef_name agent_env_fields)" by code_simp
  obtain vals where vals: "parse ''AGENT_'' agent_env_fields env = Inr vals"
    by (rule parse_total [of agent_env_fields env "''AGENT_''"])
      (use assms(1) in \<open>auto simp: agent_env_fields_def with_default_def required_def\<close>)
  have val: "value_of vals (ef_name f) = (case env (''AGENT_'' @ ef_name f) of Some v \<Rightarrow> v | None \<Rightarrow> case ef_default f of None \<Rightarrow> [] | Some v \<Rightarrow> v)"
    if "f \<in> set agent_env_fields" for f
    using parse_field [OF vals d that] assms by (cases "''AGENT_'' @ ef_name f = ''AGENT_JOIN_URL''") (auto simp: value_of_def)
  then have "list_all (\<lambda>f. value_of vals (ef_name f) =
      (case env (''AGENT_'' @ ef_name f) of Some v \<Rightarrow> v | None \<Rightarrow> case ef_default f of None \<Rightarrow> [] | Some v \<Rightarrow> v)) agent_env_fields"
    by (simp add: list_all_iff)
  then show ?thesis
    using assms(1,3) vals
    by (simp add: load_agent_config_def default_agent_config_def agent_env_fields_def with_default_def required_def)
qed

lemma observer_config_loaded:
  assumes "env ''OBSERVER_JOIN_URL'' = Some url" "url \<noteq> []" "\<And>name. name \<noteq> ''OBSERVER_JOIN_URL'' \<Longrightarrow> env name = None"
  shows "load_observer_config parse env = Inr (default_observer_config url)"
proof -
  have d: "distinct (map ef_name observer_env_fields)" by code_simp
  obtain vals where vals: "parse ''OBSERVER_'' observer_env_fields env = Inr vals"
    by (rule parse_total [of observer_env_fields env "''OBSERVER_''"])
      (use assms(1) in \<open>auto simp: observer_env_fields_def with_default_def required_def\<close>)
  have val: "value_of vals (ef_name f) = (case env (''OBSERVER_'' @ ef_name f) of Some v \<Rightarrow> v | None \<Rightarrow> case ef_default f of None \<Rightarrow> [] | Some v \<Rightarrow> v)"
    if "f \<in> set observer_env_fields" for f
    using parse_field [OF vals d that] assms by (cases "''OBSERVER_'' @ ef_name f = ''OBSERVER_JOIN_URL''") (auto simp: value_of_def)
  then have "list_all (\<lambda>f. value_of vals (ef_name f) =
      (case env (''OBSERVER_'' @ ef_name f) of Some v \<Rightarrow> v | None \<Rightarrow> case ef_default f of None \<Rightarrow> [] | Some v \<Rightarrow> v)) observer_env_fields"
    by (simp add: list_all_iff)
  then show ?thesis
    using assms(1,3) vals
    by (simp add: load_observer_config_def default_observer_config_def observer_env_fields_def with_default_def required_def)
qed

lemma no_join_url:
  assumes "required ''JOIN_URL'' \<in> set fs" "env (p @ ''JOIN_URL'') = None"
  shows "\<exists>err. parse p fs env = Inl err"
  by (rule parse_missing [of "required ''JOIN_URL''" fs env p]) (use assms in \<open>auto simp: required_def\<close>)

lemma join_url_fields: "required ''JOIN_URL'' \<in> set agent_env_fields" "required ''JOIN_URL'' \<in> set observer_env_fields"
  by (simp_all add: agent_env_fields_def observer_env_fields_def)

lemma config_without_join_url:
  "env ''AGENT_JOIN_URL'' = None \<Longrightarrow> load_agent_config parse env = Inl (Fatal ''Error loading configuration'')"
  "env ''OBSERVER_JOIN_URL'' = None \<Longrightarrow> load_observer_config parse env = Inl (Fatal ''Error loading configuration'')"
  using no_join_url [OF join_url_fields(1), of env "''AGENT_''"] no_join_url [OF join_url_fields(2), of env "''OBSERVER_''"]
  by (auto simp: load_agent_config_def load_observer_config_def)

end

section \<open>The connection of a node\<close>

text \<open>The certificate is asked for at every handshake, so the one in use is that of the current state. The
  roots are those of the authority's file.\<close>

definition client_certificate_for_tls :: "node_state \<Rightarrow> key_pair" where
  "client_certificate_for_tls st = nu_credentials st"

definition node_tls_client :: "blob \<Rightarrow> node_state \<Rightarrow> tls_client" where
  "node_tls_client ca_pem st =
     \<lparr>tlc_target = registry_resolver_scheme @ '':///'', tlc_server_name = registry_server_name, tlc_roots = roots_of ca_pem,
      tlc_pair = client_certificate_for_tls st\<rparr>"

section \<open>The agent's state\<close>

record agent_libraries =
  al_tuf :: "unit outcome"
  al_trusted_root :: "unit outcome"
  al_verifier :: "unit outcome"
  al_docker :: "unit outcome"

text \<open>The events log is opened for appending, and created empty if it is not there.\<close>

definition open_append :: "fs \<Rightarrow> string \<Rightarrow> unit outcome \<times> fs" where
  "open_append f path =
     (if \<not> fs_writable f path then (Inl (Failure ''permission denied''), f)
      else (Inr (), f\<lparr>fs_files := (fs_files f)(path := Some (case fs_files f path of None \<Rightarrow> Raw [] | Some b \<Rightarrow> b))\<rparr>))"

definition load_agent_state :: "agent_libraries \<Rightarrow> agent_config \<Rightarrow> fs \<Rightarrow> node_state outcome \<times> fs" where
  "load_agent_state L c f =
     (case load_node_state (ac_dir c) (ac_ca_file c) (ac_crt_file c) (ac_key_file c) (split_on (CHR '','') (ac_join_url c)) f of
        (Inl err, f) \<Rightarrow> (Inl err, f)
      | (Inr st, f) \<Rightarrow>
          if \<not> is_ok (al_tuf L) then (Inl (Panic ''tuf.New''), f)
          else if \<not> is_ok (al_trusted_root L) then (Inl (Panic ''root.GetTrustedRoot''), f)
          else if \<not> is_ok (al_verifier L) then (Inl (Panic ''verify.NewVerifier''), f)
          else
            (case open_append f (ac_events_log c) of
               (Inl _, f) \<Rightarrow> (Inl (Fatal ''Failed to open events log''), f)
             | (Inr _, f) \<Rightarrow>
                 if \<not> is_ok (al_docker L) then (Inl (Fatal ''Failed to create docker client''), f) else (Inr st, f)))"

text \<open>The name server of \<^verbatim>\<open>main\<close>: the zone of the cluster and, for every other name, forwarding.\<close>

datatype zone_handler = ClusterZone | Forwarding forward_handler

record dns_server =
  dns_addr :: string
  dns_net :: string
  dns_udp_size :: nat
  dns_routes :: "(string \<times> zone_handler) list"

definition agent_dns_server :: "agent_config \<Rightarrow> resolv_conf outcome \<Rightarrow> dns_server outcome" where
  "agent_dns_server c conf =
     (case new_forward_handler conf of
        Inl err \<Rightarrow> Inl err
      | Inr h \<Rightarrow> Inr \<lparr>dns_addr = ac_dns_bind_addr c @ '':53'', dns_net = ''udp'', dns_udp_size = 65535,
          dns_routes = [(''cluster.internal.'', ClusterZone), (''.'', Forwarding h)]\<rparr>)"

section \<open>The observer's start\<close>

text \<open>The node state and the emptied targets file, which is written at once.\<close>

definition load_observer_state ::
  "((service_key, prom_service) gomap \<Rightarrow> (service_key, prom_service) gomap) \<Rightarrow> observer_config \<Rightarrow> fs \<Rightarrow>
   (node_state \<times> prom_state) outcome \<times> fs" where
  "load_observer_state ord c f =
     (case load_node_state (oc_dir c) (oc_ca_file c) (oc_crt_file c) (oc_key_file c) (split_on (CHR '','') (oc_join_url c)) f of
        (Inl err, f) \<Rightarrow> (Inl err, f)
      | (Inr st, f) \<Rightarrow>
          (case write_file f (oc_targets_file c) (Raw []) of
             (Inl _, f) \<Rightarrow> (Inl (Fatal ''Failed to open events log''), f)
           | (Inr _, f) \<Rightarrow>
               (case load_prom_state ord True True of
                  Inl err \<Rightarrow> (Inl err, f)
                | Inr ps \<Rightarrow> (Inr (st, ps), f\<lparr>fs_files := (fs_files f)(oc_targets_file c \<mapsto> Raw (pm_file ps))\<rparr>))))"

text \<open>
  The loop of \<^verbatim>\<open>main\<close> after the start, together with the bulk answer that is fetched at its side: what
  arrives is handled in the order of the list, and the first failure to receive a message or to
  fetch the services ends the program.
\<close>

datatype observer_feed = Arrived prom_input | WatchFailed | FetchFailed

fun observer_loop ::
  "((service_key, prom_service) gomap \<Rightarrow> (service_key, prom_service) gomap) \<Rightarrow> observer_feed list \<Rightarrow>
   prom_state \<Rightarrow> prom_state outcome" where
  "observer_loop ord [] st = Inr st"
| "observer_loop ord (WatchFailed # inps) st = Inl (Fatal ''Error watching datacenter services'')"
| "observer_loop ord (FetchFailed # inps) st = Inl (Fatal ''Failed to fetch datacenter services'')"
| "observer_loop ord (Arrived inp # inps) st =
     (case prom_handle ord inp st of Inl err \<Rightarrow> Inl err | Inr st \<Rightarrow> observer_loop ord inps st)"

definition observer_main ::
  "((service_key, prom_service) gomap \<Rightarrow> (service_key, prom_service) gomap) \<Rightarrow> unit outcome \<Rightarrow> unit outcome \<Rightarrow>
   observer_feed list \<Rightarrow> prom_state \<Rightarrow> prom_state outcome" where
  "observer_main ord registry_config watch inps st =
     (case registry_config of
        Inl _ \<Rightarrow> Inl (Fatal ''Failed to load registry config'')
      | Inr _ \<Rightarrow>
          (case watch of
             Inl _ \<Rightarrow> Inl (Fatal ''Failed to start watching datacenter services'')
           | Inr _ \<Rightarrow> observer_loop ord inps st))"

section \<open>Properties\<close>

lemma keep_credentials_frame:
  assumes "keep_credentials sf (Inr (crt, key)) w = (r, w')" "p \<noteq> sub_node_crt sf" "p \<noteq> sub_node_key sf"
  shows "fs_files (cw_files w') p = fs_files (cw_files w) p"
  using assms by (auto simp: keep_credentials_def write_to_file_def write_file_def split: if_splits)

lemma keep_credentials_perm:
  assumes "keep_credentials sf res w = (r, w')"
  shows "fs_readable (cw_files w') = fs_readable (cw_files w)" "fs_writable (cw_files w') = fs_writable (cw_files w)"
    "fs_dirs (cw_files w') = fs_dirs (cw_files w)"
  using assms by (auto simp: keep_credentials_def write_to_file_def write_file_def split: if_splits sum.splits prod.splits)

text \<open>A node that starts for the first time, in a directory with its credentials and the authority.\<close>

lemma load_node_state_first:
  assumes "\<And>p. fs_readable f p" "\<And>p. fs_writable f p"
    and "fs_files f (path_join dir ''node.crt'') = None" "fs_files f (path_join dir ''node.key'') = None"
    and "fs_files f (path_join dir ''addrs'') = None"
    and "fs_files f ca_file = Some ca" "fs_files f crt_path = Some crt" "fs_files f key_path_name = Some key"
    and "x509_key_pair crt key = Inr kp"
  shows "\<exists>ns f'. load_node_state dir ca_file crt_path key_path_name urls f = (Inr ns, f') \<and> nu_credentials ns = kp
    \<and> rb_addrs (nu_resolver ns) = urls \<and> (\<forall>p. fs_writable f' p)"
  using assms
  by (auto simp: load_node_state_def make_dir_def load_node_crt_def read_file_or_def read_file_def write_file_def
      load_registry_addresses_def write_registry_addresses_def path_join_def Let_def)

lemma load_prom_state_first:
  assumes "prom_order ord"
  obtains ps where "load_prom_state ord True True = Inr ps" "pm_targets ps = []"
proof -
  have "mset (ord []) = {#}" using assms unfolding prom_order_def by (metis mset.simps(1))
  then have "ord [] = []" by simp
  then show thesis using that by (simp add: load_prom_state_def write_services_def)
qed

text \<open>Credentials that the client keeps under default flags are the ones that both programs start with.\<close>

lemma kept_credentials_start:
  assumes "cli_peer_api_client dial default_flags (cw_files w) = Inr cl" "x509_key_pair crt key = Inr kp"
    and "\<And>p. fs_readable (cw_files w) p" "\<And>p. fs_writable (cw_files w) p"
    and "\<forall>file \<in> {''node.crt'', ''node.key'', ''addrs''}. fs_files (cw_files w) (path_join dir file) = None"
  obtains w' where "keep_credentials (default_sub_flags location dc) (Inr (crt, key)) w = (CliDone, w')"
    "\<And>urls. \<exists>ns f. load_node_state dir ''ca.crt'' ''node.crt'' ''node.key'' urls (cw_files w') = (Inr ns, f)
       \<and> nu_credentials ns = kp \<and> rb_addrs (nu_resolver ns) = urls \<and> (\<forall>p. fs_writable f p)"
proof -
  let ?sf = "default_sub_flags location dc"
  have sf: "sub_node_crt ?sf = ''node.crt''" "sub_node_key ?sf = ''node.key''" by (simp_all add: default_sub_flags_def)
  obtain w' where w': "keep_credentials ?sf (Inr (crt, key)) w = (CliDone, w')"
    "fs_files (cw_files w') ''node.crt'' = Some crt" "fs_files (cw_files w') ''node.key'' = Some key"
    using keep_credentials_files [of ?sf w crt key] sf assms(4) by auto
  note perm = keep_credentials_perm [OF w'(1)]
  obtain ca where "fs_files (cw_files w) ''ca.crt'' = Some ca"
    using assms(1) by (auto simp: cli_peer_api_client_def default_flags_def read_file_def split: option.splits sum.splits if_splits)
  then have ca: "fs_files (cw_files w') ''ca.crt'' = Some ca" using keep_credentials_frame [OF w'(1), of "''ca.crt''"] sf by simp
  have new: "fs_files (cw_files w') (path_join dir n) = None" if "n \<in> {''node.crt'', ''node.key'', ''addrs''}" for n
  proof -
    have "path_join dir n \<noteq> ''node.crt''" "path_join dir n \<noteq> ''node.key''"
      by (auto simp: path_join_def dest!: arg_cong [where f = "\<lambda>s. CHR ''/'' \<in> set s"])
    then show ?thesis using keep_credentials_frame [OF w'(1), of "path_join dir n"] sf assms(5) that by auto
  qed
  show thesis
    using that [OF w'(1)] load_node_state_first [OF _ _ _ _ _ ca w'(2,3) assms(2)] new assms(3,4) perm by simp
qed

text \<open>The defaults of the programs fit together: credentials fetched with \<^verbatim>\<open>ssle-cli node creds\<close> under
  default flags, next to the authority's certificate, are the ones with which an agent and an
  observer with default configurations start in the same directory; the observer starts with no
  targets.\<close>
theorem default_files_fit:
  assumes "cli_peer_api_client dial default_flags (cw_files w) = Inr cl"
    and "call cl \<lparr>gc_name = name, gc_datacenter = dc\<rparr> e = (Inr (crt, key), e')" "x509_key_pair crt key = Inr kp"
    and "\<And>p. fs_readable (cw_files w) p" "\<And>p. fs_writable (cw_files w) p"
    and "\<forall>dir \<in> {''agent.state'', ''observer.state''}. \<forall>file \<in> {''node.crt'', ''node.key'', ''addrs''}.
           fs_files (cw_files w) (path_join dir file) = None"
    and "al_tuf L = Inr ()" "al_trusted_root L = Inr ()" "al_verifier L = Inr ()" "al_docker L = Inr ()"
    and "prom_order ord"
  shows "\<exists>w'. run_creds dial default_flags (default_sub_flags location dc) name call w e = (CliDone, w', e')
    \<and> (\<exists>ns f. load_agent_state L (default_agent_config url) (cw_files w') = (Inr ns, f) \<and> nu_credentials ns = kp)
    \<and> (\<exists>ns ps f. load_observer_state ord (default_observer_config url) (cw_files w') = (Inr (ns, ps), f)
        \<and> nu_credentials ns = kp \<and> pm_targets ps = [])"
proof -
  let ?sf = "default_sub_flags location dc" and ?urls = "split_on (CHR '','') url"
  have new: "\<forall>file \<in> {''node.crt'', ''node.key'', ''addrs''}. fs_files (cw_files w) (path_join dir file) = None"
    if "dir \<in> {''agent.state'', ''observer.state''}" for dir by (rule bspec [OF assms(6) that])
  note start = kept_credentials_start [OF assms(1,3-5) new]
  obtain w' where w': "keep_credentials ?sf (Inr (crt, key)) w = (CliDone, w')"
    and a: "\<exists>ns f. load_node_state ''agent.state'' ''ca.crt'' ''node.crt'' ''node.key'' ?urls (cw_files w') = (Inr ns, f)
       \<and> nu_credentials ns = kp \<and> rb_addrs (nu_resolver ns) = ?urls \<and> (\<forall>p. fs_writable f p)"
    by (rule start [of "''agent.state''" location dc]) simp_all
  have o: "\<exists>ns f. load_node_state ''observer.state'' ''ca.crt'' ''node.crt'' ''node.key'' ?urls (cw_files w') = (Inr ns, f)
       \<and> nu_credentials ns = kp \<and> rb_addrs (nu_resolver ns) = ?urls \<and> (\<forall>p. fs_writable f p)"
    by (rule start [of "''observer.state''" location dc]) (use w' in simp_all)
  obtain ps where ps: "load_prom_state ord True True = Inr ps" "pm_targets ps = []" using assms(11) by (rule load_prom_state_first)
  have "run_creds dial default_flags ?sf name call w e = (CliDone, w', e')"
    using assms(1,2) w' by (simp add: run_creds_def) (simp add: default_sub_flags_def)
  moreover have "\<exists>ns f. load_agent_state L (default_agent_config url) (cw_files w') = (Inr ns, f) \<and> nu_credentials ns = kp"
    using a assms(7-10) by (auto simp: load_agent_state_def default_agent_config_def open_append_def)
  moreover have "\<exists>ns ps f. load_observer_state ord (default_observer_config url) (cw_files w') = (Inr (ns, ps), f)
        \<and> nu_credentials ns = kp \<and> pm_targets ps = []"
    using o ps by (auto simp: load_observer_state_def default_observer_config_def write_file_def)
  ultimately show ?thesis by blast
qed

theorem default_files_fit_witness:
  "\<exists>w' ns f. run_creds (\<lambda>a. Inr ()) default_flags (default_sub_flags [] ''dc1'') ''n1''
      (\<lambda>cl req e. (Inr (CertPem sample_authority, KeyPem (EdPrivate ''seed'')), e)) (admin_world sample_state) () = (CliDone, w', ())
    \<and> load_agent_state \<lparr>al_tuf = Inr (), al_trusted_root = Inr (), al_verifier = Inr (), al_docker = Inr ()\<rparr>
        (default_agent_config ''r1:4003'') (cw_files w') = (Inr ns, f)"
proof -
  have p: "x509_key_pair (CertPem sample_authority) (KeyPem (EdPrivate ''seed'')) =
      Inr \<lparr>kp_leaf = sample_authority, kp_private = EdPrivate ''seed''\<rparr>"
    by (simp add: x509_key_pair_def sample_authority_def)
  have cl: "cli_peer_api_client (\<lambda>a. Inr ()) default_flags (cw_files (admin_world sample_state)) =
    Inr \<lparr>tlc_target = ''127.0.0.1:2382'', tlc_server_name = registry_server_name, tlc_roots = [kp_leaf (st_ca sample_state)],
      tlc_pair = st_server_key_pair sample_state\<rparr>"
    using p by (intro admin_client) (simp add: sample_state_def Let_def)
  have f: "fs_readable (cw_files (admin_world sample_state)) p" "fs_writable (cw_files (admin_world sample_state)) p" for p
    by (simp_all add: admin_world_def sample_fs_def)
  have n: "\<forall>dir \<in> {''agent.state'', ''observer.state''}. \<forall>file \<in> {''node.crt'', ''node.key'', ''addrs''}.
      fs_files (cw_files (admin_world sample_state)) (path_join dir file) = None"
    by (simp add: admin_world_def path_join_def)
  have o: "prom_order (\<lambda>m. m)" by (simp add: prom_order_def)
  show ?thesis
    using default_files_fit [where L = "\<lparr>al_tuf = Inr (), al_trusted_root = Inr (), al_verifier = Inr (), al_docker = Inr ()\<rparr>"
        and call = "\<lambda>cl req e. (Inr (CertPem sample_authority, KeyPem (EdPrivate ''seed'')), e)" and name = "''n1''" and dc = "''dc1''"
        and e = "()" and location = "[]" and url = "''r1:4003''", OF cl refl p f n _ _ _ _ o] by simp blast
qed

text \<open>Node certificates against the authority of the agents.\<close>

lemma node_certificate_verifies:
  assumes "create_node_crt seed now st dc name role = Inr (CertPem crt, key)" "authority_certificate ou start (st_agent_ca st)"
    and "valid_at t (kp_leaf (st_agent_ca st))"
  shows "verifies_client [kp_leaf (st_agent_ca st)] t crt \<longleftrightarrow>
    whole_second now \<le> t \<and> t \<le> whole_second (now + node_certificate_expiry)"
  using assms
  by (auto simp: create_node_crt_def create_certificate_def authority_certificate_def verifies_client_def
      issued_by_pool_def valid_at_def Let_def split: if_splits)

text \<open>C28: a node with the certificate of the registry's authority gets through to the agent API exactly while
  its own certificate and the server's are valid, seven days and ninety; new credentials count from
  the next handshake on, without a restart, so a node that renews in time stays connected until the
  server's certificate ends.\<close>
theorem node_connects:
  assumes "load_state hkdf rnd seed now c f = (Inr st, f')" "\<And>p. fs_readable f p"
    and "start_agent_api listen c st f' = Inr srv"
    and "valid_at t (kp_leaf (st_ca st))" "valid_at t (kp_leaf (st_agent_ca st))"
    and "create_node_crt seed2 now2 st dc name role = Inr (CertPem crt, key)"
    and "x509_key_pair (CertPem crt) key = Inr kp" "update_credentials (CertPem crt) key ns g = (Inr (), ns', g')"
  shows "handshake t srv (node_tls_client (CertPem (kp_leaf (st_ca st))) ns') \<longleftrightarrow>
    max (whole_second now) (whole_second now2) \<le> t
    \<and> t \<le> min (whole_second (now + 90 * day)) (whole_second (now2 + node_certificate_expiry))"
proof -
  obtain start where a: "authority_certificate ''Servers'' start (st_ca st)" "authority_certificate ''Agents'' start (st_agent_ca st)"
    "server_certificate now (st_ca st) (st_server_key_pair st)"
    "load_x509_key_pair f' (st_server_crt_file st) (st_server_key_file st) = Inr (st_server_key_pair st)"
    by (rule load_state_server [OF assms(1,2)])
  have "nu_credentials ns' = kp" using assms(7,8) by (auto simp: update_credentials_def Let_def)
  moreover have "kp_leaf kp = crt" using assms(7) by (auto simp: x509_key_pair_def split: blob.splits if_splits)
  ultimately show ?thesis
    using start_servers(2) [OF a(4) assms(3)] server_certificate_verifies(1) [OF a(3,1) assms(4)]
      node_certificate_verifies [OF assms(6) a(2) assms(5)]
    by (auto simp: handshake_def node_tls_client_def client_certificate_for_tls_def roots_of_def)
qed

theorem node_connects_witness:
  "\<exists>st f' srv crt key ns' g'. load_state (\<lambda>t i n. t @ i) ''rnd'' ''seed'' 0 sample_config sample_fs = (Inr st, f')
    \<and> create_node_crt ''key'' 0 st ''dc1'' ''n1'' agent_certificate_ou = Inr (CertPem crt, key)
    \<and> update_credentials (CertPem crt) key sample_node_state sample_files = (Inr (), ns', g')
    \<and> handshake 0 srv (node_tls_client (CertPem (kp_leaf (st_ca st))) ns')"
proof -
  obtain st f' where s: "load_state (\<lambda>t i n. t @ i) ''rnd'' ''seed'' 0 sample_config sample_fs = (Inr st, f')"
    "valid_at 0 (kp_leaf (st_ca st))" "valid_at 0 (kp_leaf (st_agent_ca st))"
    "start_agent_api (\<lambda>a. Inr ()) sample_config st f' = Inr \<lparr>tls_address = agent_api_listen_host sample_config,
       tls_pair = st_server_key_pair st, tls_client_cas = [kp_leaf (st_agent_ca st)]\<rparr>"
    by (rule sample_registry)
  have r: "fs_readable sample_fs p" for p by (simp add: sample_fs_def)
  have "utf8_valid ''dc1''" "utf8_valid ''n1''" by (rule utf8_valid_ascii, simp)+
  then obtain crt where c: "create_node_crt ''key'' 0 st ''dc1'' ''n1'' agent_certificate_ou = Inr (CertPem crt, KeyPem (EdPrivate ''key''))"
    "crt_public crt = EdPublic ''key''"
    using create_node_crt_ok [of "''dc1''" "''n1''" agent_certificate_ou "''key''" 0 st] role_utf8(1) by metis
  then have k: "x509_key_pair (CertPem crt) (KeyPem (EdPrivate ''key'')) = Inr \<lparr>kp_leaf = crt, kp_private = EdPrivate ''key''\<rparr>"
    by (simp add: x509_key_pair_def)
  obtain ns' g' where u: "update_credentials (CertPem crt) (KeyPem (EdPrivate ''key'')) sample_node_state sample_files = (Inr (), ns', g')"
    using k by (simp add: update_credentials_def Let_def)
  have "handshake 0 \<lparr>tls_address = agent_api_listen_host sample_config, tls_pair = st_server_key_pair st,
      tls_client_cas = [kp_leaf (st_agent_ca st)]\<rparr> (node_tls_client (CertPem (kp_leaf (st_ca st))) ns')"
    using node_connects [OF s(1) r s(4,2,3) c(1) k u] by (simp add: whole_second_def second_def day_def node_certificate_expiry_def)
  with s(1) c(1) u show ?thesis by blast
qed

end
