(* ===== verification/Renewal.thy ===== *)
theory Renewal
  imports Guarantees Startup
begin

text \<open>
  The long run of one node against the registries: node-utils/helpers.go and lib.go on the one side,
  agent_api/node_api.go and authentication on the other. Others use the cluster meanwhile, connections
  break, the process restarts. Two behaviours are stated: a node that gets an answer to \<^verbatim>\<open>Config\<close> every half life
  of a certificate never loses its access, and a connection that has outlived half of its own certificate
  gets a new certificate with every answer.
\<close>

section \<open>One poll\<close>

text \<open>\<^verbatim>\<open>GetRegistryConfig\<close> with the call in it: \<open>ctx\<close> is how the registry sees the node's connection, \<open>now\<close>
  its clock when it looks at the certificate and \<open>issued\<close> when it makes the new one.\<close>

definition poll_registry ::
  "'e etcd \<Rightarrow> state \<Rightarrow> string \<Rightarrow> int \<Rightarrow> int \<Rightarrow> rpc_peer option \<Rightarrow> 'e \<Rightarrow> node_state \<Rightarrow> fs \<Rightarrow>
   config_response outcome \<times> node_state \<times> fs \<times> 'e" where
  "poll_registry E rst seed now issued ctx e st f =
     (case config_request E rst seed now issued ctx e of
        (answer, e) \<Rightarrow> (case get_registry_config answer st f of (r, st, f) \<Rightarrow> (r, st, f, e)))"

text \<open>\<^verbatim>\<open>ConfigBackgroundJob\<close> on one connection, for as many rounds as the list has: the seeds of the keys and the
  two clock readings of each.\<close>

fun poll_rounds ::
  "'e etcd \<Rightarrow> state \<Rightarrow> rpc_peer option \<Rightarrow> (string \<times> int \<times> int) list \<Rightarrow> 'e \<Rightarrow> node_state \<Rightarrow> fs \<Rightarrow>
   config_response outcome list \<times> node_state \<times> fs \<times> 'e" where
  "poll_rounds E rst ctx [] e st f = ([], st, f, e)"
| "poll_rounds E rst ctx ((seed, now, issued) # rounds) e st f =
     (case poll_registry E rst seed now issued ctx e st f of
        (r, st, f, e) \<Rightarrow> (case poll_rounds E rst ctx rounds e st f of (rs, w) \<Rightarrow> (r # rs, w)))"

section \<open>Sessions\<close>

text \<open>\<open>se_conn\<close> is the certificate of the last handshake, which the server sees until the connection ends;
  \<open>se_polled\<close> the time of the last poll with an answer.\<close>

record 'e session =
  se_now :: int
  se_polled :: int
  se_etcd :: 'e
  se_node :: node_state
  se_files :: fs
  se_conn :: "certificate option"

text \<open>
  The steps. \<open>Others\<close>: whatever the registries, their other clients and the passing of time do to the
  store. \<open>Wait\<close>: time passes, but never \<open>gap\<close> since the last answer. \<open>Connect\<close>: a handshake, for which the
  agent API must accept the certificate that the node has then; gRPC builds the resolver before it.
  \<open>Poll\<close>: a call over an open connection, at any registry with the authority \<open>ca\<close>. \<open>Restart\<close>: the process
  ends and starts again from its files. \<open>Cut\<close>: it ends while it writes the pair that a poll has brought, and starts
  again from what it left on the disk; \<open>CutStart\<close>: it ends while it writes back, at a start, the pair that it has read.
  A start that fails is no step: there is no session then.
\<close>

inductive session_step ::
  "'e etcd \<Rightarrow> ('e \<Rightarrow> bool) \<Rightarrow> ('e \<Rightarrow> string \<rightharpoonup> kv) \<Rightarrow> ('e \<Rightarrow> int set) \<Rightarrow> (string \<Rightarrow> bool) \<Rightarrow> key_pair \<Rightarrow> string \<Rightarrow> int \<Rightarrow>
   'e session \<Rightarrow> 'e session \<Rightarrow> bool"
  for E ok kvs leases P ca dir gap where
  Others: "registry_path P (kvs (se_etcd s), leases (se_etcd s)) (kvs e', leases e') \<Longrightarrow> ok e' \<Longrightarrow>
    session_step E ok kvs leases P ca dir gap s (s\<lparr>se_etcd := e'\<rparr>)"
| Wait: "se_now s \<le> t \<Longrightarrow> t \<le> se_polled s + gap \<Longrightarrow> t < 2 ^ 62 \<Longrightarrow>
    session_step E ok kvs leases P ca dir gap s (s\<lparr>se_now := t\<rparr>)"
| Disconnect: "session_step E ok kvs leases P ca dir gap s (s\<lparr>se_conn := None\<rparr>)"
| Connect: "c = kp_leaf (client_certificate_for_tls (se_node s)) \<Longrightarrow> verifies_client [kp_leaf ca] (se_now s) c \<Longrightarrow>
    session_step E ok kvs leases P ca dir gap s
      (s\<lparr>se_conn := Some c, se_node := (se_node s)\<lparr>nu_resolver := resolver_build (nu_resolver (se_node s))\<rparr>\<rparr>)"
| Poll: "se_conn s = Some c \<Longrightarrow> presents ctx c \<Longrightarrow> st_agent_ca rst = ca \<Longrightarrow> se_now s \<le> now \<Longrightarrow> now \<le> issued \<Longrightarrow>
    issued \<le> t \<Longrightarrow> t \<le> se_polled s + gap \<Longrightarrow> t < 2 ^ 62 \<Longrightarrow>
    poll_registry E rst seed now issued ctx (se_etcd s) (se_node s) (se_files s) = (r, st', f', e') \<Longrightarrow>
    session_step E ok kvs leases P ca dir gap s
      (s\<lparr>se_now := t, se_polled := (if is_ok r then now else se_polled s), se_etcd := e', se_node := st', se_files := f'\<rparr>)"
| Restart: "load_node_state dir ca_file crt_path key_path_name urls (se_files s) = (Inr st', f') \<Longrightarrow>
    session_step E ok kvs leases P ca dir gap s (s\<lparr>se_node := st', se_files := f', se_conn := None\<rparr>)"
| Cut: "se_conn s = Some c \<Longrightarrow> presents ctx c \<Longrightarrow> st_agent_ca rst = ca \<Longrightarrow> se_now s \<le> now \<Longrightarrow> now \<le> issued \<Longrightarrow>
    issued \<le> t \<Longrightarrow> t \<le> se_polled s + gap \<Longrightarrow> t < 2 ^ 62 \<Longrightarrow>
    config_request E rst seed now issued ctx (se_etcd s) = (Inr res, e') \<Longrightarrow>
    cfg_certificate res = Some crt \<Longrightarrow> cfg_key res = Some key \<Longrightarrow> x509_key_pair crt key = Inr kp \<Longrightarrow>
    interrupted_writes (nu_cert_file (se_node s)) crt (nu_key_file (se_node s)) key (se_files s) f1 \<Longrightarrow>
    load_node_state dir ca_file crt_path key_path_name urls f1 = (Inr st', f') \<Longrightarrow>
    session_step E ok kvs leases P ca dir gap s
      (s\<lparr>se_now := t, se_etcd := e', se_node := st', se_files := f', se_conn := None\<rparr>)"
| CutStart: "fs_files (se_files s) (nu_cert_file (se_node s)) = Some crt \<Longrightarrow> fs_files (se_files s) (nu_key_file (se_node s)) = Some key \<Longrightarrow>
    interrupted_writes (nu_cert_file (se_node s)) crt (nu_key_file (se_node s)) key (se_files s) f1 \<Longrightarrow>
    load_node_state dir ca_file crt_path key_path_name urls f1 = (Inr st', f') \<Longrightarrow>
    session_step E ok kvs leases P ca dir gap s (s\<lparr>se_node := st', se_files := f', se_conn := None\<rparr>)"

abbreviation session_path where
  "session_path E ok kvs leases P ca dir gap \<equiv> (session_step E ok kvs leases P ca dir gap)\<^sup>*\<^sup>*"

section \<open>Certificates of one node\<close>

definition node_certificate :: "key_pair \<Rightarrow> string \<Rightarrow> node_schema \<Rightarrow> int \<Rightarrow> certificate \<Rightarrow> bool" where
  "node_certificate ca role node i c \<longleftrightarrow> (\<exists>rst seed. st_agent_ca rst = ca
     \<and> create_node_crt seed i rst (ns_datacenter node) (ns_name node) role = Inr (CertPem c, KeyPem (EdPrivate seed)))"

text \<open>Names that a certificate can hold, in a datacenter whose name is shorter than the role.\<close>

definition certifiable :: "string \<Rightarrow> node_schema \<Rightarrow> bool" where
  "certifiable role node \<longleftrightarrow> utf8_valid (ns_datacenter node) \<and> utf8_valid (ns_name node) \<and> utf8_valid role
     \<and> length (ns_datacenter node) < length role \<and> length role < 100"

lemma node_certificate_fields:
  assumes "node_certificate ca role node i c" "certifiable role node"
  shows "pn_ou (crt_subject c) = [ns_datacenter node, role]" "pn_cn (crt_subject c) = ns_name node"
    "crt_not_before c = whole_second i" "crt_not_after c = whole_second (i + node_certificate_expiry)"
proof -
  obtain rst seed where c: "create_node_crt seed i rst (ns_datacenter node) (ns_name node) role = Inr (CertPem c, KeyPem (EdPrivate seed))"
    using assms(1) by (auto simp: node_certificate_def)
  have utf: "utf8_valid (ns_datacenter node)" "utf8_valid (ns_name node)" "utf8_valid role"
    using assms(2) by (simp_all add: certifiable_def)
  obtain c' where "create_node_crt seed i rst (ns_datacenter node) (ns_name node) role = Inr (CertPem c', KeyPem (EdPrivate seed))"
    "crt_subject c' = \<lparr>pn_organization = ssle_organization, pn_ou = der_sorted [role, ns_datacenter node], pn_cn = ns_name node\<rparr>"
    "crt_not_before c' = whole_second i" "crt_not_after c' = whole_second (i + node_certificate_expiry)"
    by (rule create_node_crt_ok [OF utf, where seed = seed and now = i and st = rst]) (rule that)
  with c assms(2) show "pn_ou (crt_subject c) = [ns_datacenter node, role]" "pn_cn (crt_subject c) = ns_name node"
    "crt_not_before c = whole_second i" "crt_not_after c = whole_second (i + node_certificate_expiry)"
    by (simp_all add: certifiable_def units_short_datacenter)
qed

lemma node_certificate_identity:
  assumes "node_certificate ca role node i c" "certifiable role node"
    and "stored_node m (ns_datacenter node) (ns_name node) = Inr (Some node)"
  shows "cert_node m c = Some (role, node)" "presents ctx c \<Longrightarrow> caller m ctx role = Inr node"
  using assms(3) node_certificate_fields [OF assms(1,2)] by (auto simp: cert_node_def intro: caller_with_units)

lemma whole_second_bounds: "t - second < whole_second t" "whole_second t \<le> t"
proof -
  have "t div second * second + t mod second = t" by simp
  moreover have "0 \<le> t mod second" "t mod second < second" by (simp_all add: second_def)
  ultimately show "t - second < whole_second t" "whole_second t \<le> t" unfolding whole_second_def by linarith+
qed

lemma whole_second_mono: "t \<le> u \<Longrightarrow> whole_second t \<le> whole_second u"
  by (simp add: whole_second_def second_def zdiv_mono1)

lemma expiry_periods: "node_certificate_expiry = 2 * renew_period" "second < renew_period" "0 < second"
  by (simp_all add: node_certificate_expiry_def renew_period_def day_def second_def)

section \<open>Credentials on disk\<close>

text \<open>The pair in use is the one in the state directory, from where a restart takes it.\<close>

definition pair_on_disk :: "string \<Rightarrow> node_state \<Rightarrow> fs \<Rightarrow> bool" where
  "pair_on_disk dir st f \<longleftrightarrow>
     nu_cert_file st = path_join dir ''node.crt'' \<and> nu_key_file st = path_join dir ''node.key''
     \<and> nu_addrs_file st = path_join dir ''addrs''
     \<and> (\<forall>file \<in> {''node.crt'', ''node.key''}. fs_readable f (path_join dir file) \<and> fs_writable f (path_join dir file))
     \<and> (\<exists>crt key. fs_files f (path_join dir ''node.crt'') = Some crt \<and> fs_files f (path_join dir ''node.key'') = Some key
          \<and> x509_key_pair crt key = Inr (nu_credentials st))"

lemma make_dir_files:
  "make_dir f dir = (r, f') \<Longrightarrow> fs_files f' = fs_files f \<and> fs_readable f' = fs_readable f \<and> fs_writable f' = fs_writable f"
  by (auto simp: make_dir_def split: if_splits)

lemma load_node_crt_pair:
  assumes "load_node_crt dir crt_path key_path_name f = (Inr (cf, kf, kp), f')"
  shows "cf = path_join dir ''node.crt'' \<and> kf = path_join dir ''node.key''
    \<and> (\<exists>crt key. fs_files f' cf = Some crt \<and> fs_files f' kf = Some key \<and> x509_key_pair crt key = Inr kp)
    \<and> fs_readable f' = fs_readable f \<and> fs_writable f' = fs_writable f"
  using assms by (auto simp: load_node_crt_def write_file_def Let_def split: sum.splits if_splits)

lemma load_registry_addresses_frame:
  assumes "load_registry_addresses dir provided f = (Inr (af, addrs), f')"
  shows "af = path_join dir ''addrs'' \<and> (\<forall>p. p \<noteq> af \<longrightarrow> fs_files f' p = fs_files f p)
    \<and> fs_readable f' = fs_readable f \<and> fs_writable f' = fs_writable f"
  using assms by (auto simp: load_registry_addresses_def write_registry_addresses_def write_file_def Let_def
      split: sum.splits if_splits option.splits)

lemma load_node_state_parts:
  assumes "load_node_state dir ca_file crt_path key_path_name urls f = (Inr st, f')"
  obtains f1 cf kf kp f2 af addrs where "make_dir f dir = (Inr (), f1)"
    "load_node_crt dir crt_path key_path_name f1 = (Inr (cf, kf, kp), f2)"
    "load_registry_addresses dir urls f2 = (Inr (af, addrs), f')"
    "st = \<lparr>nu_credentials = kp, nu_resolver = \<lparr>rb_addrs = addrs, rb_resolver = None\<rparr>,
       nu_addrs_file = af, nu_cert_file = cf, nu_key_file = kf\<rparr>"
  using assms by (auto simp: load_node_state_def split: sum.splits prod.splits)

lemma load_node_state_pair:
  assumes "load_node_state dir ca_file crt_path key_path_name urls f = (Inr st, f')"
    and "\<forall>file \<in> {''node.crt'', ''node.key''}. fs_readable f (path_join dir file) \<and> fs_writable f (path_join dir file)"
  shows "pair_on_disk dir st f'"
proof (rule load_node_state_parts [OF assms(1)])
  fix f1 cf kf kp f2 af addrs
  assume l: "make_dir f dir = (Inr (), f1)" "load_node_crt dir crt_path key_path_name f1 = (Inr (cf, kf, kp), f2)"
    "load_registry_addresses dir urls f2 = (Inr (af, addrs), f')"
    "st = \<lparr>nu_credentials = kp, nu_resolver = \<lparr>rb_addrs = addrs, rb_resolver = None\<rparr>,
       nu_addrs_file = af, nu_cert_file = cf, nu_key_file = kf\<rparr>"
  show ?thesis
    using make_dir_files [OF l(1)] load_node_crt_pair [OF l(2)] load_registry_addresses_frame [OF l(3)] assms(2)
    by (auto simp: pair_on_disk_def l(4))
qed

lemma restart_same_pair:
  assumes "pair_on_disk dir st f" "load_node_state dir ca_file crt_path key_path_name urls f = (Inr st', f')"
  shows "nu_credentials st' = nu_credentials st" "pair_on_disk dir st' f'"
proof -
  show "pair_on_disk dir st' f'"
    using assms by (intro load_node_state_pair [OF assms(2)]) (simp add: pair_on_disk_def)
  show "nu_credentials st' = nu_credentials st"
  proof (rule load_node_state_parts [OF assms(2)])
    fix f1 cf kf kp f2 af addrs
    assume l: "make_dir f dir = (Inr (), f1)" "load_node_crt dir crt_path key_path_name f1 = (Inr (cf, kf, kp), f2)"
      "st' = \<lparr>nu_credentials = kp, nu_resolver = \<lparr>rb_addrs = addrs, rb_resolver = None\<rparr>,
         nu_addrs_file = af, nu_cert_file = cf, nu_key_file = kf\<rparr>"
    show ?thesis
      using l(2) make_dir_files [OF l(1)] assms(1)
      by (auto simp: l(3) load_node_crt_def read_file_or_def read_file_def pair_on_disk_def Let_def split: sum.splits prod.splits)
  qed
qed

text \<open>A start after writes that were cut short: if it succeeds, it takes the old pair or the new one.\<close>

lemma pair_parses:
  "x509_key_pair crt key = Inr kp \<longleftrightarrow>
    crt = CertPem (kp_leaf kp) \<and> key = KeyPem (kp_private kp) \<and> public_of (kp_private kp) = crt_public (kp_leaf kp)"
  by (cases kp) (auto simp: x509_key_pair_def split: blob.splits)

lemma interrupted_frame:
  assumes "interrupted_writes cf crt kf key f f1"
  shows "fs_readable f1 = fs_readable f" "fs_writable f1 = fs_writable f" "p \<noteq> cf \<Longrightarrow> p \<noteq> kf \<Longrightarrow> fs_files f1 p = fs_files f p"
  using assms by (cases rule: interrupted_writes.cases; simp add: write_file_def)+

lemma interrupted_files:
  assumes "interrupted_writes cf crt kf key f f1" "cf \<noteq> kf" "fs_writable f cf" "fs_writable f kf"
    and "fs_files f cf = Some crt0" "fs_files f kf = Some key0"
  obtains torn where "fs_files f1 cf \<in> {Some crt0, Some crt, Some (Raw torn)}" "fs_files f1 kf \<in> {Some key0, Some key, Some (Raw torn)}"
  using assms by (cases rule: interrupted_writes.cases) (auto simp: write_file_def)

lemma interrupted_start:
  assumes "pair_on_disk dir st f" "x509_key_pair crt key = Inr kp"
    and "interrupted_writes (nu_cert_file st) crt (nu_key_file st) key f f1"
    and "load_node_state dir ca_file crt_path key_path_name urls f1 = (Inr st', f')"
  shows "pair_on_disk dir st' f'" "kp_leaf (nu_credentials st') \<in> {kp_leaf (nu_credentials st), kp_leaf kp}"
proof -
  let ?c = "path_join dir ''node.crt''" and ?k = "path_join dir ''node.key''"
  have d: "nu_cert_file st = ?c" "nu_key_file st = ?k" "fs_readable f ?c" "fs_readable f ?k" "fs_writable f ?c" "fs_writable f ?k"
    using assms(1) by (simp_all add: pair_on_disk_def)
  note i = assms(3) [unfolded d(1,2)]
  note fr = interrupted_frame [OF i]
  show "pair_on_disk dir st' f'" by (rule load_node_state_pair [OF assms(4)]) (simp add: fr d)
  obtain crt0 key0 where old: "fs_files f ?c = Some crt0" "fs_files f ?k = Some key0" "x509_key_pair crt0 key0 = Inr (nu_credentials st)"
    using assms(1) by (auto simp: pair_on_disk_def)
  obtain torn where files: "fs_files f1 ?c \<in> {Some crt0, Some crt, Some (Raw torn)}"
    "fs_files f1 ?k \<in> {Some key0, Some key, Some (Raw torn)}"
    by (rule interrupted_files [OF i _ d(5,6) old(1,2)]) simp
  show "kp_leaf (nu_credentials st') \<in> {kp_leaf (nu_credentials st), kp_leaf kp}"
  proof (rule load_node_state_parts [OF assms(4)])
    fix f2 cf kf kp' f3 af addrs
    assume l: "make_dir f1 dir = (Inr (), f2)" "load_node_crt dir crt_path key_path_name f2 = (Inr (cf, kf, kp'), f3)"
      "st' = \<lparr>nu_credentials = kp', nu_resolver = \<lparr>rb_addrs = addrs, rb_resolver = None\<rparr>,
         nu_addrs_file = af, nu_cert_file = cf, nu_key_file = kf\<rparr>"
    have "fs_files f2 = fs_files f1" "fs_readable f2 = fs_readable f" using make_dir_files [OF l(1)] fr by simp_all
    then obtain crt1 key1 where "fs_files f1 ?c = Some crt1" "fs_files f1 ?k = Some key1" "x509_key_pair crt1 key1 = Inr kp'"
      using l(2) files d by (auto simp: load_node_crt_def read_file_or_def read_file_def Let_def split: sum.splits prod.splits)
    then show ?thesis using files old(3) assms(2) by (auto simp: l(3) pair_parses)
  qed
qed

section \<open>What one poll does to the node\<close>

lemma get_registry_config_kept:
  assumes "cfg_certificate res = None" "rb_resolver (nu_resolver st) = Some old" "pair_on_disk dir st f"
  shows "\<exists>st' f'. get_registry_config (Inr res) st f = (Inr res, st', f') \<and> nu_credentials st' = nu_credentials st
    \<and> rb_resolver (nu_resolver st') = Some (cfg_registry_addrs res) \<and> pair_on_disk dir st' f'"
  using assms
  by (auto simp: get_registry_config_def update_addrs_def resolver_update_def write_registry_addresses_def write_file_def
      pair_on_disk_def)

lemma get_registry_config_renewed:
  assumes "cfg_certificate res = Some crt" "cfg_key res = Some key" "x509_key_pair crt key = Inr kp"
    and "rb_resolver (nu_resolver st) = Some old" "pair_on_disk dir st f"
  shows "\<exists>st' f'. get_registry_config (Inr res) st f = (Inr res, st', f') \<and> nu_credentials st' = kp
    \<and> rb_resolver (nu_resolver st') = Some (cfg_registry_addrs res) \<and> pair_on_disk dir st' f'"
  using assms
  by (auto simp: get_registry_config_def update_credentials_def update_addrs_def resolver_update_def
      write_registry_addresses_def write_file_def pair_on_disk_def Let_def)

text \<open>A poll of a node over a connection with one of its certificates: it is always answered, leaves the store
  as it is, and brings a new pair exactly in the second half of the connection's certificate.\<close>

context etcd_live
begin

lemma poll_answered:
  assumes "wf e" "presents ctx c" "node_certificate ca role node i c" "certifiable role node" "st_agent_ca rst = ca"
    and "stored_node (kvs e) (ns_datacenter node) (ns_name node) = Inr (Some node)"
    and "\<bar>crt_not_after c - now\<bar> < 2 ^ 62" "rb_resolver (nu_resolver st) \<noteq> None" "pair_on_disk dir st f"
  obtains res st' f' e' where "poll_registry E rst seed now issued ctx e st f = (Inr res, st', f', e')"
    "wf e'" "kvs e' = kvs e" "leases e' = leases e" "pair_on_disk dir st' f'" "rb_resolver (nu_resolver st') \<noteq> None"
    "crt_not_after c - now < renew_period \<Longrightarrow> cfg_certificate res = Some (CertPem (kp_leaf (nu_credentials st')))
       \<and> node_certificate ca role node issued (kp_leaf (nu_credentials st'))"
    "renew_period \<le> crt_not_after c - now \<Longrightarrow> cfg_certificate res = None \<and> nu_credentials st' = nu_credentials st"
proof -
  have utf: "utf8_valid (ns_datacenter node)" "utf8_valid (ns_name node)" "utf8_valid role"
    using assms(4) by (simp_all add: certifiable_def)
  obtain c' where c': "create_node_crt seed issued rst (ns_datacenter node) (ns_name node) role = Inr (CertPem c', KeyPem (EdPrivate seed))"
    "crt_public c' = EdPublic seed"
    by (rule create_node_crt_ok [OF utf, where seed = seed and now = issued and st = rst]) (rule that)
  obtain e' res where req: "config_request E rst seed now issued ctx e = (Inr res, e')"
    and e': "wf e'" "kvs e' = kvs e" "leases e' = leases e"
    and res: "cfg_certificate res = (if crt_not_after c - now < renew_period then Some (CertPem c') else None)"
      "cfg_key res = (if crt_not_after c - now < renew_period then Some (KeyPem (EdPrivate seed)) else None)"
    using config_request_total [OF assms(1) assms(2) [unfolded presents_def] node_certificate_identity(1) [OF assms(3,4,6)]
        c'(1) assms(7)] by auto
  obtain old where old: "rb_resolver (nu_resolver st) = Some old" using assms(8) by blast
  show thesis
  proof (cases "crt_not_after c - now < renew_period")
    case True
    have kp: "x509_key_pair (CertPem c') (KeyPem (EdPrivate seed)) = Inr \<lparr>kp_leaf = c', kp_private = EdPrivate seed\<rparr>"
      using c'(2) by (simp add: x509_key_pair_def)
    have "node_certificate ca role node issued c'" using c'(1) assms(5) by (auto simp: node_certificate_def)
    then show thesis
      using get_registry_config_renewed [OF _ _ kp old assms(9), of res] req e' res True
      by (auto simp: poll_registry_def intro!: that)
  next
    case False
    then show thesis
      using get_registry_config_kept [OF _ old assms(9), of res] req e' res
      by (auto simp: poll_registry_def intro!: that)
  qed
qed

end

section \<open>The invariant of a session\<close>

definition session_ok ::
  "('e \<Rightarrow> bool) \<Rightarrow> ('e \<Rightarrow> string \<rightharpoonup> kv) \<Rightarrow> ('e \<Rightarrow> int set) \<Rightarrow> (string \<Rightarrow> bool) \<Rightarrow> key_pair \<Rightarrow> string \<Rightarrow> int \<Rightarrow>
   string \<Rightarrow> node_schema \<Rightarrow> 'e session \<Rightarrow> bool" where
  "session_ok ok kvs leases P ca dir gap role node s \<longleftrightarrow>
     ok (se_etcd s) \<and> reachable P (kvs (se_etcd s), leases (se_etcd s))
     \<and> stored_node (kvs (se_etcd s)) (ns_datacenter node) (ns_name node) = Inr (Some node)
     \<and> 0 \<le> se_now s \<and> se_now s < 2 ^ 62 \<and> se_polled s \<le> se_now s \<and> se_now s \<le> se_polled s + gap
     \<and> pair_on_disk dir (se_node s) (se_files s)
     \<and> (\<exists>i. 0 \<le> i \<and> i \<le> se_now s \<and> node_certificate ca role node i (kp_leaf (nu_credentials (se_node s))))
     \<and> se_polled s + gap \<le> crt_not_after (kp_leaf (nu_credentials (se_node s)))
     \<and> (\<forall>c. se_conn s = Some c \<longrightarrow>
          (\<exists>j. 0 \<le> j \<and> j \<le> se_now s \<and> node_certificate ca role node j c)
          \<and> crt_not_after c \<le> crt_not_after (kp_leaf (nu_credentials (se_node s)))
          \<and> rb_resolver (nu_resolver (se_node s)) \<noteq> None)"

lemma pair_on_disk_resolver: "pair_on_disk dir (st\<lparr>nu_resolver := b\<rparr>) f \<longleftrightarrow> pair_on_disk dir st f"
  by (simp add: pair_on_disk_def)

lemma certificate_near:
  assumes "node_certificate ca role node j c" "certifiable role node" "0 \<le> j" "j \<le> now" "now < 2 ^ 62"
  shows "crt_not_after c \<le> whole_second (now + node_certificate_expiry)" "\<bar>crt_not_after c - now\<bar> < 2 ^ 62"
proof -
  note c = node_certificate_fields(4) [OF assms(1,2)]
  show upper: "crt_not_after c \<le> whole_second (now + node_certificate_expiry)"
    using whole_second_mono [of "j + node_certificate_expiry" "now + node_certificate_expiry"] assms(4) by (simp add: c)
  have "0 \<le> crt_not_after c"
    using whole_second_mono [of 0 "j + node_certificate_expiry"] assms(3) expiry_periods by (simp add: c whole_second_def second_def)
  moreover have "crt_not_after c \<le> now + node_certificate_expiry" using upper whole_second_bounds(2) order_trans by blast
  moreover have "node_certificate_expiry < 2 ^ 62" by (simp add: node_certificate_expiry_def day_def second_def)
  ultimately show "\<bar>crt_not_after c - now\<bar> < 2 ^ 62" using assms(3-5) by (auto simp: abs_less_iff)
qed

lemma session_poll_ok:
  assumes "etcd_live E ok kvs leases" "session_ok ok kvs leases P ca dir gap role node s"
    and "certifiable role node" "gap \<le> renew_period"
    and "se_conn s = Some c" "presents ctx c" "st_agent_ca rst = ca" "se_now s \<le> now" "now \<le> issued"
    and "issued \<le> t" "t \<le> se_polled s + gap" "t < 2 ^ 62"
    and "poll_registry E rst seed now issued ctx (se_etcd s) (se_node s) (se_files s) = (r, st', f', e')"
  shows "is_ok r" "session_ok ok kvs leases P ca dir gap role node
    (s\<lparr>se_now := t, se_polled := now, se_etcd := e', se_node := st', se_files := f'\<rparr>)"
proof -
  note ok = assms(2) [unfolded session_ok_def]
  obtain j where j: "0 \<le> j" "j \<le> se_now s" "node_certificate ca role node j c" using ok assms(5) by blast
  have now: "j \<le> now" "now < 2 ^ 62" using ok j(2) assms(8-12) by auto
  note after = certificate_near [OF j(3) assms(3) j(1) now]
  obtain res st1 f1 e1 where poll: "poll_registry E rst seed now issued ctx (se_etcd s) (se_node s) (se_files s) = (Inr res, st1, f1, e1)"
    and e1: "ok e1" "kvs e1 = kvs (se_etcd s)" "leases e1 = leases (se_etcd s)" "pair_on_disk dir st1 f1" "rb_resolver (nu_resolver st1) \<noteq> None"
    and renewed: "crt_not_after c - now < renew_period \<Longrightarrow> node_certificate ca role node issued (kp_leaf (nu_credentials st1))"
    and kept: "renew_period \<le> crt_not_after c - now \<Longrightarrow> nu_credentials st1 = nu_credentials (se_node s)"
    by (rule etcd_live.poll_answered [OF assms(1) _ assms(6) j(3) assms(3,7) _ after(2), of "se_etcd s" "se_node s" dir "se_files s" seed issued])
      (use ok assms(5) in auto)
  with assms(13) have eq: "r = Inr res" "st' = st1" "f' = f1" "e' = e1" by simp_all
  show "is_ok r" by (simp add: eq)
  have time: "0 \<le> t" "t \<le> now + gap" "0 \<le> issued" "j \<le> t" "now \<le> t" using ok j assms(8-11) by auto
  show "session_ok ok kvs leases P ca dir gap role node
    (s\<lparr>se_now := t, se_polled := now, se_etcd := e', se_node := st', se_files := f'\<rparr>)"
  proof (cases "crt_not_after c - now < renew_period")
    case True
    note n = node_certificate_fields(4) [OF renewed [OF True] assms(3)]
    have "now + gap \<le> crt_not_after (kp_leaf (nu_credentials st1))"
      using whole_second_bounds(1) [of "issued + node_certificate_expiry"] expiry_periods assms(4,9) by (simp add: n)
    moreover have "crt_not_after c \<le> crt_not_after (kp_leaf (nu_credentials st1))"
      using after(1) whole_second_mono [of "now + node_certificate_expiry" "issued + node_certificate_expiry"] assms(9) by (simp add: n)
    ultimately show ?thesis
      using ok e1 time renewed [OF True] j assms(5,10,12) unfolding session_ok_def eq by auto
  next
    case False
    moreover from this have "now + gap \<le> crt_not_after (kp_leaf (nu_credentials (se_node s)))" using ok assms(4,5) by force
    ultimately show ?thesis
      using ok e1 time kept j assms(5,8-10,12) unfolding session_ok_def eq by (auto intro: order_trans)
  qed
qed

lemma session_cut_ok:
  assumes "etcd_live E ok kvs leases" "session_ok ok kvs leases P ca dir gap role node s"
    and "certifiable role node" "gap \<le> renew_period"
    and "se_conn s = Some c" "presents ctx c" "st_agent_ca rst = ca" "se_now s \<le> now" "now \<le> issued"
    and "issued \<le> t" "t \<le> se_polled s + gap" "t < 2 ^ 62"
    and "config_request E rst seed now issued ctx (se_etcd s) = (Inr res, e')"
    and "cfg_certificate res = Some crt" "cfg_key res = Some key" "x509_key_pair crt key = Inr kp"
    and "interrupted_writes (nu_cert_file (se_node s)) crt (nu_key_file (se_node s)) key (se_files s) f1"
    and "load_node_state dir ca_file crt_path key_path_name urls f1 = (Inr st', f')"
  shows "session_ok ok kvs leases P ca dir gap role node
    (s\<lparr>se_now := t, se_etcd := e', se_node := st', se_files := f', se_conn := None\<rparr>)"
proof -
  note ok = assms(2) [unfolded session_ok_def]
  obtain j where j: "0 \<le> j" "j \<le> se_now s" "node_certificate ca role node j c" using ok assms(5) by blast
  have now: "j \<le> now" "now < 2 ^ 62" using ok j(2) assms(8-12) by auto
  note after = certificate_near [OF j(3) assms(3) j(1) now]
  obtain res1 st1 f2 e1 where poll: "poll_registry E rst seed now issued ctx (se_etcd s) (se_node s) (se_files s) = (Inr res1, st1, f2, e1)"
    and e1: "ok e1" "kvs e1 = kvs (se_etcd s)" "leases e1 = leases (se_etcd s)"
    and renewed: "crt_not_after c - now < renew_period \<Longrightarrow> cfg_certificate res1 = Some (CertPem (kp_leaf (nu_credentials st1)))
       \<and> node_certificate ca role node issued (kp_leaf (nu_credentials st1))"
    and kept: "renew_period \<le> crt_not_after c - now \<Longrightarrow> cfg_certificate res1 = None"
    by (rule etcd_live.poll_answered [OF assms(1) _ assms(6) j(3) assms(3,7) _ after(2), of "se_etcd s" "se_node s" dir "se_files s" seed issued])
      (use ok assms(5) in auto)
  from poll assms(13) have eq: "res1 = res" "e1 = e'"
    by (auto simp: poll_registry_def get_registry_config_def split: prod.splits sum.splits)
  with kept assms(14) have late: "crt_not_after c - now < renew_period" by force
  have new: "node_certificate ca role node issued (kp_leaf kp)"
    using renewed [OF late] assms(14,16) by (auto simp: eq pair_parses)
  note n = node_certificate_fields(4) [OF new assms(3)]
  have "se_polled s + gap \<le> crt_not_after (kp_leaf kp)"
    using whole_second_bounds(1) [of "issued + node_certificate_expiry"] expiry_periods ok assms(4,8,9) by (simp add: n)
  moreover have d: "pair_on_disk dir (se_node s) (se_files s)" using ok by simp
  note start = interrupted_start [OF d assms(16-18)]
  have "0 \<le> t" "0 \<le> issued" "se_now s \<le> t" using ok assms(8-10) by auto
  ultimately show ?thesis
    using ok start e1 new assms(10-12) unfolding session_ok_def eq by (auto intro: order_trans)
qed

lemma session_step_ok:
  assumes "session_step E ok kvs leases P ca dir gap s s'" "etcd_live E ok kvs leases"
    and "session_ok ok kvs leases P ca dir gap role node s" "certifiable role node" "gap \<le> renew_period"
  shows "session_ok ok kvs leases P ca dir gap role node s'"
  using assms(1)
proof (cases rule: session_step.cases)
  case (Others e')
  note ok = assms(3) [unfolded session_ok_def]
  have "reachable P (kvs e', leases e')" using ok Others(2) by (blast intro: reachable_path)
  moreover have "stored_node (kvs e') (ns_datacenter node) (ns_name node) = Inr (Some node)"
    using path_keeps_stored_node [OF Others(2)] ok reachable_ok by fastforce
  ultimately show ?thesis using ok Others(1,3) by (simp add: session_ok_def)
next
  case (Wait t)
  then show ?thesis using assms(3) by (auto simp: session_ok_def intro: order_trans)
next
  case Disconnect
  then show ?thesis using assms(3) by (simp add: session_ok_def)
next
  case (Connect c)
  then show ?thesis
    using assms(3) by (auto simp: session_ok_def client_certificate_for_tls_def pair_on_disk_resolver resolver_build_def)
next
  case (Poll c ctx rst now issued t seed r st' f' e')
  note p = session_poll_ok [OF assms(2-5) Poll(2-10)]
  then show ?thesis using Poll(1) by simp
next
  case (Restart ca_file crt_path key_path_name urls st' f')
  have "pair_on_disk dir (se_node s) (se_files s)" using assms(3) by (simp add: session_ok_def)
  note r = restart_same_pair [OF this Restart(2)]
  show ?thesis using assms(3) r Restart(1) by (simp add: session_ok_def)
next
  case (Cut c ctx rst now issued t seed res e' crt key kp f1 ca_file crt_path key_path_name urls st' f')
  show ?thesis using session_cut_ok [OF assms(2-5) Cut(2-15)] Cut(1) by simp
next
  case (CutStart crt key f1 ca_file crt_path key_path_name urls st' f')
  have d: "pair_on_disk dir (se_node s) (se_files s)" using assms(3) by (simp add: session_ok_def)
  with CutStart(2,3) have "x509_key_pair crt key = Inr (nu_credentials (se_node s))" by (simp add: pair_on_disk_def)
  note r = interrupted_start [OF d this CutStart(4,5)]
  then have "kp_leaf (nu_credentials st') = kp_leaf (nu_credentials (se_node s))" by simp
  then show ?thesis using assms(3) r CutStart(1) by (simp add: session_ok_def)
qed

lemma session_path_ok:
  "session_path E ok kvs leases P ca dir gap s s' \<Longrightarrow> etcd_live E ok kvs leases \<Longrightarrow> certifiable role node \<Longrightarrow> gap \<le> renew_period \<Longrightarrow>
    session_ok ok kvs leases P ca dir gap role node s \<Longrightarrow> session_ok ok kvs leases P ca dir gap role node s'"
  by (induction rule: rtranclp_induct) (auto intro: session_step_ok)

text \<open>What the invariant gives: the certificate in use passes the agent API, and every call is answered.\<close>

lemma session_access:
  assumes "etcd_live E ok kvs leases" "session_ok ok kvs leases P ca dir gap role node s"
    and "certifiable role node" "authority_certificate ou start ca" "valid_at (se_now s) (kp_leaf ca)"
  shows "verifies_client [kp_leaf ca] (se_now s) (kp_leaf (nu_credentials (se_node s)))"
    "c = kp_leaf (nu_credentials (se_node s)) \<or> se_conn s = Some c \<Longrightarrow> presents ctx c \<Longrightarrow>
       caller (kvs (se_etcd s)) ctx role = Inr node"
proof -
  note ok = assms(2) [unfolded session_ok_def]
  obtain i where i: "0 \<le> i" "i \<le> se_now s" "node_certificate ca role node i (kp_leaf (nu_credentials (se_node s)))"
    using ok by blast
  obtain rst seed where rst: "st_agent_ca rst = ca" "create_node_crt seed i rst (ns_datacenter node) (ns_name node) role =
      Inr (CertPem (kp_leaf (nu_credentials (se_node s))), KeyPem (EdPrivate seed))"
    using i(3) by (auto simp: node_certificate_def)
  have "se_now s \<le> whole_second (i + node_certificate_expiry)"
    using ok node_certificate_fields(4) [OF i(3) assms(3)] by auto
  then show "verifies_client [kp_leaf ca] (se_now s) (kp_leaf (nu_credentials (se_node s)))"
    using node_certificate_verifies [OF rst(2), of ou start "se_now s"] assms(4,5) i(2) whole_second_bounds(2) [of i]
    by (simp add: rst(1) order_trans [OF whole_second_bounds(2)])
  show "caller (kvs (se_etcd s)) ctx role = Inr node"
    if "c = kp_leaf (nu_credentials (se_node s)) \<or> se_conn s = Some c" "presents ctx c"
    using node_certificate_identity(2) [OF _ assms(3)] ok that by metis
qed

section \<open>Access is kept\<close>

definition session_start :: "int \<Rightarrow> 'e \<Rightarrow> node_state \<Rightarrow> fs \<Rightarrow> 'e session" where
  "session_start t e st f =
     \<lparr>se_now = t, se_polled = t, se_etcd = e, se_node = st, se_files = f, se_conn = None\<rparr>"

lemma session_start_ok:
  assumes "ok e" "reachable P (kvs e, leases e)" "stored_node (kvs e) (ns_datacenter node) (ns_name node) = Inr (Some node)"
    and "certifiable role node" "load_node_state dir ca_file crt_path key_path_name urls f0 = (Inr st, f)"
    and "\<forall>file \<in> {''node.crt'', ''node.key''}. fs_readable f0 (path_join dir file) \<and> fs_writable f0 (path_join dir file)"
    and "node_certificate ca role node i (kp_leaf (nu_credentials st))"
    and "0 \<le> i" "i \<le> t0" "t0 < 2 ^ 62" "0 \<le> gap" "t0 + gap \<le> whole_second (i + node_certificate_expiry)"
  shows "session_ok ok kvs leases P ca dir gap role node (session_start t0 e st f)"
  using assms load_node_state_pair [OF assms(5,6)] node_certificate_fields(4) [OF assms(7,4)]
  by (auto simp: session_ok_def session_start_def)

text \<open>C11: a node that starts with a certificate of its own and gets an answer from some registry at least every
  half life of a certificate (three and a half days) never loses its access, whatever the others do to the
  store, however often its connection breaks and its process restarts, before, between or after the writes of a renewal: its
  current certificate passes the agent API at any moment while the authority is valid, stands for the same stored node
  in the same role, and every further poll is answered. A process that was interrupted while it stored a renewed pair
  is taken up again where it starts; where it cannot, because the files no longer match, there is no further step.\<close>
theorem node_keeps_access:
  assumes "etcd_live E ok kvs leases" "ok e" "reachable P (kvs e, leases e)"
    and "stored_node (kvs e) (ns_datacenter node) (ns_name node) = Inr (Some node)" "certifiable role node"
    and "load_node_state dir ca_file crt_path key_path_name urls f0 = (Inr st, f)"
    and "\<forall>file \<in> {''node.crt'', ''node.key''}. fs_readable f0 (path_join dir file) \<and> fs_writable f0 (path_join dir file)"
    and "node_certificate ca role node i (kp_leaf (nu_credentials st))"
    and "0 \<le> i" "i \<le> t0" "t0 < 2 ^ 62" "t0 + gap \<le> whole_second (i + node_certificate_expiry)"
    and "0 \<le> gap" "gap \<le> renew_period"
    and "session_path E ok kvs leases P ca dir gap (session_start t0 e st f) s"
    and "authority_certificate ou start ca" "valid_at (se_now s) (kp_leaf ca)"
  shows "verifies_client [kp_leaf ca] (se_now s) (kp_leaf (nu_credentials (se_node s)))
    \<and> (\<forall>c ctx. (c = kp_leaf (nu_credentials (se_node s)) \<or> se_conn s = Some c) \<and> presents ctx c \<longrightarrow>
         caller (kvs (se_etcd s)) ctx role = Inr node)
    \<and> (\<forall>c ctx rst seed. se_conn s = Some c \<and> presents ctx c \<and> st_agent_ca rst = ca \<longrightarrow>
         is_ok (fst (poll_registry E rst seed (se_now s) (se_now s) ctx (se_etcd s) (se_node s) (se_files s))))"
proof -
  have ok: "session_ok ok kvs leases P ca dir gap role node s"
    by (rule session_path_ok [OF assms(15,1,5,14)], rule session_start_ok [where ok = ok and kvs = kvs and leases = leases, OF assms(2-11,13,12)])
  have "is_ok (fst (poll_registry E rst seed (se_now s) (se_now s) ctx (se_etcd s) (se_node s) (se_files s)))"
    if c: "se_conn s = Some c" "presents ctx c" "st_agent_ca rst = ca" for c ctx rst seed
  proof -
    obtain r st' f' e' where poll: "poll_registry E rst seed (se_now s) (se_now s) ctx (se_etcd s) (se_node s) (se_files s) = (r, st', f', e')"
      by (rule prod_cases4)
    have "is_ok r"
      by (rule session_poll_ok(1) [OF assms(1) ok assms(5,14) c order_refl order_refl order_refl _ _ poll])
        (use ok in \<open>simp_all add: session_ok_def\<close>)
    with poll show ?thesis by simp
  qed
  with session_access [OF assms(1) ok assms(5,16,17)] show ?thesis by blast
qed

section \<open>A node of the sample cluster\<close>

definition sample_credentials :: "certificate \<Rightarrow> fs" where
  "sample_credentials c = sample_files\<lparr>fs_files := [''ca.crt'' \<mapsto> CertPem sample_authority, ''node.crt'' \<mapsto> CertPem c,
     ''node.key'' \<mapsto> KeyPem (EdPrivate ''key'')]\<rparr>"

lemma sample_certifiable: "certifiable ''Agents'' sample_node"
  using sample_nodes_valid(1) utf8_valid_ascii [of "''Agents''"]
  by (auto simp: certifiable_def node_valid_def sample_node_def)

lemma sample_agent_authority: "authority_certificate ''Agents'' 0 (st_agent_ca sample_state)"
  by (simp add: authority_certificate_def sample_state_def sample_authority_def whole_second_def second_def day_def Let_def)

text \<open>It was issued a certificate at time 0 and has started with it.\<close>

lemma sample_issued:
  obtains c ns f where "node_certificate (st_agent_ca sample_state) ''Agents'' sample_node 0 c"
    "create_node_crt ''key'' 0 sample_state (ns_datacenter sample_node) (ns_name sample_node) ''Agents'' = Inr (CertPem c, KeyPem (EdPrivate ''key''))"
    "load_node_state ''node'' ''ca.crt'' ''node.crt'' ''node.key'' [''r1:4003''] (sample_credentials c) = (Inr ns, f)"
    "nu_credentials ns = \<lparr>kp_leaf = c, kp_private = EdPrivate ''key''\<rparr>"
proof -
  have utf: "utf8_valid (ns_datacenter sample_node)" "utf8_valid (ns_name sample_node)" "utf8_valid ''Agents''"
    using sample_certifiable by (simp_all add: certifiable_def)
  obtain c where c: "create_node_crt ''key'' 0 sample_state (ns_datacenter sample_node) (ns_name sample_node) ''Agents'' =
      Inr (CertPem c, KeyPem (EdPrivate ''key''))" "crt_public c = EdPublic ''key''"
    by (rule create_node_crt_ok [OF utf, where seed = "''key''" and now = 0 and st = sample_state]) (rule that)
  then have k: "x509_key_pair (CertPem c) (KeyPem (EdPrivate ''key'')) = Inr \<lparr>kp_leaf = c, kp_private = EdPrivate ''key''\<rparr>"
    by (simp add: x509_key_pair_def)
  obtain ns f where "load_node_state ''node'' ''ca.crt'' ''node.crt'' ''node.key'' [''r1:4003''] (sample_credentials c) = (Inr ns, f)
      \<and> nu_credentials ns = \<lparr>kp_leaf = c, kp_private = EdPrivate ''key''\<rparr> \<and> rb_addrs (nu_resolver ns) = [''r1:4003''] \<and> (\<forall>p. fs_writable f p)"
    using load_node_state_first [OF _ _ _ _ _ _ _ _ k, where f = "sample_credentials c" and dir = "''node''" and ca_file = "''ca.crt''"
        and crt_path = "''node.crt''" and key_path_name = "''node.key''" and urls = "[''r1:4003'']"]
    by (simp add: sample_credentials_def sample_files_def path_join_def) blast
  with c(1) show thesis by (intro that [of c ns f]) (auto simp: node_certificate_def)
qed

theorem node_keeps_access_witness:
  "\<exists>c ns f s. load_node_state ''node'' ''ca.crt'' ''node.crt'' ''node.key'' [''r1:4003''] (sample_credentials c) = (Inr ns, f)
    \<and> session_path store_etcd store_wf store_kvs store_leases slash_free (st_agent_ca sample_state) ''node'' renew_period
        (session_start 0 busy_store ns f) s
    \<and> se_now s = renew_period \<and> se_conn s = Some c \<and> caller (store_kvs busy_store) (Some (sample_peer c)) ''Agents'' = Inr sample_node"
proof -
  obtain c ns f where c: "node_certificate (st_agent_ca sample_state) ''Agents'' sample_node 0 c"
    "create_node_crt ''key'' 0 sample_state (ns_datacenter sample_node) (ns_name sample_node) ''Agents'' = Inr (CertPem c, KeyPem (EdPrivate ''key''))"
    "load_node_state ''node'' ''ca.crt'' ''node.crt'' ''node.key'' [''r1:4003''] (sample_credentials c) = (Inr ns, f)"
    "nu_credentials ns = \<lparr>kp_leaf = c, kp_private = EdPrivate ''key''\<rparr>"
    by (rule sample_issued)
  let ?ca = "st_agent_ca sample_state"
  let ?step = "session_step store_etcd store_wf store_kvs store_leases slash_free ?ca ''node'' renew_period"
  let ?s1 = "(session_start 0 busy_store ns f)\<lparr>se_now := renew_period\<rparr>"
  let ?s2 = "?s1\<lparr>se_conn := Some c, se_node := ns\<lparr>nu_resolver := resolver_build (nu_resolver ns)\<rparr>\<rparr>"
  have p: "0 \<le> renew_period" "renew_period < 2 ^ 62" "renew_period = 302400 * second"
    by (simp_all add: renew_period_def node_certificate_expiry_def day_def second_def)
  have "?step (session_start 0 busy_store ns f) ?s1" using p by (intro Wait) (simp_all add: session_start_def)
  moreover have valid: "valid_at renew_period (kp_leaf ?ca)"
    by (simp add: valid_at_def p(3) sample_state_def sample_authority_def second_def day_def Let_def)
  then have "verifies_client [kp_leaf ?ca] renew_period c"
    using node_certificate_verifies [OF c(2) sample_agent_authority valid] p(3)
    by (simp add: whole_second_def second_def node_certificate_expiry_def day_def)
  then have "?step ?s1 ?s2"
    using Connect [of c ?s1 ?ca store_etcd store_wf store_kvs store_leases slash_free "''node''" renew_period] c(4)
    by (simp add: session_start_def client_certificate_for_tls_def)
  ultimately have path: "?step\<^sup>*\<^sup>* (session_start 0 busy_store ns f) ?s2" by auto
  have stored: "stored_node (store_kvs busy_store) (ns_datacenter sample_node) (ns_name sample_node) = Inr (Some sample_node)"
    using busy_stored(1) by (simp add: sample_node_def)
  have files: "\<forall>file \<in> {''node.crt'', ''node.key''}. fs_readable (sample_credentials c) (path_join ''node'' file)
      \<and> fs_writable (sample_credentials c) (path_join ''node'' file)"
    by (simp add: sample_credentials_def sample_files_def)
  have t: "(0 :: int) < 2 ^ 62" "0 + renew_period \<le> whole_second (0 + node_certificate_expiry)" "valid_at (se_now ?s2) (kp_leaf ?ca)"
    using valid p by (simp_all add: whole_second_def second_def node_certificate_expiry_def day_def)
  have cert: "node_certificate ?ca ''Agents'' sample_node 0 (kp_leaf (nu_credentials ns))" using c(1,4) by simp
  have "presents (Some (sample_peer c)) c" "se_conn ?s2 = Some c"
    by (simp_all add: presents_def extract_peer_certificate_def sample_peer_def)
  then have "caller (store_kvs (se_etcd ?s2)) (Some (sample_peer c)) ''Agents'' = Inr sample_node"
    using node_keeps_access [where kvs = store_kvs and leases = store_leases and ok = store_wf and P = slash_free,
        OF etcd_ref_live busy_store_wf busy_reachable stored sample_certifiable c(3) files cert order_refl order_refl t(1,2)
          p(1) order_refl path sample_agent_authority t(3)]
    by blast
  with c(3) path show ?thesis by (intro exI [of _ c] exI [of _ ns] exI [of _ f] exI [of _ ?s2]) (simp add: session_start_def)
qed

section \<open>A renewal that is cut short\<close>

text \<open>The state directory holds a certificate and a key that do not belong together.\<close>

definition pair_broken :: "string \<Rightarrow> fs \<Rightarrow> bool" where
  "pair_broken dir f \<longleftrightarrow> fs_readable f (path_join dir ''node.crt'') \<and> fs_readable f (path_join dir ''node.key'')
     \<and> (\<exists>crt key err. fs_files f (path_join dir ''node.crt'') = Some crt \<and> fs_files f (path_join dir ''node.key'') = Some key
          \<and> x509_key_pair crt key = Inl err)"

lemma broken_start:
  assumes "pair_broken dir f"
  shows "\<exists>m. fst (load_node_state dir ca_file crt_path key_path_name urls f) = Inl (Fatal m)"
    "pair_broken dir (snd (load_node_state dir ca_file crt_path key_path_name urls f))"
proof -
  obtain r f1 where m: "make_dir f dir = (r, f1)" by fastforce
  have b: "pair_broken dir f1" using assms make_dir_files [OF m] by (simp add: pair_broken_def)
  then have "load_node_crt dir crt_path key_path_name f1 = (Inl (Fatal ''Failed to load node key pair''), f1)"
    by (auto simp: pair_broken_def load_node_crt_def read_file_or_def read_file_def)
  with m b show "\<exists>m. fst (load_node_state dir ca_file crt_path key_path_name urls f) = Inl (Fatal m)"
    "pair_broken dir (snd (load_node_state dir ca_file crt_path key_path_name urls f))"
    by (auto simp: load_node_state_def split: sum.split)
qed

text \<open>The starts of a node, each with its own arguments, on the disk that the one before has left.\<close>

definition start_again :: "string \<Rightarrow> string \<times> string \<times> string \<times> string list \<Rightarrow> fs \<Rightarrow> fs" where
  "start_again dir = (\<lambda>(ca_file, crt_path, key_path_name, urls) f. snd (load_node_state dir ca_file crt_path key_path_name urls f))"

lemma broken_stays: "pair_broken dir f \<Longrightarrow> pair_broken dir (fold (start_again dir) starts f)"
proof (induction starts arbitrary: f)
  case (Cons a starts)
  have "pair_broken dir (start_again dir a f)" using broken_start(2) [OF Cons.prems] by (simp add: start_again_def split: prod.split)
  then show ?case using Cons.IH by simp
qed simp



section \<open>Connections that outlive their certificate's first half\<close>

context etcd_live
begin

lemma rounds_all_renew:
  assumes "presents ctx c" "node_certificate ca role node i c" "certifiable role node" "st_agent_ca rst = ca"
    and "\<forall>(seed, now, issued) \<in> set rounds. crt_not_after c - now < renew_period \<and> \<bar>crt_not_after c - now\<bar> < 2 ^ 62"
    and "wf e" "stored_node (kvs e) (ns_datacenter node) (ns_name node) = Inr (Some node)"
    and "rb_resolver (nu_resolver st) \<noteq> None" "pair_on_disk dir st f"
  shows "\<exists>rs st' f' e'. poll_rounds E rst ctx rounds e st f = (rs, st', f', e') \<and> wf e' \<and> kvs e' = kvs e
    \<and> rb_resolver (nu_resolver st') \<noteq> None \<and> pair_on_disk dir st' f' \<and> length rs = length rounds \<and> (\<forall>r \<in> set rs. \<exists>res. r = Inr res \<and> cfg_certificate res \<noteq> None)
    \<and> (rounds \<noteq> [] \<longrightarrow> node_certificate ca role node (snd (snd (last rounds))) (kp_leaf (nu_credentials st')))"
  using assms(5-)
proof (induction rounds arbitrary: e st f)
  case Nil
  then show ?case by simp
next
  case (Cons q rounds)
  obtain seed now issued where q: "q = (seed, now, issued)" by (rule prod_cases3)
  have near: "\<bar>crt_not_after c - now\<bar> < 2 ^ 62" "crt_not_after c - now < renew_period" using Cons.prems(1) by (simp_all add: q)
  obtain res st1 f1 e1 where poll: "poll_registry E rst seed now issued ctx e st f = (Inr res, st1, f1, e1)"
    and e1: "wf e1" "kvs e1 = kvs e" "rb_resolver (nu_resolver st1) \<noteq> None" "pair_on_disk dir st1 f1"
    and new: "cfg_certificate res \<noteq> None" "node_certificate ca role node issued (kp_leaf (nu_credentials st1))"
    by (rule poll_answered [OF Cons.prems(2) assms(1-4) Cons.prems(3) near(1) Cons.prems(4,5), of seed issued]) (use near(2) in auto)
  obtain rs st' f' e' where "poll_rounds E rst ctx rounds e1 st1 f1 = (rs, st', f', e')" "wf e'" "kvs e' = kvs e1"
    "rb_resolver (nu_resolver st') \<noteq> None" "pair_on_disk dir st' f'"
    "length rs = length rounds" "\<forall>r \<in> set rs. \<exists>res. r = Inr res \<and> cfg_certificate res \<noteq> None"
    "rounds \<noteq> [] \<longrightarrow> node_certificate ca role node (snd (snd (last rounds))) (kp_leaf (nu_credentials st'))"
    using Cons.IH [of e1 st1 f1] Cons.prems(1,3) e1 by auto
  with poll e1(2) new show ?case by (cases "rounds = []") (auto simp: q)
qed

end

text \<open>C34: whether a certificate is renewed is decided by the one that the connection was made with, which a renewal does
  not replace. From the half of its life on every poll over such a connection, one a minute, is answered
  with another new certificate and key, although the node already holds a certificate with which the same
  call over a new connection would bring none.\<close>
theorem old_connection_renews_again:
  assumes "etcd_live E ok kvs leases" "ok e"
    and "stored_node (kvs e) (ns_datacenter node) (ns_name node) = Inr (Some node)" "certifiable role node"
    and "presents ctx c" "node_certificate (st_agent_ca rst) role node i c"
    and "\<forall>(seed, now, issued) \<in> set rounds. crt_not_after c - now < renew_period \<and> \<bar>crt_not_after c - now\<bar> < 2 ^ 62"
    and "rb_resolver (nu_resolver st) \<noteq> None" "pair_on_disk dir st f" "rounds \<noteq> []" "now' = snd (snd (last rounds))"
  shows "\<exists>rs st' f' e'. poll_rounds E rst ctx rounds e st f = (rs, st', f', e') \<and> length rs = length rounds
    \<and> (\<forall>r \<in> set rs. \<exists>res. r = Inr res \<and> cfg_certificate res \<noteq> None)
    \<and> (\<forall>ctx' seed'. presents ctx' (kp_leaf (nu_credentials st')) \<longrightarrow>
         (\<exists>res st2 f2 e2. poll_registry E rst seed' now' now' ctx' e' st' f' = (Inr res, st2, f2, e2) \<and> cfg_certificate res = None))"
proof -
  obtain rs st' f' e' where r: "poll_rounds E rst ctx rounds e st f = (rs, st', f', e')" "ok e'" "kvs e' = kvs e"
    "rb_resolver (nu_resolver st') \<noteq> None" "pair_on_disk dir st' f'"
    "length rs = length rounds" "\<forall>r \<in> set rs. \<exists>res. r = Inr res \<and> cfg_certificate res \<noteq> None"
    "node_certificate (st_agent_ca rst) role node now' (kp_leaf (nu_credentials st'))"
    using etcd_live.rounds_all_renew [OF assms(1,5,6,4) refl assms(7,2,3,8,9)] assms(10,11) by auto
  have fresh: "renew_period \<le> crt_not_after (kp_leaf (nu_credentials st')) - now'"
    "\<bar>crt_not_after (kp_leaf (nu_credentials st')) - now'\<bar> < 2 ^ 62"
    using node_certificate_fields(4) [OF r(8) assms(4)] whole_second_bounds [of "now' + node_certificate_expiry"]
    by (simp_all add: renew_period_def node_certificate_expiry_def day_def second_def)
  have "\<exists>res st2 f2 e2. poll_registry E rst seed' now' now' ctx' e' st' f' = (Inr res, st2, f2, e2) \<and> cfg_certificate res = None"
    if ctx': "presents ctx' (kp_leaf (nu_credentials st'))" for ctx' seed'
  proof -
    have "stored_node (kvs e') (ns_datacenter node) (ns_name node) = Inr (Some node)" using assms(3) r(3) by simp
    from etcd_live.poll_answered [OF assms(1) r(2) ctx' r(8) assms(4) refl this fresh(2) r(4,5), of seed' now'] fresh(1)
    show ?thesis by metis
  qed
  with r(1,6,7) show ?thesis by blast
qed

theorem old_connection_renews_again_witness:
  "\<exists>c ns f rs st' f' e'. create_node_crt ''key'' 0 sample_state ''dc1'' ''n1'' ''Agents'' = Inr (CertPem c, KeyPem (EdPrivate ''key''))
    \<and> poll_rounds store_etcd sample_state (Some (sample_peer c))
        [(''k1'', 4 * day, 4 * day), (''k2'', 4 * day + 60 * second, 4 * day + 60 * second)] sample_store ns f = (rs, st', f', e')
    \<and> nu_credentials ns = \<lparr>kp_leaf = c, kp_private = EdPrivate ''key''\<rparr>
    \<and> length rs = 2 \<and> (\<forall>r \<in> set rs. \<exists>res. r = Inr res \<and> cfg_certificate res \<noteq> None)"
proof -
  obtain c ns0 f where c: "node_certificate (st_agent_ca sample_state) ''Agents'' sample_node 0 c"
    "create_node_crt ''key'' 0 sample_state (ns_datacenter sample_node) (ns_name sample_node) ''Agents'' = Inr (CertPem c, KeyPem (EdPrivate ''key''))"
    "load_node_state ''node'' ''ca.crt'' ''node.crt'' ''node.key'' [''r1:4003''] (sample_credentials c) = (Inr ns0, f)"
    "nu_credentials ns0 = \<lparr>kp_leaf = c, kp_private = EdPrivate ''key''\<rparr>"
    by (rule sample_issued)
  define ns where "ns = ns0\<lparr>nu_resolver := resolver_build (nu_resolver ns0)\<rparr>"
  have disk: "pair_on_disk ''node'' ns f"
    using load_node_state_pair [OF c(3)] by (simp add: ns_def pair_on_disk_resolver sample_credentials_def sample_files_def)
  have built: "rb_resolver (nu_resolver ns) \<noteq> None" by (simp add: ns_def resolver_build_def)
  have ctx: "presents (Some (sample_peer c)) c" by (simp add: presents_def extract_peer_certificate_def sample_peer_def)
  have stored: "stored_node (store_kvs sample_store) (ns_datacenter sample_node) (ns_name sample_node) = Inr (Some sample_node)"
    using sample_stored(1) by (simp add: sample_node_def)
  let ?rounds = "[(''k1'', 4 * day, 4 * day), (''k2'', 4 * day + 60 * second, 4 * day + 60 * second)]"
  have late: "\<forall>(seed, now, issued) \<in> set ?rounds. crt_not_after c - now < renew_period \<and> \<bar>crt_not_after c - now\<bar> < 2 ^ 62"
    using node_certificate_fields(4) [OF c(1) sample_certifiable]
    by (simp add: renew_period_def node_certificate_expiry_def day_def second_def whole_second_def)
  obtain rs st' f' e' where "poll_rounds store_etcd sample_state (Some (sample_peer c)) ?rounds sample_store ns f = (rs, st', f', e')"
    "length rs = length ?rounds" "\<forall>r \<in> set rs. \<exists>res. r = Inr res \<and> cfg_certificate res \<noteq> None"
    using old_connection_renews_again [OF etcd_ref_live sample_store_wf stored sample_certifiable ctx c(1) late built disk _ refl]
    by blast
  with c(2,4) show ?thesis
    by (intro exI [of _ c] exI [of _ ns] exI [of _ f] exI [of _ rs] exI [of _ st'] exI [of _ f'] exI [of _ e'])
      (simp add: ns_def sample_node_def)
qed

end
