(* ===== verification/Onboarding.thy ===== *)
theory Onboarding
  imports Renewal
begin

text \<open>
  How a node becomes part of the cluster, across all the programs: the administrator's command line (cmd/cmd)
  at a running registry (registry/main.go with its two servers), \<^verbatim>\<open>AddNode\<close>, the files that the client writes,
  the agent's configuration and start beside them (agent/config, agent/state, node-utils) and its first call.
\<close>

section \<open>A running registry\<close>

text \<open>A registry that has loaded its state at \<open>now\<close> and opened both its APIs.\<close>

definition running_registry ::
  "(string \<Rightarrow> string \<Rightarrow> nat \<Rightarrow> string) \<Rightarrow> string \<Rightarrow> string \<Rightarrow> int \<Rightarrow> config \<Rightarrow> state \<Rightarrow> tls_server \<Rightarrow> tls_server \<Rightarrow> bool" where
  "running_registry hkdf rnd seed now c st peer_api agent_api \<longleftrightarrow>
     (\<exists>f f' listen. load_state hkdf rnd seed now c f = (Inr st, f') \<and> (\<forall>p. fs_readable f p)
        \<and> start_peer_api listen c st f' = Inr peer_api \<and> start_agent_api listen c st f' = Inr agent_api)"

text \<open>The administrator's directory: the registry's authority and server pair under the names that the client
  expects, and no state of a node yet.\<close>

definition admin_directory :: "state \<Rightarrow> fs \<Rightarrow> bool" where
  "admin_directory st f \<longleftrightarrow>
     fs_files f ''ca.crt'' = Some (CertPem (kp_leaf (st_ca st)))
     \<and> fs_files f ''peer.crt'' = Some (CertPem (kp_leaf (st_server_key_pair st)))
     \<and> fs_files f ''peer.key'' = Some (KeyPem (kp_private (st_server_key_pair st)))
     \<and> (\<forall>file \<in> {''node.crt'', ''node.key'', ''addrs''}. fs_files f (path_join ''agent.state'' file) = None)
     \<and> (\<forall>p. fs_readable f p \<and> fs_writable f p)"

lemma running_registry_parts:
  assumes "running_registry hkdf rnd seed now c st peer_api agent_api"
  obtains start where "authority_certificate ''Servers'' start (st_ca st)" "authority_certificate ''Agents'' start (st_agent_ca st)"
    "server_certificate now (st_ca st) (st_server_key_pair st)"
    "tls_pair peer_api = st_server_key_pair st" "tls_client_cas peer_api = [kp_leaf (st_ca st)]"
    "tls_pair agent_api = st_server_key_pair st" "tls_client_cas agent_api = [kp_leaf (st_agent_ca st)]"
    "x509_key_pair (CertPem (kp_leaf (st_server_key_pair st))) (KeyPem (kp_private (st_server_key_pair st))) = Inr (st_server_key_pair st)"
proof -
  obtain f f' listen where r: "load_state hkdf rnd seed now c f = (Inr st, f')" "\<And>p. fs_readable f p"
    "start_peer_api listen c st f' = Inr peer_api" "start_agent_api listen c st f' = Inr agent_api"
    using assms by (auto simp: running_registry_def)
  obtain start where a: "authority_certificate ''Servers'' start (st_ca st)" "authority_certificate ''Agents'' start (st_agent_ca st)"
    "server_certificate now (st_ca st) (st_server_key_pair st)"
    "load_x509_key_pair f' (st_server_crt_file st) (st_server_key_file st) = Inr (st_server_key_pair st)"
    by (rule load_state_server [OF r(1,2)])
  have "x509_key_pair (CertPem (kp_leaf (st_server_key_pair st))) (KeyPem (kp_private (st_server_key_pair st))) = Inr (st_server_key_pair st)"
    using a(4) by (auto simp: load_x509_key_pair_def intro: pair_of_pair split: sum.splits)
  with a start_servers(1) [OF a(4) r(3)] start_servers(2) [OF a(4) r(4)] show thesis by (blast intro: that)
qed

lemma admin_directory_client:
  assumes "admin_directory st f" "dial ''127.0.0.1:2382'' = Inr ()"
    and "x509_key_pair (CertPem (kp_leaf (st_server_key_pair st))) (KeyPem (kp_private (st_server_key_pair st))) = Inr (st_server_key_pair st)"
  shows "cli_peer_api_client dial default_flags f =
    Inr \<lparr>tlc_target = ''127.0.0.1:2382'', tlc_server_name = registry_server_name, tlc_roots = [kp_leaf (st_ca st)],
      tlc_pair = st_server_key_pair st\<rparr>"
  using assms by (simp add: cli_peer_api_client_def admin_directory_def default_flags_def read_file_def load_x509_key_pair_def roots_of_def)

text \<open>What \<^verbatim>\<open>AddNode\<close> answers is a certificate of the new node.\<close>

lemma add_node_certificate:
  assumes "add_node E st seed t req e = (Inr (CertPem c, KeyPem (EdPrivate seed)), e')"
  shows "node_certificate (st_agent_ca st) (role_of (an_node_type req)) (requested_node req) t c"
    "create_node_crt seed t st (an_datacenter req) (an_name req) (role_of (an_node_type req)) = Inr (CertPem c, KeyPem (EdPrivate seed))"
proof -
  show "create_node_crt seed t st (an_datacenter req) (an_name req) (role_of (an_node_type req)) = Inr (CertPem c, KeyPem (EdPrivate seed))"
    using assms by (auto simp: add_node_def split: prod.splits sum.splits bool.splits)
  then show "node_certificate (st_agent_ca st) (role_of (an_node_type req)) (requested_node req) t c"
    by (auto simp: node_certificate_def requested_node_def)
qed

section \<open>From the command line to the first call\<close>

text \<open>The flags that a plain \<^verbatim>\<open>node add NAME --location LOCATION --datacenter DATACENTER\<close> amounts to.\<close>

definition plain_add :: "invocation \<Rightarrow> add_node_request \<Rightarrow> bool" where
  "plain_add iv req \<longleftrightarrow> inv_path iv = [''node'', ''add''] \<and> inv_args iv = [an_name req] \<and> an_node_type req = AGENT
     \<and> flags_given iv = default_flags \<and> sub_flags_given iv = default_sub_flags (an_location req) (an_datacenter req)"

lemma plain_add_runs:
  assumes "command_tree = Inr root" "parse root argv = Invoke iv" "plain_add iv req"
    and "cli_peer_api_client dial default_flags (cw_files w) = Inr cl" "add cl req e = (Inr (crt, key), e')"
    and "keep_credentials (default_sub_flags (an_location req) (an_datacenter req)) (Inr (crt, key)) w = (CliDone, w')"
  shows "execute parse dial add creds argv w e = (CliDone, w', e')"
proof -
  have req: "\<lparr>an_name = an_name req, an_datacenter = an_datacenter req, an_location = an_location req, an_node_type = AGENT\<rparr> = req"
    using assms(3) by (simp add: plain_add_def)
  have "execute parse dial add creds argv w e = run_invocation dial add creds iv w e"
    unfolding execute_def assms(1) by (simp add: assms(2))
  also have "\<dots> = run_add dial default_flags (default_sub_flags (an_location req) (an_datacenter req)) (an_name req) add w e"
    using assms(3) by (simp add: run_invocation_def plain_add_def)
  also have "\<dots> = (CliDone, w', e')"
    using assms(4-6) req by (simp add: run_add_def) (simp add: default_sub_flags_def)
  finally show ?thesis .
qed

text \<open>A node's client at the agent API: the handshake succeeds, and what the handler sees is the certificate.\<close>

lemma node_client_handshake:
  assumes "running_registry hkdf rnd seed now c st peer_api agent_api"
    and "create_node_crt seed2 t st dc name role = Inr (CertPem crt, key)" "kp_leaf (nu_credentials ns) = crt"
    and "valid_at t2 (kp_leaf (st_ca st))" "valid_at t2 (kp_leaf (st_agent_ca st))"
    and "max (whole_second now) (whole_second t) \<le> t2"
    and "t2 \<le> min (whole_second (now + 90 * day)) (whole_second (t + node_certificate_expiry))"
  shows "handshake t2 agent_api (node_tls_client (CertPem (kp_leaf (st_ca st))) ns)"
    "presents (peer_of_client addr (node_tls_client ca_pem ns)) crt"
proof -
  obtain start where r: "authority_certificate ''Servers'' start (st_ca st)" "authority_certificate ''Agents'' start (st_agent_ca st)"
    "server_certificate now (st_ca st) (st_server_key_pair st)"
    "tls_pair agent_api = st_server_key_pair st" "tls_client_cas agent_api = [kp_leaf (st_agent_ca st)]"
    by (rule running_registry_parts [OF assms(1)])
  show "handshake t2 agent_api (node_tls_client (CertPem (kp_leaf (st_ca st))) ns)"
    using server_certificate_verifies(1) [OF r(3,1) assms(4)] node_certificate_verifies [OF assms(2) r(2) assms(5)] r(4,5) assms(3,6,7)
    by (auto simp: handshake_def node_tls_client_def client_certificate_for_tls_def roots_of_def)
  show "presents (peer_of_client addr (node_tls_client ca_pem ns)) crt"
    using assms(3) by (simp add: presents_def extract_peer_certificate_def peer_of_client_def node_tls_client_def client_certificate_for_tls_def)
qed

text \<open>The calls of a node in the seven days after it was added.\<close>

lemma first_call_served:
  assumes "etcd_live E ok kvs leases" "ok e'"
    and "stored_node (kvs e') (an_datacenter req) (an_name req) = Inr (Some (requested_node req))"
    and "add_node E st seed2 t req e = (Inr (CertPem crt, KeyPem (EdPrivate seed2)), e')"
    and "node_valid (requested_node req)" "length (an_datacenter req) < length (role_of (an_node_type req))"
    and "presents ctx crt" "t \<le> t2" "t2 \<le> whole_second (t + node_certificate_expiry)"
  shows "caller (kvs e') ctx (role_of (an_node_type req)) = Inr (requested_node req)"
    "is_ok (fst (config_request E st seed3 t2 t2 ctx e'))"
proof -
  let ?node = "requested_node req" and ?role = "role_of (an_node_type req)"
  have node: "ns_datacenter ?node = an_datacenter req" "ns_name ?node = an_name req" by (simp_all add: requested_node_def)
  have utf: "utf8_valid (ns_datacenter ?node)" "utf8_valid (ns_name ?node)" "utf8_valid ?role"
    using assms(5) role_utf8 by (auto simp: node_valid_def role_of_def split: node_type.split)
  have cert: "certifiable ?role ?node"
    using utf assms(6) role_of_cases [of "an_node_type req"]
    by (auto simp: certifiable_def requested_node_def agent_certificate_ou_def observer_certificate_ou_def)
  have stored: "stored_node (kvs e') (ns_datacenter ?node) (ns_name ?node) = Inr (Some ?node)" using assms(3) node by simp
  note n = add_node_certificate(1) [OF assms(4)]
  show "caller (kvs e') ctx ?role = Inr ?node" by (rule node_certificate_identity(2) [OF n cert stored assms(7)])
  have "crt_not_after crt = whole_second (t + node_certificate_expiry)" by (rule node_certificate_fields(4) [OF n cert])
  then have near: "\<bar>crt_not_after crt - t2\<bar> < 2 ^ 62"
    using assms(8,9) whole_second_bounds(2) [of "t + node_certificate_expiry"]
    by (simp add: node_certificate_expiry_def day_def second_def)
  obtain c' where "create_node_crt seed3 t2 st (ns_datacenter ?node) (ns_name ?node) ?role = Inr (CertPem c', KeyPem (EdPrivate seed3))"
    by (rule create_node_crt_ok [OF utf, where seed = seed3 and now = t2 and st = st]) (rule that)
  from etcd_live.config_request_total [OF assms(1,2) assms(7) [unfolded presents_def] node_certificate_identity(1) [OF n cert stored] this near]
  show "is_ok (fst (config_request E st seed3 t2 t2 ctx e'))" by auto
qed

text \<open>C15: from the command line to the first call: \<^verbatim>\<open>node add\<close> with a location and a datacenter, typed next to a
  running registry's files while its certificates are valid, for a name that is free and a datacenter whose name is
  shorter than the role, ends well; an agent whose environment only says where to join then starts in that directory
  with the written credentials, asks the registries it was told, and for seven days, or for the rest of the server's
  ninety if that is less, gets through to the agent API, is authenticated as the node that was asked for, and its first
  \<^verbatim>\<open>Config\<close> is answered.\<close>
theorem onboarded_agent_is_served:
  assumes "etcd_live E ok kvs leases" "ok e" "env_parser penv"
    and "running_registry hkdf rnd seed now c st peer_api agent_api" "admin_directory st (cw_files w)" "dial ''127.0.0.1:2382'' = Inr ()"
    and "command_tree = Inr root" "parse root argv = Invoke iv" "plain_add iv req"
    and "kvs e (node_key (an_datacenter req) (an_name req)) = None" "node_valid (requested_node req)"
    and "txn_size (add_node_txn req) < 2 ^ 20" "length (an_datacenter req) < length (role_of (an_node_type req))"
    and "env = [''AGENT_JOIN_URL'' \<mapsto> url]" "url \<noteq> []"
    and "al_tuf L = Inr ()" "al_trusted_root L = Inr ()" "al_verifier L = Inr ()" "al_docker L = Inr ()"
    and "\<forall>x \<in> {t, t2}. whole_second now \<le> x \<and> x \<le> whole_second (now + 90 * day)
           \<and> valid_at x (kp_leaf (st_ca st)) \<and> valid_at x (kp_leaf (st_agent_ca st))"
    and "t \<le> t2" "t2 \<le> whole_second (t + node_certificate_expiry)"
  shows "\<exists>w' e' cfg ns f. execute parse dial (\<lambda>cl req. remote_call t peer_api cl addr (\<lambda>ctx. add_node E st seed2 t req)) creds argv w e =
      (CliDone, w', e')
    \<and> load_agent_config penv env = Inr cfg \<and> load_agent_state L cfg (cw_files w') = (Inr ns, f)
    \<and> rb_addrs (nu_resolver ns) = split_on (CHR '','') url
    \<and> (\<forall>addr2 cl. cl = node_tls_client (CertPem (kp_leaf (st_ca st))) ns \<longrightarrow>
         handshake t2 agent_api cl
         \<and> caller (kvs e') (peer_of_client addr2 cl) agent_certificate_ou = Inr (requested_node req)
         \<and> is_ok (fst (remote_call t2 agent_api cl addr2 (config_request E st seed3 t2 t2) e')))"
proof -
  obtain start where r: "authority_certificate ''Servers'' start (st_ca st)" "server_certificate now (st_ca st) (st_server_key_pair st)"
    "tls_pair peer_api = st_server_key_pair st" "tls_client_cas peer_api = [kp_leaf (st_ca st)]"
    "x509_key_pair (CertPem (kp_leaf (st_server_key_pair st))) (KeyPem (kp_private (st_server_key_pair st))) = Inr (st_server_key_pair st)"
    by (rule running_registry_parts [OF assms(4)])
  define cl where "cl = \<lparr>tlc_target = ''127.0.0.1:2382'', tlc_server_name = registry_server_name,
    tlc_roots = [kp_leaf (st_ca st)], tlc_pair = st_server_key_pair st\<rparr>"
  note client = admin_directory_client [where dial = dial, OF assms(5,6) r(5), folded cl_def]
  have admin: "handshake t peer_api cl"
    using server_handshake [of now "st_ca st" peer_api now cl "''Servers''" start t] r assms(20) by (simp add: cl_def)
  have role: "role_of (an_node_type req) = agent_certificate_ou" using assms(9) by (simp add: plain_add_def role_of_def)
  obtain e' crt where add: "add_node E st seed2 t req e = (Inr (CertPem crt, KeyPem (EdPrivate seed2)), e')"
    and e': "ok e'" "stored_node (kvs e') (an_datacenter req) (an_name req) = Inr (Some (requested_node req))"
    by (rule add_node_issues [OF assms(1,2,10-12), where st = st and seed = seed2 and now = t]) (rule that)
  note crt = add_node_certificate [OF add]
  obtain w' where w': "keep_credentials (default_sub_flags (an_location req) (an_datacenter req)) (Inr (CertPem crt, KeyPem (EdPrivate seed2))) w = (CliDone, w')"
    and start: "\<exists>ns f. load_node_state ''agent.state'' ''ca.crt'' ''node.crt'' ''node.key'' (split_on (CHR '','') url) (cw_files w') = (Inr ns, f)
       \<and> nu_credentials ns = \<lparr>kp_leaf = crt, kp_private = EdPrivate seed2\<rparr> \<and> rb_addrs (nu_resolver ns) = split_on (CHR '','') url
       \<and> (\<forall>p. fs_writable f p)"
    by (rule kept_credentials_start [OF client created_pair [OF add], of "''agent.state''" "an_location req" "an_datacenter req"])
      (use assms(5) in \<open>auto simp: admin_directory_def\<close>)
  have "execute parse dial (\<lambda>cl req. remote_call t peer_api cl addr (\<lambda>ctx. add_node E st seed2 t req)) creds argv w e = (CliDone, w', e')"
    using admin add by (intro plain_add_runs [where parse = parse and dial = dial, OF assms(7-9) client _ w']) (simp add: remote_call_def)
  moreover have "load_agent_config penv env = Inr (default_agent_config url)"
    using assms(14,15) by (intro env_parser.agent_config_loaded [OF assms(3)]) simp_all
  moreover obtain ns f where ns: "load_agent_state L (default_agent_config url) (cw_files w') = (Inr ns, f)"
    "kp_leaf (nu_credentials ns) = crt" "rb_addrs (nu_resolver ns) = split_on (CHR '','') url"
    using start assms(16-19) by (auto simp: load_agent_state_def default_agent_config_def open_append_def)
  moreover have "handshake t2 agent_api cl' \<and> caller (kvs e') (peer_of_client addr2 cl') agent_certificate_ou = Inr (requested_node req)
      \<and> is_ok (fst (remote_call t2 agent_api cl' addr2 (config_request E st seed3 t2 t2) e'))"
    if cl': "cl' = node_tls_client (CertPem (kp_leaf (st_ca st))) ns" for cl' addr2
  proof -
    have h: "handshake t2 agent_api cl'" "presents (peer_of_client addr2 cl') crt"
      using node_client_handshake [OF assms(4) crt(2) ns(2), of t2] assms(20-22) order_trans [OF whole_second_bounds(2) assms(21)]
      by (simp_all add: cl')
    then show ?thesis
      using first_call_served [OF assms(1) e' add assms(11,13) h(2) assms(21,22)] by (simp add: remote_call_def role)
  qed
  ultimately show ?thesis by blast
qed

lemma sample_argv:
  obtains root iv where "command_tree = Inr root"
    "parse_arguments root [''node'', ''add'', ''n2'', ''--location'', ''eu'', ''--datacenter=dc1''] = Invoke iv"
    "plain_add iv (sample_add ''dc1'')"
proof -
  let ?argv = "[''node'', ''add'', ''n2'', ''--location'', ''eu'', ''--datacenter=dc1'']"
  let ?iv = "\<lparr>inv_path = [''node'', ''add''], inv_given = [(''location'', StringFlag ''eu''), (''datacenter'', StringFlag ''dc1'')],
    inv_args = [''n2'']\<rparr>"
  obtain root where root: "command_tree = Inr root" using command_tree_value by blast
  have "map_sum id (\<lambda>root. parse_arguments root ?argv) command_tree = Inr (Invoke ?iv)" by code_simp
  then have "parse_arguments root ?argv = Invoke ?iv" by (simp add: root)
  moreover have "flags_given ?iv = default_flags" "sub_flags_given ?iv = default_sub_flags ''eu'' ''dc1''" by code_simp+
  then have "plain_add ?iv (sample_add ''dc1'')" by (simp add: plain_add_def sample_add_def)
  ultimately show thesis using root that by blast
qed

theorem onboarded_agent_is_served_witness:
  "\<exists>st peer_api agent_api w' e' cfg ns f.
    running_registry (\<lambda>t i n. t @ i) ''rnd'' ''seed'' 0 sample_config st peer_api agent_api
    \<and> execute parse_arguments (\<lambda>a. Inr ()) (\<lambda>cl req. remote_call 0 peer_api cl [] (\<lambda>ctx. add_node store_etcd st ''key'' 0 req))
        (\<lambda>cl req e. (Inl server_error, e)) [''node'', ''add'', ''n2'', ''--location'', ''eu'', ''--datacenter=dc1''] (admin_world st) sample_store =
      (CliDone, w', e')
    \<and> load_agent_config read_environment [''AGENT_JOIN_URL'' \<mapsto> ''r1:4003''] = Inr cfg
    \<and> load_agent_state \<lparr>al_tuf = Inr (), al_trusted_root = Inr (), al_verifier = Inr (), al_docker = Inr ()\<rparr> cfg (cw_files w') = (Inr ns, f)
    \<and> handshake 0 agent_api (node_tls_client (CertPem (kp_leaf (st_ca st))) ns)"
proof -
  let ?L = "\<lparr>al_tuf = Inr (), al_trusted_root = Inr (), al_verifier = Inr (), al_docker = Inr ()\<rparr>"
  obtain st f' where s: "load_state (\<lambda>t i n. t @ i) ''rnd'' ''seed'' 0 sample_config sample_fs = (Inr st, f')"
    "valid_at 0 (kp_leaf (st_ca st))" "valid_at 0 (kp_leaf (st_agent_ca st))"
    "start_peer_api (\<lambda>a. Inr ()) sample_config st f' = Inr \<lparr>tls_address = peer_api_listen_host sample_config,
       tls_pair = st_server_key_pair st, tls_client_cas = [kp_leaf (st_ca st)]\<rparr>"
    "start_agent_api (\<lambda>a. Inr ()) sample_config st f' = Inr \<lparr>tls_address = agent_api_listen_host sample_config,
       tls_pair = st_server_key_pair st, tls_client_cas = [kp_leaf (st_agent_ca st)]\<rparr>"
    by (rule sample_registry)
  obtain peer_api agent_api where run: "running_registry (\<lambda>t i n. t @ i) ''rnd'' ''seed'' 0 sample_config st peer_api agent_api"
    using s(1,4,5) by (fastforce simp: running_registry_def sample_fs_def)
  have admin: "admin_directory st (cw_files (admin_world st))"
    by (simp add: admin_directory_def admin_world_def sample_fs_def path_join_def)
  obtain root iv where cmd: "command_tree = Inr root"
    "parse_arguments root [''node'', ''add'', ''n2'', ''--location'', ''eu'', ''--datacenter=dc1''] = Invoke iv"
    "plain_add iv (sample_add ''dc1'')" by (rule sample_argv)
  have free: "store_kvs sample_store (node_key (an_datacenter (sample_add ''dc1'')) (an_name (sample_add ''dc1''))) = None"
    using node_entries_n2(1) by (simp add: sample_add_def)
  have short: "length (an_datacenter (sample_add ''dc1'')) < length (role_of (an_node_type (sample_add ''dc1'')))"
    by (simp add: sample_add_def role_of_def agent_certificate_ou_def)
  let ?env = "[''AGENT_JOIN_URL'' \<mapsto> ''r1:4003''] :: environment"
  have url: "''r1:4003'' \<noteq> []" by simp
  have window: "\<forall>x \<in> {0, 0}. whole_second 0 \<le> x \<and> x \<le> whole_second (0 + 90 * day)
      \<and> valid_at x (kp_leaf (st_ca st)) \<and> valid_at x (kp_leaf (st_agent_ca st))"
    "(0 :: int) \<le> whole_second (0 + node_certificate_expiry)"
    using s(2,3) by (simp_all add: whole_second_def second_def day_def node_certificate_expiry_def)
  have L: "al_tuf ?L = Inr ()" "al_trusted_root ?L = Inr ()" "al_verifier ?L = Inr ()" "al_docker ?L = Inr ()" by simp_all
  note served = onboarded_agent_is_served [where E = store_etcd and ok = store_wf and kvs = store_kvs and leases = store_leases
      and e = sample_store and penv = read_environment and req = "sample_add ''dc1''" and st = st and iv = iv and root = root
      and dial = "\<lambda>a. Inr ()" and parse = parse_arguments and addr = "[]" and ?seed2.0 = "''key''"
      and ?seed3.0 = "[]" and env = ?env and url = "''r1:4003''" and L = ?L and t = 0 and ?t2.0 = 0 and w = "admin_world st" and creds = "\<lambda>cl req e. (Inl server_error, e)",
      OF etcd_ref_live sample_store_wf reference_env.env_parser_axioms run admin refl cmd free sample_add_valid(1) sample_add_size(1)
        short refl url L window(1) order_refl window(2)]
  from served run show ?thesis
    by (elim exE conjE) (intro exI conjI, assumption, assumption, assumption, assumption, simp)
qed

end
