(* ===== verification/Ownership.thy ===== *)
theory Ownership
  imports Guarantees
begin

text \<open>
  Whose requests can change what the cluster says of a node. The steps of this theory are those of theory Cluster
  sorted by the node that acts, and without its assumptions on what clients send: a registration and a
  deregistration carry any bytes. Of the names of new nodes alone it is assumed that they are UTF-8 without slashes.
  Handlers on a store whose other clients make such steps make such steps too (locale \<open>stepping_store\<close>).
\<close>

section \<open>Keys of services with any names\<close>

lemma slash_free_count: "slash_free s \<longleftrightarrow> count_list s (CHR ''/'') = 0"
  by (simp add: slash_free_def count_list_0_iff)

lemma service_key_slashes:
  "node_slash_free n \<Longrightarrow> count_list (svc_key n s i) (CHR ''/'') = 5 + count_list s (CHR ''/'') + count_list i (CHR ''/'')"
  "node_slash_free n \<Longrightarrow> count_list (ds_svc_key n s i) (CHR ''/'') = 4 + count_list s (CHR ''/'') + count_list i (CHR ''/'')"
  by (simp_all add: svc_key_def ds_svc_key_def key_path_def node_slash_free_def slash_free_count)

definition same_name :: "node_schema \<Rightarrow> node_schema \<Rightarrow> bool" where
  "same_name a b \<longleftrightarrow> ns_datacenter a = ns_datacenter b \<and> ns_name a = ns_name b"

text \<open>A key of a service without slashes has as many slashes as separators, so that no other name shares it.\<close>

lemma service_keys_own:
  assumes "node_slash_free n" "slash_free s" "slash_free i" "node_slash_free n'"
    and "k \<in> service_keys n s i" "k \<in> service_keys n' s' i'"
  shows "same_name n' n"
proof -
  have "svc_key n s i = svc_key n' s' i' \<or> ds_svc_key n s i = ds_svc_key n' s' i'"
    using assms(5,6) by (auto simp: service_keys_def key_eqs)
  moreover from this have s: "slash_free s'" "slash_free i'"
    using assms(2,3) service_key_slashes [OF assms(1), of s i] service_key_slashes [OF assms(4), of s' i']
    by (auto simp: slash_free_count)
  ultimately show ?thesis
    using svc_key_inject [OF assms(1-4) s] ds_svc_key_split [OF assms(1-3)] ds_svc_key_split [OF assms(4) s]
    by (auto simp: same_name_def)
qed

section \<open>Steps by the node that acts\<close>

text \<open>\<open>Q\<close> is asked of the node that registers or deregisters. A registration attaches what it stores to a live lease.\<close>

inductive acting_step :: "(node_schema \<Rightarrow> bool) \<Rightarrow> cluster \<Rightarrow> cluster \<Rightarrow> bool" for Q where
  ActRegister: "other \<in> stored_nodes m \<Longrightarrow> Q other \<Longrightarrow> l \<in> L \<Longrightarrow> 0 < rv \<Longrightarrow>
    acting_step Q (m, L) (apply_txn rv (register_txn other req spec l) m, L)"
| ActDeregister: "other \<in> stored_nodes m \<Longrightarrow> Q other \<Longrightarrow> 0 < rv \<Longrightarrow>
    acting_step Q (m, L) (apply_txn rv (deregister_txn other dreq) m, L)"
| ActLease: "0 < rv \<Longrightarrow> acting_step Q (m, L) (apply_txn rv (lease_txn (lease_key dc name) ks l) m, L)"
| ActAddNode: "node_request_valid slash_free areq \<Longrightarrow> compares_hold m (add_node_txn areq) \<Longrightarrow> 0 < rv \<Longrightarrow>
    acting_step Q (m, L) (apply_txn rv (add_node_txn areq) m, L)"
| ActPublish: "0 < rv \<Longrightarrow>
    acting_step Q (m, L) (m(peer_api_key name \<mapsto> put_entry rv (peer_api_key name) addr 0 (m (peer_api_key name))), L)"
| ActGrant: "l \<noteq> 0 \<Longrightarrow> l \<notin> L \<Longrightarrow> acting_step Q (m, L) (m, insert l L)"
| ActEnd: "l \<in> L \<Longrightarrow> acting_step Q (m, L) (drop_lease l m, L - {l})"

text \<open>What a store reached by them says of the nodes, whatever it says of services.\<close>

definition nodes_ok :: "cluster \<Rightarrow> bool" where
  "nodes_ok s \<longleftrightarrow> 0 \<notin> snd s \<and> (\<forall>k x. fst s k = Some x \<longrightarrow> 0 < kv_create_rev x)
     \<and> (\<forall>dc name x. fst s (node_key dc name) = Some x \<longrightarrow> kv_lease x = 0
          \<and> (\<exists>node. unmarshal_node (kv_value x) = Some node \<and> node_slash_free node
               \<and> node_key dc name = node_key (ns_datacenter node) (ns_name node)))"

lemma nodes_ok_empty: "nodes_ok (Map.empty, {})"
  by (simp add: nodes_ok_def)

lemma nodes_ok_put:
  assumes "nodes_ok (m, L)" "0 < rv" "\<forall>dc name. k \<noteq> node_key dc name"
  shows "nodes_ok (m(k \<mapsto> put_entry rv k v l (m k)), L)"
  using assms by (auto simp: nodes_ok_def put_entry_def split: option.split)

lemma nodes_ok_delete:
  assumes "nodes_ok (m, L)"
  shows "nodes_ok (m(k := None), L)"
  using assms by (auto simp: nodes_ok_def)

lemma add_node_free:
  assumes "nodes_ok (m, L)" "compares_hold m (add_node_txn req)"
  shows "m (node_key (an_datacenter req) (an_name req)) = None"
  using assms by (fastforce simp: nodes_ok_def compares_hold_def add_node_txn_def Let_def compare_holds_def split: option.splits)

lemma add_node_applied:
  "apply_txn rv (add_node_txn req) m = m(node_key (an_datacenter req) (an_name req) \<mapsto>
     put_entry rv (node_key (an_datacenter req) (an_name req)) (marshal_node (requested_node req)) 0
       (m (node_key (an_datacenter req) (an_name req))))"
  by (simp add: apply_txn_def add_node_txn_def Let_def)

lemma requested_node_names:
  assumes "node_request_valid slash_free req"
  shows "unmarshal_node (marshal_node (requested_node req)) = Some (requested_node req)" "node_slash_free (requested_node req)"
proof -
  have "node_valid (requested_node req)"
    using assms role_utf8
    by (auto simp: node_request_valid_def node_valid_def requested_node_def role_of_def split: node_type.split)
  then show "unmarshal_node (marshal_node (requested_node req)) = Some (requested_node req)" by (rule node_codec.dec_enc)
  show "node_slash_free (requested_node req)"
    using assms by (simp add: node_request_valid_def node_slash_free_def requested_node_def)
qed

lemma acting_step_ok:
  assumes "acting_step Q s s'" "nodes_ok s"
  shows "nodes_ok s'"
  using assms
proof (cases rule: acting_step.cases)
  case (ActAddNode areq m rv L)
  let ?k = "node_key (an_datacenter areq) (an_name areq)"
  have "m ?k = None" using ActAddNode assms(2) add_node_free by blast
  moreover have "?k = node_key (ns_datacenter (requested_node areq)) (ns_name (requested_node areq))"
    by (simp add: requested_node_def)
  ultimately show ?thesis
    using assms(2) ActAddNode(1,2,5) requested_node_names [OF ActAddNode(3)]
    by (auto simp: nodes_ok_def add_node_applied put_entry_def)
next
  case (ActRegister other m l L rv req spec)
  then show ?thesis using assms(2)
    by (simp add: apply_txn_def register_txn_def del: fun_upd_apply) (intro nodes_ok_put; simp add: key_eqs)
next
  case (ActDeregister other m rv L dreq)
  then show ?thesis using assms(2) by (auto simp: apply_txn_def deregister_txn_def intro!: nodes_ok_delete)
next
  case (ActLease rv m L dc name ks l)
  then show ?thesis using assms(2) by (auto simp: apply_txn_def lease_txn_def key_eqs intro!: nodes_ok_put)
next
  case (ActPublish rv m L name addr)
  then show ?thesis using assms(2) by (auto simp: key_eqs intro!: nodes_ok_put)
next
  case (ActGrant l L m)
  then show ?thesis using assms(2) by (auto simp: nodes_ok_def)
next
  case (ActEnd l L m)
  have "m k = Some x" if "drop_lease l m k = Some x" for k x
    using that by (auto simp: drop_lease_def split: option.splits if_splits)
  with ActEnd assms(2) show ?thesis by (fastforce simp: nodes_ok_def)
qed

abbreviation acting_path :: "(node_schema \<Rightarrow> bool) \<Rightarrow> cluster \<Rightarrow> cluster \<Rightarrow> bool" where
  "acting_path Q \<equiv> (acting_step Q)\<^sup>*\<^sup>*"

lemma acting_path_ok: "acting_path Q s s' \<Longrightarrow> nodes_ok s \<Longrightarrow> nodes_ok s'"
  by (induction rule: rtranclp_induct) (auto intro: acting_step_ok)

lemma acting_step_keeps_node:
  assumes "acting_step Q s s'" "nodes_ok s" "fst s (node_key dc name) = Some x"
  shows "fst s' (node_key dc name) = Some x"
  using assms
proof (cases rule: acting_step.cases)
  case (ActEnd l L m)
  with assms(2,3) show ?thesis by (auto simp: nodes_ok_def drop_lease_def)
next
  case (ActAddNode areq m rv L)
  then have "m (node_key (an_datacenter areq) (an_name areq)) = None" using assms(2) add_node_free by blast
  with ActAddNode assms(3) show ?thesis by (auto simp: add_node_applied)
qed (simp_all add: apply_txn_def lease_txn_def register_txn_def deregister_txn_def key_eqs)

lemma acting_step_stored:
  "acting_step Q s s' \<Longrightarrow> nodes_ok s \<Longrightarrow> stored_node (fst s) dc name = Inr (Some node) \<Longrightarrow>
    stored_node (fst s') dc name = Inr (Some node)"
  using acting_step_keeps_node by (fastforce simp: stored_node_def split: option.splits)

lemma acting_path_stored:
  "acting_path Q s s' \<Longrightarrow> nodes_ok s \<Longrightarrow> stored_nodes (fst s) \<subseteq> stored_nodes (fst s')"
proof (induction rule: rtranclp_induct)
  case (step s1 s2)
  have "nodes_ok s1" by (rule acting_path_ok [OF step(1,4)])
  then have "stored_nodes (fst s1) \<subseteq> stored_nodes (fst s2)"
    using acting_step_stored [OF step(2)] unfolding stored_nodes_def by blast
  with step(3,4) show ?case by blast
qed simp

text \<open>A stored node is found under its own names, and its names are its own.\<close>

lemma stored_under_names:
  assumes "nodes_ok (m, L)" "stored_node m dc name = Inr (Some node)"
  shows "node_key dc name = node_key (ns_datacenter node) (ns_name node)" "node_slash_free node"
  using assms by (fastforce simp: nodes_ok_def stored_node_def split: option.splits)+

lemma stored_by_names:
  assumes "nodes_ok (m, L)" "node \<in> stored_nodes m"
  shows "stored_node m (ns_datacenter node) (ns_name node) = Inr (Some node)"
proof -
  obtain dc name where n: "stored_node m dc name = Inr (Some node)" using assms(2) by (auto simp: stored_nodes_def)
  with stored_under_names(1) [OF assms(1) n] show ?thesis by (simp add: stored_node_def)
qed

lemma caller_certificate:
  "caller m ctx role = Inr node \<longleftrightarrow> (\<exists>c. extract_peer_certificate ctx = Inr c \<and> length (pn_ou (crt_subject c)) = 2
     \<and> pn_ou (crt_subject c) ! 1 = role \<and> stored_node m (pn_ou (crt_subject c) ! 0) (pn_cn (crt_subject c)) = Inr (Some node))"
  by (auto simp: caller_def split: sum.splits option.splits)

text \<open>Nobody comes to act for a node that was stored before.\<close>

lemma caller_before:
  assumes "acting_path Q (m, L) (m', L')" "nodes_ok (m, L)" "node \<in> stored_nodes m" "caller m' ctx role = Inr node"
  shows "caller m ctx role = Inr node"
proof -
  obtain c where c: "extract_peer_certificate ctx = Inr c" "length (pn_ou (crt_subject c)) = 2" "pn_ou (crt_subject c) ! 1 = role"
    and n: "stored_node m' (pn_ou (crt_subject c) ! 0) (pn_cn (crt_subject c)) = Inr (Some node)"
    using assms(4) by (auto simp: caller_certificate)
  have "node_key (pn_ou (crt_subject c) ! 0) (pn_cn (crt_subject c)) = node_key (ns_datacenter node) (ns_name node)"
    using stored_under_names(1) [OF acting_path_ok [OF assms(1,2)] n] .
  then have "stored_node m (pn_ou (crt_subject c) ! 0) (pn_cn (crt_subject c)) = Inr (Some node)"
    using stored_by_names [OF assms(2,3)] by (simp add: stored_node_def)
  with c show ?thesis by (auto simp: caller_certificate)
qed

section \<open>Services that nobody else touches\<close>

text \<open>On the way from one cluster to the other a lease ended.\<close>

definition lease_ended :: "(cluster \<Rightarrow> cluster \<Rightarrow> bool) \<Rightarrow> int \<Rightarrow> cluster \<Rightarrow> cluster \<Rightarrow> bool" where
  "lease_ended step l s s' \<longleftrightarrow> (\<exists>m L. step\<^sup>*\<^sup>* s (m, L) \<and> l \<in> L \<and> step\<^sup>*\<^sup>* (drop_lease l m, L - {l}) s')"

abbreviation others :: "node_schema \<Rightarrow> cluster \<Rightarrow> cluster \<Rightarrow> bool" where
  "others node \<equiv> acting_step (\<lambda>other. \<not> same_name other node)"

text \<open>An entry of a service of the node is the same as before, or gone with its lease; what was not there has not
  appeared.\<close>

definition entry_kept :: "node_schema \<Rightarrow> string \<Rightarrow> cluster \<Rightarrow> cluster \<Rightarrow> bool" where
  "entry_kept node k s s' \<longleftrightarrow> fst s' k = fst s k
     \<or> (\<exists>x. fst s k = Some x \<and> fst s' k = None \<and> lease_ended (others node) (kv_lease x) s s')"

lemma entry_kept_step:
  assumes "others node s s'" "nodes_ok s" "node_slash_free node" "slash_free a" "slash_free i" "k \<in> service_keys node a i"
  shows "entry_kept node k s s'"
  using assms(1)
proof (cases rule: acting_step.cases)
  case (ActRegister other m l L rv req spec)
  have "k \<notin> service_keys other (reg_service req) (reg_instance req)"
    using service_keys_own [OF assms(3-5) _ assms(6)] stored_under_names(2) [of m L] ActRegister assms(2)
    by (auto simp: stored_nodes_def)
  with ActRegister show ?thesis by (auto simp: entry_kept_def apply_txn_def register_txn_def service_keys_def)
next
  case (ActDeregister other m rv L dreq)
  have "k \<notin> service_keys other (dereg_service dreq) (dereg_instance dreq)"
    using service_keys_own [OF assms(3-5) _ assms(6)] stored_under_names(2) [of m L] ActDeregister assms(2)
    by (auto simp: stored_nodes_def)
  with ActDeregister show ?thesis by (auto simp: entry_kept_def apply_txn_def deregister_txn_def service_keys_def)
next
  case (ActEnd l L m)
  then show ?thesis by (auto simp: entry_kept_def drop_lease_def lease_ended_def split: option.splits)
next
  case (ActAddNode areq m rv L)
  with assms(6) show ?thesis by (auto simp: entry_kept_def add_node_applied node_key_not_service)
qed (use assms(6) in \<open>auto simp: entry_kept_def apply_txn_def lease_txn_def node_key_not_service\<close>)

lemma entry_kept_path:
  assumes "(others node)\<^sup>*\<^sup>* s s'" "nodes_ok s" "node_slash_free node" "slash_free a" "slash_free i" "k \<in> service_keys node a i"
  shows "entry_kept node k s s'"
  using assms(1)
proof (induction rule: rtranclp_induct)
  case base
  then show ?case by (simp add: entry_kept_def)
next
  case (step s1 s2)
  have "lease_ended (others node) l s s2" if "lease_ended (others node) l s s1 \<or> lease_ended (others node) l s1 s2" for l
    using that step(1,2) unfolding lease_ended_def by (meson r_into_rtranclp rtranclp_trans)
  moreover have "entry_kept node k s1 s2"
    by (rule entry_kept_step [OF step(2) acting_path_ok [OF step(1) assms(2)] assms(3-6)])
  ultimately show ?case using step(3) by (auto simp: entry_kept_def)
qed

section \<open>Requests of others\<close>

text \<open>A caller acts for the node in a registration or deregistration that authenticates it as the node.\<close>

fun speaks_for :: "(string \<rightharpoonup> kv) \<Rightarrow> node_schema \<Rightarrow> request \<Rightarrow> bool" where
  "speaks_for m node (RegisterReq ctx req) = (caller m ctx agent_certificate_ou = Inr node)"
| "speaks_for m node (DeregisterReq ctx req) = (caller m ctx agent_certificate_ou = Inr node)"
| "speaks_for m node _ = False"

text \<open>All that is asked of the contents of requests: the names of new nodes.\<close>

fun names_of_nodes_valid :: "request \<Rightarrow> bool" where
  "names_of_nodes_valid (AddNodeReq req) = node_request_valid slash_free req"
| "names_of_nodes_valid _ = True"

text \<open>A store whose other clients do not act for the node, between any two requests.\<close>

locale guarded_store = etcd_atomic E wf kvs leases
  for E :: "'e etcd" and wf :: "'e \<Rightarrow> bool" and kvs :: "'e \<Rightarrow> string \<rightharpoonup> kv" and leases :: "'e \<Rightarrow> int set" +
  fixes env :: "nat \<Rightarrow> 'e \<Rightarrow> 'e" and node :: node_schema
  assumes env_wf: "wf e \<Longrightarrow> nodes_ok (kvs e, leases e) \<Longrightarrow> wf (env n e)"
    and env_others: "wf e \<Longrightarrow> nodes_ok (kvs e, leases e) \<Longrightarrow>
      (others node)\<^sup>*\<^sup>* (kvs e, leases e) (kvs (env n e), leases (env n e))"

sublocale guarded_store \<subseteq> acting: stepping_store E wf kvs leases env "others node" nodes_ok
  using env_wf env_others acting_step_ok acting_step_stored
  by unfold_locales (auto intro: acting_step.intros)

context guarded_store
begin

abbreviation "moved x x' \<equiv> moves_by (others node) (\<lambda>x. acting.good x) (\<lambda>x. acting.seen x) x x'"

lemma other_agent:
  assumes "acting.good x" "authenticate_agent (interleaved E env) ctx x = (Inr other, x1)" "moved x1 x2"
    and "(others node)\<^sup>*\<^sup>* (m0, L0) (acting.seen x)" "nodes_ok (m0, L0)" "node \<in> stored_nodes m0"
    and "caller m0 ctx agent_certificate_ou \<noteq> Inr node" "(others node)\<^sup>*\<^sup>* (acting.seen x2) (m, L)"
  shows "\<not> same_name other node" "other \<in> stored_nodes m"
proof -
  note a = acting.handlers.authenticate_agent_moves [OF assms(1,2)]
  have path: "(others node)\<^sup>*\<^sup>* (m0, L0) (acting.seen x1)" using assms(4) a(1) by (auto simp: moves_by_def)
  have ok: "nodes_ok (acting.seen x1)" by (rule acting_path_ok [OF path assms(5)])
  have other: "other \<in> stored_nodes (fst (acting.seen x1))" using a(3) by simp
  have "(others node)\<^sup>*\<^sup>* (acting.seen x1) (m, L)" using assms(3,8) by (auto simp: moves_by_def)
  from acting_path_stored [OF this ok] other show "other \<in> stored_nodes m" by auto
  have "node \<in> stored_nodes (fst (acting.seen x1))" using acting_path_stored [OF path assms(5)] assms(6) by auto
  moreover have "other \<noteq> node" using caller_before [OF path assms(5,6), of ctx agent_certificate_ou] a(2) assms(7) by auto
  ultimately show "\<not> same_name other node"
    using stored_by_names [of "kvs (fst x1)" "leases (fst x1)"] ok other unfolding same_name_def
    by (metis fst_conv option.inject sum.inject(2))
qed

lemma serve_moved:
  assumes "acting.good x" "names_of_nodes_valid q"
    and "(others node)\<^sup>*\<^sup>* (m0, L0) (acting.seen x)" "nodes_ok (m0, L0)" "node \<in> stored_nodes m0"
    and "\<not> speaks_for m0 node q"
  shows "moved x (serve (interleaved E env) S q x)"
proof (rule acting.handlers.serve_moves_by [OF assms(1)])
  fix ctx req r x'
  assume q: "q = RegisterReq ctx req" and run: "register (interleaved E env) ctx req x = (r, x')"
  show "moved x x'"
  proof (rule acting.handlers.moving.register_mv [OF assms(1) run])
    fix other x1 p spec x2 and l :: int
    assume auth: "authenticate_agent (interleaved E env) ctx x = (Inr other, x1)" and mv: "moved x1 x2" and "l \<noteq> 0"
    have "caller m0 ctx agent_certificate_ou \<noteq> Inr node" using assms(6) q by simp
    note o = other_agent [OF assms(1) auth mv assms(3-5) this]
    from o \<open>l \<noteq> 0\<close> show "allowed_by (others node) (register_txn other req spec l) (acting.seen x2)"
      unfolding allowed_by_def by (intro allI impI ActRegister) (auto simp: register_txn_def)
  qed
next
  fix ctx req r x'
  assume q: "q = DeregisterReq ctx req" and run: "deregister (interleaved E env) ctx req x = (r, x')"
  show "moved x x'"
  proof (rule acting.handlers.moving.deregister_mv [OF assms(1) run])
    fix other x1
    assume auth: "authenticate_agent (interleaved E env) ctx x = (Inr other, x1)"
    have mv: "moved x1 x1"
      using acting.handlers.moves_refl acting.handlers.moves_ok [OF acting.handlers.authenticate_agent_moves(1) [OF assms(1) auth]] by blast
    have "caller m0 ctx agent_certificate_ou \<noteq> Inr node" using assms(6) q by simp
    note o = other_agent [OF assms(1) auth mv assms(3-5) this]
    from o show "allowed_by (others node) (deregister_txn other req) (acting.seen x1)"
      unfolding allowed_by_def by (intro allI impI ActDeregister) auto
  qed
qed (use assms(2) in \<open>auto simp: allowed_by_def intro!: ActAddNode\<close>)

lemma history_moved:
  assumes "acting.good x" "list_all names_of_nodes_valid qs"
    and "(others node)\<^sup>*\<^sup>* (m0, L0) (acting.seen x)" "nodes_ok (m0, L0)" "node \<in> stored_nodes m0"
    and "list_all (\<lambda>q. \<not> speaks_for m0 node q) qs"
  shows "moved x (fold (serve (interleaved E env) S) qs x)"
  using assms
proof (induction qs arbitrary: x)
  case Nil
  then show ?case using acting.handlers.moves_refl by simp
next
  case (Cons q qs)
  have step: "moved x (serve (interleaved E env) S q x)" using Cons.prems by (intro serve_moved) auto
  then have path: "(others node)\<^sup>*\<^sup>* (m0, L0) (acting.seen (serve (interleaved E env) S q x))"
    using Cons.prems(3) by (auto simp: moves_by_def)
  have "list_all names_of_nodes_valid qs" "list_all (\<lambda>q. \<not> speaks_for m0 node q) qs" using Cons.prems(2,6) by simp_all
  from acting.handlers.moves_trans [OF step Cons.IH [OF acting.handlers.moves_ok [OF step] this(1) path Cons.prems(4,5) this(2)]]
  show ?case by (simp only: fold_simps)
qed

end

text \<open>The sample cluster, in which the lease of the registered service runs out meanwhile.\<close>

interpretation busy_guarded: guarded_store store_etcd store_wf store_kvs store_leases lease_runs_out sample_node
proof unfold_locales
  fix e n assume e: "store_wf e"
  then show "store_wf (lease_runs_out n e)" by (simp add: lease_runs_out_def store_revoke_wf)
  show "(others sample_node)\<^sup>*\<^sup>* (store_kvs e, store_leases e) (store_kvs (lease_runs_out n e), store_leases (lease_runs_out n e))"
  proof (cases "n = 2 \<and> 7 \<in> store_leases e")
    case True
    then have "etcd_lease_revoke store_etcd e 7 = (Inr (), lease_runs_out n e)"
      by (simp add: store_etcd_def store_revoke_def store_leases_def lease_runs_out_def)
    from etcd_ref.revoke_result [OF e this] True show ?thesis by (auto intro!: r_into_rtranclp ActEnd)
  next
    case False
    then show ?thesis by (auto simp: lease_runs_out_def store_revoke_def store_leases_def)
  qed
qed

section \<open>Reached from the empty store\<close>

text \<open>The steps of theory Cluster with names without slashes are steps by some node.\<close>

lemma registry_step_acts: "registry_step slash_free s s' \<Longrightarrow> acting_step (\<lambda>_. True) s s'"
proof (induction rule: registry_step.induct)
  case (AddNode req m rv L)
  then have "node_request_valid slash_free req"
    by (simp add: node_request_valid_def node_valid_def requested_node_def)
  with AddNode show ?case by (intro ActAddNode)
qed (auto intro: acting_step.intros)

lemma reachable_acts: "reachable slash_free s \<Longrightarrow> acting_path (\<lambda>_. True) (Map.empty, {}) s"
  unfolding reachable_def by (rule mono_rtranclp [rule_format, OF registry_step_acts])

text \<open>C5: a service belongs to the node that registered it. Let any number of clients with any certificates make any
  requests, with any bytes in them, slashes and text that is no UTF-8 included, to whichever registries and however
  interleaved, before and meanwhile: as long as none of them is a registration or deregistration that authenticates
  as the node, no service of the node whose names have no slash appears, none changes, and one that disappears
  does so because the lease it was attached to ended on the way. Of the requests it is only asked that administrators
  give nodes names of valid UTF-8 without slashes.\<close>
theorem services_belong_to_their_node:
  assumes "guarded_store E ok kvs leases env node" "ok e" "acting_path (\<lambda>_. True) (Map.empty, {}) (kvs e, leases e)"
    and "node \<in> stored_nodes (kvs e)"
    and "list_all names_of_nodes_valid qs" "list_all (\<lambda>q. \<not> speaks_for (kvs e) node q) qs"
    and "slash_free s" "slash_free i" "k \<in> service_keys node s i"
  shows "\<exists>e' m. fold (serve (interleaved E env) S) qs (e, n) = (e', m)
    \<and> (kvs e' k = kvs e k
       \<or> (\<exists>x. kvs e k = Some x \<and> kvs e' k = None
            \<and> lease_ended (others node) (kv_lease x) (kvs e, leases e) (kvs e', leases e')))"
proof -
  obtain e' m where f: "fold (serve (interleaved E env) S) qs (e, n) = (e', m)" by (rule prod.exhaust)
  have start: "nodes_ok (kvs e, leases e)" by (rule acting_path_ok [OF assms(3) nodes_ok_empty])
  have "(others node)\<^sup>*\<^sup>* (kvs e, leases e) (kvs e', leases e')"
    using guarded_store.history_moved [OF assms(1) _ assms(5) _ start assms(4,6), of "(e, n)" S] assms(2) start f
    by (simp add: moves_by_def)
  moreover have "node_slash_free node"
    using stored_under_names(2) [OF start] assms(4) by (auto simp: stored_nodes_def)
  ultimately have "entry_kept node k (kvs e, leases e) (kvs e', leases e')"
    using entry_kept_path start assms(7-9) by blast
  with f show ?thesis by (auto simp: entry_kept_def)
qed

text \<open>A request of another node whose strings contain slashes and a byte that occurs in no UTF-8 text.\<close>

definition hostile_request :: register_request where
  "hostile_request = sample_request\<lparr>reg_service := ''web/eu/dc1'', reg_instance := [CHR 0xFF, CHR ''/'']\<rparr>"

theorem services_belong_to_their_node_witness:
  "\<exists>e' m. fold (serve (interleaved store_etcd lease_runs_out) sample_surroundings)
      [RegisterReq (Some observer_peer) hostile_request, DeregisterReq (Some observer_peer) sample_deregister,
       ResetReq (Some observer_peer), HeartbeatReq (Some agent_peer)] (busy_store, 0) = (e', m)
    \<and> store_kvs e' ''svc/web/eu/dc1/n1/c1'' \<in> {None, store_kvs busy_store ''svc/web/eu/dc1/n1/c1''}"
proof -
  let ?qs = "[RegisterReq (Some observer_peer) hostile_request, DeregisterReq (Some observer_peer) sample_deregister,
    ResetReq (Some observer_peer), HeartbeatReq (Some agent_peer)]"
  have g: "guarded_store store_etcd store_wf store_kvs store_leases lease_runs_out sample_node" by unfold_locales
  have node: "sample_node \<in> stored_nodes (store_kvs busy_store)" using busy_stored(1) by (auto simp: stored_nodes_def)
  have v: "list_all names_of_nodes_valid ?qs" by simp
  have "caller (store_kvs busy_store) (Some observer_peer) agent_certificate_ou \<noteq> Inr sample_node"
    by (simp add: caller_def extract_peer_certificate_def observer_peer_def sample_peer_def sample_cert_def
        agent_certificate_ou_def split: sum.split option.split)
  then have o: "list_all (\<lambda>q. \<not> speaks_for (store_kvs busy_store) sample_node q) ?qs" by simp
  have k: "slash_free ''web''" "slash_free ''c1''" "''svc/web/eu/dc1/n1/c1'' \<in> service_keys sample_node ''web'' ''c1''"
    by (simp_all add: slash_free_def service_keys_def sample_service_keys)
  show ?thesis
    using services_belong_to_their_node [OF g busy_store_wf reachable_acts [OF busy_reachable] node v o k, of sample_surroundings 0]
    by auto
qed

end
