(* ===== verification/Observation.thy ===== *)
theory Observation
  imports Guarantees PromState
begin

text \<open>
  From the store to the file that Prometheus reads: the observer of src/prom-sd-observer against the
  cluster of theory Cluster. The watch of a registry yields the events of the steps that others take,
  the bulk answer shows the store at one moment, and the two reach the observer in some order.
\<close>

section \<open>What the targets should be\<close>

definition spec_target :: "service_spec \<Rightarrow> prom_service option" where
  "spec_target svc =
     (case (spec_metrics_port svc, spec_instance svc, spec_location svc) of
        (Some port, Some inst, Some location) \<Rightarrow>
          if port = 0 then None else Some (prom_service_of svc port location inst)
      | _ \<Rightarrow> None)"

definition stored_target :: "kv option \<Rightarrow> prom_service option" where
  "stored_target x = Option.bind x (\<lambda>e. Option.bind (unmarshal_spec (kv_value e)) spec_target)"

definition service_path :: "string \<Rightarrow> service_key \<Rightarrow> string" where
  "service_path dc sk = dc_prefix dc @ key_path [sk_node sk, sk_service_name sk, sk_instance sk]"

text \<open>The targets that the services of a datacenter amount to.\<close>

definition targets_of :: "string \<Rightarrow> (string \<rightharpoonup> kv) \<Rightarrow> service_key \<rightharpoonup> prom_service" where
  "targets_of dc m sk = stored_target (m (service_path dc sk))"

section \<open>What a watch yields\<close>

fun event_key :: "event \<Rightarrow> string" where
  "event_key (PutEvent k v) = k"
| "event_key (DeleteEvent k) = k"

fun event_ok :: "(string \<rightharpoonup> kv) \<Rightarrow> (string \<rightharpoonup> kv) \<Rightarrow> event \<Rightarrow> bool" where
  "event_ok m m' (PutEvent k v) = (map_option kv_value (m' k) = Some v)"
| "event_ok m m' (DeleteEvent k) = (m k \<noteq> None \<and> m' k = None)"

text \<open>The events of one step: every key with the prefix whose value or lease changed has one, and each
  says what became of its key. A put that changes nothing may have one as well.\<close>

definition step_events :: "string \<Rightarrow> (string \<rightharpoonup> kv) \<Rightarrow> (string \<rightharpoonup> kv) \<Rightarrow> event list \<Rightarrow> bool" where
  "step_events p m m' es \<longleftrightarrow>
     list_all (\<lambda>ev. prefix p (event_key ev) \<and> event_ok m m' ev) es
     \<and> (\<forall>k. prefix p k \<and> content (m k) \<noteq> content (m' k) \<longrightarrow> k \<in> event_key ` set es)"

text \<open>No service that stays gives up its metrics port.\<close>

definition metrics_kept :: "string \<Rightarrow> (string \<rightharpoonup> kv) \<Rightarrow> (string \<rightharpoonup> kv) \<Rightarrow> bool" where
  "metrics_kept dc m m' \<longleftrightarrow>
     (\<forall>sk. targets_of dc m sk \<noteq> None \<and> m' (service_path dc sk) \<noteq> None \<longrightarrow> targets_of dc m' sk \<noteq> None)"

inductive watched :: "string \<Rightarrow> cluster \<Rightarrow> event list \<Rightarrow> cluster \<Rightarrow> bool" for dc where
  Nothing: "watched dc s [] s"
| Change: "watched dc s evs s' \<Longrightarrow> registry_step slash_free s' s'' \<Longrightarrow> metrics_kept dc (fst s') (fst s'') \<Longrightarrow>
    step_events (dc_prefix dc) (fst s') (fst s'') es \<Longrightarrow> watched dc s (evs @ es) s''"

lemma watched_path: "watched dc s evs s' \<Longrightarrow> registry_path slash_free s s'"
  by (induction rule: watched.induct) auto

section \<open>Keys of services\<close>

lemma slash_prefix:
  "slash_free a \<Longrightarrow> slash_free b \<Longrightarrow> prefix (a @ CHR ''/'' # r) (b @ CHR ''/'' # t) \<Longrightarrow> a = b"
proof (induction a arbitrary: b)
  case Nil
  then show ?case by (cases b) (auto simp: slash_free_def)
next
  case (Cons x a)
  then show ?case by (cases b) (auto simp: slash_free_def)
qed

lemma split_on_single: "split_on c x = [y] \<Longrightarrow> x = y"
  by (induction x arbitrary: y) (auto split: if_splits list.splits)

lemma split_on_Cons: obtains p ps where "split_on c x = p # ps"
  by (cases "split_on c x") simp_all

text \<open>A service that a key names by its last three parts is named by no other three parts.\<close>

lemma service_path_inject:
  assumes "service_path dc sk = service_path dc sk'" "slash_free (sk_node sk)" "slash_free (sk_service_name sk)" "slash_free (sk_instance sk)"
  shows "sk' = sk"
proof -
  let ?split = "split_on (CHR ''/'')"
  have "?split (key_path [sk_node sk, sk_service_name sk, sk_instance sk]) = [sk_node sk, sk_service_name sk, sk_instance sk]"
    using assms(2-4) by (intro key_path_split) simp_all
  moreover have "key_path [sk_node sk, sk_service_name sk, sk_instance sk] = key_path [sk_node sk', sk_service_name sk', sk_instance sk']"
    using assms(1) by (simp add: service_path_def)
  ultimately have "?split (key_path [sk_node sk', sk_service_name sk', sk_instance sk']) =
      [sk_node sk, sk_service_name sk, sk_instance sk]" by simp
  then have parts: "?split (sk_node sk') @ ?split (sk_service_name sk') @ ?split (sk_instance sk') =
      [sk_node sk, sk_service_name sk, sk_instance sk]"
    by (simp add: key_path_def split_on_append_sep)
  obtain a as b bs c cs where "?split (sk_node sk') = a # as" "?split (sk_service_name sk') = b # bs"
    "?split (sk_instance sk') = c # cs" using split_on_Cons by metis
  with parts show ?thesis by (cases as; cases bs; cases cs) (auto dest!: split_on_single)
qed

section \<open>What one event does to the targets\<close>

lemma reachable_target:
  assumes "reachable slash_free (m, L)" "slash_free dc" "m k = Some x" "prefix (dc_prefix dc) k"
  obtains sk spec where "k = service_path dc sk" "slash_free (sk_node sk)" "slash_free (sk_service_name sk)" "slash_free (sk_instance sk)"
    "kv_value x = marshal_spec spec" "spec_valid spec" "spec_node spec = Some (sk_node sk)"
    "spec_service_name spec = Some (sk_service_name sk)" "spec_instance spec = Some (sk_instance sk)" "spec_location spec \<noteq> None"
proof -
  have "prefix ''dcsvc/'' k" using assms(4) unfolding dc_prefix_def by (rule append_prefixD)
  from reachable_services [OF assms(1,3) disjI2 [OF this]]
  obtain node s i spec where n: "node \<in> stored_nodes m" "k \<in> service_keys node s i" "kv_value x = marshal_spec spec"
    "spec_valid spec" "describes node s i spec" "slash_free s" "slash_free i" by metis
  have free: "node_slash_free node"
    using stored_node_entry [OF reachable_ok [OF assms(1)] n(1)] named_slash_free by metis
  have k: "k = ds_svc_key node s i"
    using n(2) \<open>prefix ''dcsvc/'' k\<close> by (auto simp: service_keys_def svc_key_def key_path_two)
  have "ns_datacenter node = dc"
    using slash_prefix [of dc "ns_datacenter node" "[]"] assms(2,4) free
    by (auto simp: k dc_prefix_def ds_svc_key_def key_path_two node_slash_free_def)
  then have "k = service_path dc \<lparr>sk_node = ns_name node, sk_service_name = s, sk_instance = i\<rparr>"
    by (simp add: k ds_svc_key_def service_path_def dc_prefix_def key_path_two)
  then show thesis
    using free n(3-7) by (intro that) (auto simp: node_slash_free_def describes_def)
qed

text \<open>What an event of a service makes of its target, when \<open>m\<close> is the store after it.\<close>

definition updated_target :: "string \<Rightarrow> (string \<rightharpoonup> kv) \<Rightarrow> service_key \<Rightarrow> prom_service option \<Rightarrow> prom_service option" where
  "updated_target dc m sk old =
     (if m (service_path dc sk) = None then None
      else case targets_of dc m sk of None \<Rightarrow> old | Some t \<Rightarrow> Some t)"

lemma updated_twice [simp]: "updated_target dc m sk (updated_target dc m sk x) = updated_target dc m sk x"
  by (simp add: updated_target_def split: option.split)

lemma event_effect:
  assumes "reachable slash_free (m, L)" "reachable slash_free (m', L')" "slash_free dc"
    and "prefix (dc_prefix dc) (event_key ev)" "event_ok m m' ev"
  obtains sk msg where "\<And>sk'. service_path dc sk' = event_key ev \<longleftrightarrow> sk' = sk" "event_message ev = Inr msg"
    "full_input (Message msg)" "\<And>T. spec_input (Message msg) T = T(sk := updated_target dc m' sk (T sk))"
proof (cases ev)
  case (PutEvent k v)
  with assms(5) obtain x where x: "m' k = Some x" "kv_value x = v" by auto
  with assms(4) PutEvent reachable_target [OF assms(2,3), of k x]
  obtain sk spec where k: "k = service_path dc sk" "slash_free (sk_node sk)" "slash_free (sk_service_name sk)" "slash_free (sk_instance sk)"
    and v: "v = marshal_spec spec" "spec_valid spec" "spec_node spec = Some (sk_node sk)"
    "spec_service_name spec = Some (sk_service_name sk)" "spec_instance spec = Some (sk_instance sk)" "spec_location spec \<noteq> None"
    by auto
  have decoded: "unmarshal_spec v = Some spec" using unmarshal_marshal_spec(1) [OF v(2)] v(1) by simp
  then have after: "m' (service_path dc sk) \<noteq> None" "targets_of dc m' sk = spec_target spec"
    using x k(1) by (auto simp: targets_of_def stored_target_def)
  show thesis
  proof (rule that)
    show "service_path dc sk' = event_key ev \<longleftrightarrow> sk' = sk" for sk'
      using service_path_inject [OF _ k(2-4), of dc] PutEvent k(1) by auto
    show "event_message ev = Inr (WatchUpdate spec)" using decoded by (simp add: PutEvent event_message_def)
    show "full_input (Message (WatchUpdate spec))" using v(3-6) by (simp add: full_spec_def)
    show "spec_input (Message (WatchUpdate spec)) T = T(sk := updated_target dc m' sk (T sk))" for T
      using v(3-6) after by (auto simp: updated_target_def spec_target_def split: option.split)
  qed
next
  case (DeleteEvent k)
  with assms(5) obtain x where x: "m k = Some x" "m' k = None" by auto
  with assms(4) DeleteEvent reachable_target [OF assms(1,3), of k x]
  obtain sk where k: "k = service_path dc sk" "slash_free (sk_node sk)" "slash_free (sk_service_name sk)" "slash_free (sk_instance sk)"
    by auto
  show thesis
  proof (rule that)
    show "service_path dc sk' = event_key ev \<longleftrightarrow> sk' = sk" for sk'
      using service_path_inject [OF _ k(2-4), of dc] DeleteEvent k(1) by auto
    show "event_message ev = Inr (WatchDelete \<lparr>wd_service_name = sk_service_name sk, wd_node = sk_node sk, wd_instance = sk_instance sk\<rparr>)"
      using event_message_delete [OF k(2-4), of "''dcsvc/'' @ dc"] by (simp add: DeleteEvent k(1) service_path_def dc_prefix_def)
    show "spec_input (Message (WatchDelete \<lparr>wd_service_name = sk_service_name sk, wd_node = sk_node sk, wd_instance = sk_instance sk\<rparr>)) T =
        T(sk := updated_target dc m' sk (T sk))" for T
      using x k(1) by (auto simp: updated_target_def)
  qed simp
qed

text \<open>The messages for some events, and what they do to the targets.\<close>

definition told :: "event list \<Rightarrow> watch_response list \<Rightarrow> bool" where
  "told evs msgs \<longleftrightarrow> map event_message evs = map Inr msgs \<and> list_all (\<lambda>msg. full_input (Message msg)) msgs"

abbreviation follow :: "watch_response list \<Rightarrow> (service_key \<rightharpoonup> prom_service) \<Rightarrow> (service_key \<rightharpoonup> prom_service)" where
  "follow msgs \<equiv> fold spec_input (map Message msgs)"

lemma told_append: "told evs msgs \<Longrightarrow> told evs' msgs' \<Longrightarrow> told (evs @ evs') (msgs @ msgs')"
  by (simp add: told_def)

lemma events_effect:
  assumes "reachable slash_free (m, L)" "reachable slash_free (m', L')" "slash_free dc"
    and "list_all (\<lambda>ev. prefix (dc_prefix dc) (event_key ev) \<and> event_ok m m' ev) es"
  shows "\<exists>msgs. told es msgs \<and> (\<forall>T sk. follow msgs T sk =
    (if service_path dc sk \<in> event_key ` set es then updated_target dc m' sk (T sk) else T sk))"
  using assms(4)
proof (induction es)
  case Nil
  show ?case by (intro exI [of _ "[]"]) (simp add: told_def)
next
  case (Cons ev es)
  then obtain msgs where msgs: "told es msgs" "\<And>T sk. follow msgs T sk =
    (if service_path dc sk \<in> event_key ` set es then updated_target dc m' sk (T sk) else T sk)" by auto
  obtain k msg where msg: "\<And>sk'. service_path dc sk' = event_key ev \<longleftrightarrow> sk' = k" "event_message ev = Inr msg"
    "full_input (Message msg)" "\<And>T. spec_input (Message msg) T = T(k := updated_target dc m' k (T k))"
    using event_effect [OF assms(1-3), of ev] Cons.prems by auto
  have "follow (msg # msgs) T sk =
      (if service_path dc sk \<in> event_key ` set (ev # es) then updated_target dc m' sk (T sk) else T sk)" for T sk
    by (auto simp: msgs(2) msg(4) msg(1))
  moreover have "told (ev # es) (msg # msgs)" using msgs(1) msg(2,3) by (simp add: told_def)
  ultimately show ?case by blast
qed

section \<open>Following the store\<close>

lemma targets_content: "content (m (service_path dc sk)) = content (m' (service_path dc sk)) \<Longrightarrow> targets_of dc m sk = targets_of dc m' sk"
  by (cases "m (service_path dc sk)"; cases "m' (service_path dc sk)") (auto simp: targets_of_def stored_target_def content_def)

text \<open>Targets that are those of the store, but for stale values that \<open>Q\<close> allows, stay so when the messages of
  a watch are applied: no event brings a stale value, and an event of a service replaces one.\<close>

lemma step_followed:
  assumes "reachable slash_free s" "registry_step slash_free s s'" "slash_free dc" "metrics_kept dc (fst s) (fst s')"
    and "step_events (dc_prefix dc) (fst s) (fst s') es"
  shows "\<exists>msgs. told es msgs \<and> (\<forall>T sk. T sk = targets_of dc (fst s) sk \<or> Q sk (T sk) \<longrightarrow>
    follow msgs T sk = targets_of dc (fst s') sk \<or> Q sk (follow msgs T sk))"
proof -
  obtain m L m' L' where s: "s = (m, L)" "s' = (m', L')" by fastforce
  have "reachable slash_free (m', L')" using reachable_path [OF assms(1)] assms(2) s by blast
  then obtain msgs where msgs: "told es msgs" "\<And>T sk. follow msgs T sk =
      (if service_path dc sk \<in> event_key ` set es then updated_target dc m' sk (T sk) else T sk)"
    using events_effect [of m L m' L' dc es] assms(1,3,5) s by (auto simp: step_events_def)
  have "follow msgs T sk = targets_of dc m' sk \<or> Q sk (follow msgs T sk)"
    if T: "T sk = targets_of dc m sk \<or> Q sk (T sk)" for T sk
  proof (cases "service_path dc sk \<in> event_key ` set es")
    case True
    have "targets_of dc m' sk = None" if "m' (service_path dc sk) = None" using that by (simp add: targets_of_def stored_target_def)
    moreover have "targets_of dc m sk = None" if "targets_of dc m' sk = None" "m' (service_path dc sk) \<noteq> None"
      using assms(4) that s unfolding metrics_kept_def by (metis fst_conv)
    ultimately show ?thesis using T True by (auto simp: msgs(2) updated_target_def split: option.split)
  next
    case False
    moreover have "prefix (dc_prefix dc) (service_path dc sk)" by (simp add: service_path_def)
    ultimately have "targets_of dc m sk = targets_of dc m' sk"
      using assms(5) s unfolding step_events_def by (metis targets_content fst_conv)
    with T False show ?thesis by (simp add: msgs(2))
  qed
  with msgs(1) s show ?thesis by auto
qed

lemma watch_followed:
  assumes "watched dc s evs s'" "reachable slash_free s" "slash_free dc"
  shows "\<exists>msgs. told evs msgs \<and> (\<forall>T. (\<forall>sk. T sk = targets_of dc (fst s) sk \<or> Q sk (T sk)) \<longrightarrow>
    (\<forall>sk. follow msgs T sk = targets_of dc (fst s') sk \<or> Q sk (follow msgs T sk)))"
  using assms
proof (induction rule: watched.induct)
  case (Nothing s)
  show ?case by (intro exI [of _ "[]"]) (simp add: told_def)
next
  case (Change s evs s' s'' es)
  obtain msgs where msgs: "told evs msgs" "\<And>T sk. (\<forall>sk. T sk = targets_of dc (fst s) sk \<or> Q sk (T sk)) \<Longrightarrow>
      follow msgs T sk = targets_of dc (fst s') sk \<or> Q sk (follow msgs T sk)"
    using Change.IH [OF Change.prems] by blast
  obtain msgs' where msgs': "told es msgs'" "\<And>T sk. T sk = targets_of dc (fst s') sk \<or> Q sk (T sk) \<Longrightarrow>
      follow msgs' T sk = targets_of dc (fst s'') sk \<or> Q sk (follow msgs' T sk)"
    using step_followed [OF reachable_path [OF Change.prems(1) watched_path [OF Change.hyps(1)]] Change.hyps(2) Change.prems(2) Change.hyps(3,4)]
    by blast
  have "follow (msgs @ msgs') T sk = targets_of dc (fst s'') sk \<or> Q sk (follow (msgs @ msgs') T sk)"
    if "\<forall>sk. T sk = targets_of dc (fst s) sk \<or> Q sk (T sk)" for T sk
    using msgs(2) [OF that] msgs'(2) [of "follow msgs T"] by simp
  then show ?case using told_append [OF msgs(1) msgs'(1)] by blast
qed

text \<open>The bulk answer puts the targets of its moment over what was there.\<close>

definition spec_in :: "(string \<rightharpoonup> kv) \<Rightarrow> string \<Rightarrow> service_spec" where
  "spec_in m k = the (the (unmarshal_spec_ptr (kv_value (the (m k)))))"

lemma bulk_effect:
  assumes "reachable slash_free (m, L)" "slash_free dc" "set ks \<subseteq> matching m (dc_prefix dc)"
  shows "list_all full_spec (map (spec_in m) ks)
    \<and> fold spec_update (map (spec_in m) ks) T sk =
        (if service_path dc sk \<in> set ks \<and> targets_of dc m sk \<noteq> None then targets_of dc m sk else T sk)"
  using assms(3)
proof (induction ks arbitrary: T)
  case (Cons k ks)
  then obtain x where x: "m k = Some x" "prefix (dc_prefix dc) k" by (auto simp: matching_def)
  from reachable_target [OF assms(1,2) x]
  obtain sk' spec where k: "k = service_path dc sk'" "slash_free (sk_node sk')" "slash_free (sk_service_name sk')" "slash_free (sk_instance sk')"
    and v: "kv_value x = marshal_spec spec" "spec_valid spec" "spec_node spec = Some (sk_node sk')"
    "spec_service_name spec = Some (sk_service_name sk')" "spec_instance spec = Some (sk_instance sk')" "spec_location spec \<noteq> None" .
  have spec: "spec_in m k = spec" using x(1) v(1) unmarshal_marshal_spec(2) [OF v(2)] by (simp add: spec_in_def)
  have target: "targets_of dc m sk' = spec_target spec"
    using x(1) k(1) v(1) unmarshal_marshal_spec(1) [OF v(2)] by (simp add: targets_of_def stored_target_def)
  have here: "service_path dc sk = k \<longleftrightarrow> sk = sk'" using service_path_inject [OF _ k(2-4), of dc] k(1) by auto
  have "spec_update spec T = (case spec_target spec of None \<Rightarrow> T | Some t \<Rightarrow> T(sk' \<mapsto> t))"
    using v(3-6) by (auto simp: spec_target_def split: option.split)
  moreover have "full_spec spec" using v(3-6) by (simp add: full_spec_def)
  ultimately show ?case using Cons here target by (auto simp: spec split: option.splits)
qed simp

lemma bulk_targets:
  assumes "reachable slash_free (m, L)" "slash_free dc" "set ks = matching m (dc_prefix dc)"
  shows "list_all full_spec (map (spec_in m) ks)"
    "fold spec_update (map (spec_in m) ks) T sk = (case targets_of dc m sk of None \<Rightarrow> T sk | Some t \<Rightarrow> Some t)"
proof -
  note b = bulk_effect [OF assms(1,2) equalityD1 [OF assms(3)]]
  show "list_all full_spec (map (spec_in m) ks)" by (rule conjunct1 [OF b])
  have "service_path dc sk \<in> set ks" if "targets_of dc m sk \<noteq> None"
    using that unfolding assms(3) by (auto simp: matching_def targets_of_def stored_target_def service_path_def bind_eq_None_conv)
  with b [of T sk] show "fold spec_update (map (spec_in m) ks) T sk = (case targets_of dc m sk of None \<Rightarrow> T sk | Some t \<Rightarrow> Some t)"
    by (auto split: option.split)
qed

text \<open>The observer's inputs when the bulk answer is handled after the first messages.\<close>

definition watch_inputs :: "nat \<Rightarrow> watch_response list \<Rightarrow> service_spec list \<Rightarrow> prom_input list" where
  "watch_inputs n msgs svcs = map Message (take n msgs) @ BulkAnswer svcs # map Message (drop n msgs)"

lemma watched_targets:
  assumes "reachable slash_free s0" "slash_free dc"
    and "watched dc s0 before s1" "watched dc s1 between s2" "watched dc s2 after s3"
    and "set ks = matching (fst s2) (dc_prefix dc)"
  obtains msgs where "map event_message (before @ between @ after) = map Inr msgs"
    "list_all full_input (watch_inputs (length before) msgs (map (spec_in (fst s2)) ks))"
    "fold spec_input (watch_inputs (length before) msgs (map (spec_in (fst s2)) ks)) Map.empty = targets_of dc (fst s3)"
proof -
  let ?T = "targets_of dc" and ?svcs = "map (spec_in (fst s2)) ks"
  have r1: "reachable slash_free s1" using reachable_path [OF assms(1) watched_path [OF assms(3)]] .
  have r2: "reachable slash_free s2" using reachable_path [OF r1 watched_path [OF assms(4)]] .
  have r2': "reachable slash_free (fst s2, snd s2)" using r2 by simp
  note bulk = bulk_targets [OF r2' assms(2,6)]
  obtain a where a: "told before a" "follow a Map.empty sk = ?T (fst s1) sk \<or> follow a Map.empty sk = None" for sk
    using watch_followed [OF assms(3,1,2), of "\<lambda>sk t. t = None"] by (metis (mono_tags, lifting))
  define T1 where "T1 = fold spec_update ?svcs (follow a Map.empty)"
  have T1: "T1 sk = ?T (fst s1) sk \<or> T1 sk = ?T (fst s2) sk" for sk
    using a(2) [of sk] by (auto simp: T1_def bulk(2) split: option.split)
  obtain b where b: "told between b" "\<And>T sk. \<forall>sk. T sk = ?T (fst s1) sk \<or> T sk = ?T (fst s2) sk \<Longrightarrow>
      follow b T sk = ?T (fst s2) sk \<or> follow b T sk = ?T (fst s2) sk"
    using watch_followed [OF assms(4) r1 assms(2), of "\<lambda>sk t. t = ?T (fst s2) sk"] by blast
  have T2: "follow b T1 = ?T (fst s2)" using b(2) T1 by (intro ext) blast
  obtain c where c: "told after c" "\<And>T sk. \<forall>sk. T sk = ?T (fst s2) sk \<or> False \<Longrightarrow>
      follow c T sk = ?T (fst s3) sk \<or> False"
    using watch_followed [OF assms(5) r2 assms(2), of "\<lambda>sk t. False"] by blast
  have T3: "follow c (follow b T1) = ?T (fst s3)" using c(2) [of "follow b T1"] T2 by (intro ext) simp
  have len: "length a = length before" using a(1) by (metis told_def length_map)
  have inps: "watch_inputs (length before) (a @ b @ c) ?svcs = map Message a @ BulkAnswer ?svcs # map Message (b @ c)"
    by (simp add: watch_inputs_def len)
  show thesis
  proof
    show "map event_message (before @ between @ after) = map Inr (a @ b @ c)" using a(1) b(1) c(1) by (simp add: told_def)
    show "list_all full_input (watch_inputs (length before) (a @ b @ c) ?svcs)"
      using a(1) b(1) c(1) bulk(1) by (auto simp: inps told_def list_all_iff)
    show "fold spec_input (watch_inputs (length before) (a @ b @ c) ?svcs) Map.empty = ?T (fst s3)"
      using T3 unfolding inps by (simp add: T1_def)
  qed
qed

lemma watch_loop_all: "map event_message evs = map Inr msgs \<Longrightarrow> watch_loop (\<lambda>n. True) i evs = (msgs, Inr ())"
  by (induction evs arbitrary: i msgs) (auto simp: Cons_eq_map_conv)

section \<open>Properties\<close>

lemma caller_stored: "caller m ctx role = Inr node \<Longrightarrow> node \<in> stored_nodes m"
  by (auto simp: caller_def stored_nodes_def split: sum.splits option.splits if_splits)

text \<open>The answer of \<^verbatim>\<open>GetDatacenterServices\<close> in a reachable cluster.\<close>

definition bulk_answer :: "string \<Rightarrow> (string \<rightharpoonup> kv) \<Rightarrow> service_spec list" where
  "bulk_answer dc m = map (spec_in m) (sorted_list_of_set (matching m (dc_prefix dc)))"

lemma bulk_answered:
  assumes "etcd_live E ok kvs leases" "ok e" "caller (kvs e) ctx observer_certificate_ou = Inr obs"
    and "reachable slash_free (kvs e, leases e)" "dc = ns_datacenter obs"
  obtains e' where "get_datacenter_services E ctx e = (Inr (map Some (bulk_answer dc (kvs e))), e')" "slash_free dc"
    "set (sorted_list_of_set (matching (kvs e) (dc_prefix dc))) = matching (kvs e) (dc_prefix dc)"
proof -
  let ?M = "matching (kvs e) (dc_prefix dc)" and ?spec = "\<lambda>k. the (unmarshal_spec_ptr (kv_value (the (kvs e k))))"
  have free: "slash_free dc"
    using stored_node_entry [OF reachable_ok [OF assms(4)] caller_stored [OF assms(3)]] assms(5) by (auto simp: node_named_def)
  obtain e' where g: "get_datacenter_services E ctx e = (Inr (map ?spec (sorted_list_of_set ?M)), e')"
    using etcd_live.get_datacenter_services_total [OF assms(1-3)] reachable_all_decode(2) [OF assms(4)] assms(5) by blast
  have "finite (dom (kvs e))" by (rule etcd_store.finite_kvs [OF etcd_live.axioms(1) [OF assms(1)] assms(2)])
  then have fin: "set (sorted_list_of_set ?M) = ?M" by (simp add: matching_def)
  have "?spec k = Some (spec_in (kvs e) k)" if k: "k \<in> ?M" for k
  proof -
    obtain x where x: "kvs e k = Some x" "prefix (dc_prefix dc) k" using k by (auto simp: matching_def)
    from reachable_target [OF assms(4) free x] obtain spec where "kv_value x = marshal_spec spec" "spec_valid spec" by blast
    with x(1) show ?thesis by (simp add: spec_in_def unmarshal_marshal_spec(2))
  qed
  then have "map ?spec (sorted_list_of_set ?M) = map Some (bulk_answer dc (kvs e))" using fin by (simp add: bulk_answer_def)
  with g free fin show thesis by (intro that) simp_all
qed

text \<open>C6: an observer that watches first and applies an answer of \<^verbatim>\<open>GetDatacenterServices\<close> that is no older than
  the messages it has handled before it has, at any later moment, once the messages so far are handled,
  exactly the targets that the services of its datacenter amount to, and the file is a JSON array of
  them; neither the watch nor the observer fails on the way. Requests have no slashes in their names, and
  no service gives up its metrics port.\<close>
theorem observer_converges:
  assumes "etcd_live E ok kvs leases" "ok e" "caller (kvs e) ctx observer_certificate_ou = Inr obs"
    and "reachable slash_free s0" "dc = ns_datacenter obs"
    and "watched dc s0 before s1" "watched dc s1 between (kvs e, leases e)" "watched dc (kvs e, leases e) after s3"
  shows "\<exists>msgs svcs e'. watch_loop (\<lambda>n. True) 0 (before @ between @ after) = (msgs, Inr ())
    \<and> get_datacenter_services E ctx e = (Inr (map Some svcs), e')
    \<and> (\<exists>st0 st. prom_run st0 (watch_inputs (length before) msgs svcs) st)
    \<and> (\<forall>st0 st. prom_run st0 (watch_inputs (length before) msgs svcs) st \<longrightarrow>
        map_of (pm_targets st) = targets_of dc (fst s3) \<and> file_mirrors st)"
proof -
  have r: "reachable slash_free (kvs e, leases e)"
    using assms(4,6,7) reachable_path watched_path by metis
  obtain e' where g: "get_datacenter_services E ctx e = (Inr (map Some (bulk_answer dc (kvs e))), e')" "slash_free dc"
    "set (sorted_list_of_set (matching (kvs e) (dc_prefix dc))) = matching (kvs e) (dc_prefix dc)"
    by (rule bulk_answered [OF assms(1-3) r assms(5)])
  obtain msgs where msgs: "map event_message (before @ between @ after) = map Inr msgs"
    "list_all full_input (watch_inputs (length before) msgs (bulk_answer dc (kvs e)))"
    "fold spec_input (watch_inputs (length before) msgs (bulk_answer dc (kvs e))) Map.empty = targets_of dc (fst s3)"
    using watched_targets [OF assms(4) g(2) assms(6-8), of "sorted_list_of_set (matching (kvs e) (dc_prefix dc))"] g(3)
    by (auto simp: bulk_answer_def)
  let ?inps = "watch_inputs (length before) msgs (bulk_answer dc (kvs e))"
  have "\<exists>st0 st. prom_run st0 ?inps st" using prom_run_total [OF msgs(2)] by blast
  moreover have "map_of (pm_targets st) = targets_of dc (fst s3) \<and> file_mirrors st" if "prom_run st0 ?inps st" for st0 st
    using prom_run_facts [OF that] msgs(3) by simp
  ultimately show ?thesis using watch_loop_all [OF msgs(1), of 0] g(1) by blast
qed

text \<open>The registration of a service with a metrics port in the busy store, and the end of its lease.\<close>

definition metrics_request :: register_request where
  "metrics_request = sample_request\<lparr>reg_metrics_port := Some 9100\<rparr>"

definition metrics_store :: "string \<rightharpoonup> kv" where
  "metrics_store = apply_txn 3 (register_txn sample_node metrics_request metrics_spec 7) (store_kvs busy_store)"

lemma metrics_filled: "fill_addresses agent_peer (registered_spec sample_node metrics_request) = Inr metrics_spec"
  by code_simp

lemma metrics_spec_valid: "spec_valid metrics_spec"
  by code_simp

lemma busy_no_targets: "targets_of ''dc1'' (store_kvs busy_store) sk = None"
proof (rule ccontr)
  let ?k = "service_path ''dc1'' sk"
  assume a: "targets_of ''dc1'' (store_kvs busy_store) sk \<noteq> None"
  then have "?k \<in> matching (store_kvs busy_store) ''dcsvc/dc1/''"
    by (auto simp: matching_def targets_of_def stored_target_def service_path_def dc_prefix_def bind_eq_None_conv)
  then have "?k = ''dcsvc/dc1/n1/web/c1''" unfolding busy_matching(2) by simp
  then have "targets_of ''dc1'' (store_kvs busy_store) sk = spec_target sample_spec"
    using unmarshal_marshal_spec(1) [OF sample_spec_valid] by (simp add: targets_of_def stored_target_def busy_kvs)
  moreover have "spec_target sample_spec = None"
    by (simp add: spec_target_def sample_spec_def registered_spec_def sample_request_def)
  ultimately show False using a by simp
qed

lemma put_entry_value: "kv_value (put_entry rv k v l old) = v"
  by (simp add: put_entry_def split: option.split)

lemma metrics_watched:
  "watched ''dc1'' (store_kvs busy_store, store_leases busy_store) [PutEvent ''dcsvc/dc1/n1/web/c1'' (marshal_spec metrics_spec)]
    (metrics_store, store_leases busy_store)"
proof -
  have "sample_node \<in> stored_nodes (store_kvs busy_store)" using caller_stored [OF busy_caller(1)] .
  then have step: "registry_step slash_free (store_kvs busy_store, store_leases busy_store) (metrics_store, store_leases busy_store)"
    unfolding metrics_store_def
    by (intro registry_step.Register [OF _ _ _ metrics_filled metrics_spec_valid])
      (simp_all add: metrics_request_def sample_request_def slash_free_def store_leases_def busy_store_def)
  have store: "metrics_store = (store_kvs busy_store)(''svc/web/eu/dc1/n1/c1'' \<mapsto> y, ''dcsvc/dc1/n1/web/c1'' \<mapsto> x)"
    if "x = put_entry 3 ''dcsvc/dc1/n1/web/c1'' (marshal_spec metrics_spec) 7 (store_kvs busy_store ''dcsvc/dc1/n1/web/c1'')"
      "y = put_entry 3 ''svc/web/eu/dc1/n1/c1'' (marshal_spec metrics_spec) 7 (store_kvs busy_store ''svc/web/eu/dc1/n1/c1'')" for x y
    using that by (simp add: metrics_store_def apply_txn_def register_txn_def metrics_request_def sample_request_def sample_service_keys)
  have "step_events (dc_prefix ''dc1'') (store_kvs busy_store) metrics_store [PutEvent ''dcsvc/dc1/n1/web/c1'' (marshal_spec metrics_spec)]"
    by (auto simp: step_events_def store [OF refl refl] dc_prefix_def put_entry_value)
  moreover have "metrics_kept ''dc1'' (store_kvs busy_store) metrics_store" by (simp add: metrics_kept_def busy_no_targets)
  ultimately show ?thesis using Change [OF Nothing step] by simp
qed

lemma metrics_target:
  "targets_of ''dc1'' metrics_store \<lparr>sk_node = ''n1'', sk_service_name = ''web'', sk_instance = ''c1''\<rparr> =
    Some (prom_service_of metrics_spec 9100 ''eu'' ''c1'')"
proof -
  have "service_path ''dc1'' \<lparr>sk_node = ''n1'', sk_service_name = ''web'', sk_instance = ''c1''\<rparr> = ''dcsvc/dc1/n1/web/c1''" by code_simp
  moreover have "map_option kv_value (metrics_store ''dcsvc/dc1/n1/web/c1'') = Some (marshal_spec metrics_spec)"
    by (simp add: metrics_store_def apply_txn_def register_txn_def metrics_request_def sample_request_def sample_service_keys put_entry_value)
  ultimately have "targets_of ''dc1'' metrics_store \<lparr>sk_node = ''n1'', sk_service_name = ''web'', sk_instance = ''c1''\<rparr> = spec_target metrics_spec"
    using unmarshal_marshal_spec(1) [OF metrics_spec_valid] by (auto simp: targets_of_def stored_target_def)
  moreover have "spec_target metrics_spec = Some (prom_service_of metrics_spec 9100 ''eu'' ''c1'')"
    by (simp add: spec_target_def metrics_spec_def sample_spec_def registered_spec_def sample_request_def sample_node_def)
  ultimately show ?thesis by simp
qed

theorem observer_converges_witness:
  "\<exists>msgs svcs st0 st. prom_run st0 (watch_inputs 0 msgs svcs) st
    \<and> map_of (pm_targets st) \<lparr>sk_node = ''n1'', sk_service_name = ''web'', sk_instance = ''c1''\<rparr> =
        Some (prom_service_of metrics_spec 9100 ''eu'' ''c1'')"
proof -
  have dc: "''dc1'' = ns_datacenter sample_observer" by (simp add: sample_observer_def)
  show ?thesis
    using metrics_target observer_converges [OF etcd_ref_live busy_store_wf busy_caller(2) busy_reachable dc Nothing Nothing metrics_watched]
    by fastforce
qed

text \<open>A service without an event keeps its target.\<close>

lemma watch_untouched:
  assumes "watched dc s evs s'" "reachable slash_free s" "slash_free dc"
  shows "\<exists>msgs. told evs msgs \<and> (\<forall>T. service_path dc sk \<notin> event_key ` set evs \<longrightarrow> follow msgs T sk = T sk)"
  using assms
proof (induction rule: watched.induct)
  case (Nothing s)
  show ?case by (intro exI [of _ "[]"]) (simp add: told_def)
next
  case (Change s evs s' s'' es)
  obtain m L m' L' where s: "s' = (m, L)" "s'' = (m', L')" by fastforce
  have r: "reachable slash_free (m, L)" using reachable_path [OF Change.prems(1) watched_path [OF Change.hyps(1)]] s(1) by simp
  moreover have "reachable slash_free (m', L')" using reachable_path [OF r] Change.hyps(2) s by blast
  ultimately obtain msgs' where "told es msgs'"
    "\<And>T. service_path dc sk \<notin> event_key ` set es \<Longrightarrow> follow msgs' T sk = T sk"
    using events_effect [of m L m' L' dc es] Change.prems(2) Change.hyps(4) s by (auto simp: step_events_def)
  moreover obtain msgs where "told evs msgs" "\<And>T. service_path dc sk \<notin> event_key ` set evs \<Longrightarrow> follow msgs T sk = T sk"
    using Change.IH [OF Change.prems] by blast
  ultimately show ?case
    by (intro exI [of _ "msgs @ msgs'"]) (simp add: told_append image_Un)
qed

end
