(* ===== verification/ObserverRun.thy ===== *)
theory ObserverRun
  imports Observation Startup
begin

text \<open>
  The observer's \<^verbatim>\<open>main\<close> (src/prom-sd-observer/main.go) beside a registry: the two calls that it makes at its
  start, what the registry does for each, and the messages on their way, as the steps of one machine.
\<close>

section \<open>The observer and the registry\<close>

text \<open>The bulk fetch, in a goroutine of its own: sent, answered, and handled.\<close>

datatype fetch = Asked | Answered "service_spec list" | Fetched

text \<open>
  \<open>ob_watch\<close> is \<open>None\<close> until the handler of the registry has registered its watch, and then the events that it
  has not sent yet; \<open>ob_inputs\<close> is what the observer has handled.
\<close>

record observing =
  ob_cluster :: cluster
  ob_watch :: "event list option"
  ob_fetch :: fetch
  ob_inputs :: "prom_input list"

text \<open>
  The state of \<^verbatim>\<open>main\<close> once \<^verbatim>\<open>WatchDatacenterServices\<close> has returned its stream and the goroutine of the fetch
  has begun. The call that opens a stream returns when the request is on its way: it does not wait for the handler
  at the registry, which authenticates the caller and then calls \<^verbatim>\<open>Watch\<close>, from the present revision on.
\<close>

definition observing_start :: "cluster \<Rightarrow> observing" where
  "observing_start s = \<lparr>ob_cluster = s, ob_watch = None, ob_fetch = Asked, ob_inputs = []\<rparr>"

text \<open>
  The steps: the cluster changes, before the watch is there or with events for it; the watch is registered; the fetch
  is answered from the store as it is then; the goroutine of the fetch handles the answer; the loop of \<^verbatim>\<open>main\<close>
  handles the message for the next event.
\<close>

inductive observing_step :: "string \<Rightarrow> observing \<Rightarrow> observing \<Rightarrow> bool" for dc where
  Unseen: "ob_watch ob = None \<Longrightarrow> registry_step slash_free (ob_cluster ob) s \<Longrightarrow> observing_step dc ob (ob\<lparr>ob_cluster := s\<rparr>)"
| Seen: "ob_watch ob = Some evs \<Longrightarrow> registry_step slash_free (ob_cluster ob) s \<Longrightarrow>
    step_events (dc_prefix dc) (fst (ob_cluster ob)) (fst s) es \<Longrightarrow>
    observing_step dc ob (ob\<lparr>ob_cluster := s, ob_watch := Some (evs @ es)\<rparr>)"
| WatchRegistered: "ob_watch ob = None \<Longrightarrow> observing_step dc ob (ob\<lparr>ob_watch := Some []\<rparr>)"
| FetchAnswered: "ob_fetch ob = Asked \<Longrightarrow>
    observing_step dc ob (ob\<lparr>ob_fetch := Answered (bulk_answer dc (fst (ob_cluster ob)))\<rparr>)"
| BulkHandled: "ob_fetch ob = Answered svcs \<Longrightarrow>
    observing_step dc ob (ob\<lparr>ob_fetch := Fetched, ob_inputs := ob_inputs ob @ [BulkAnswer svcs]\<rparr>)"
| MessageHandled: "ob_watch ob = Some (ev # evs) \<Longrightarrow> event_message ev = Inr msg \<Longrightarrow>
    observing_step dc ob (ob\<lparr>ob_watch := Some evs, ob_inputs := ob_inputs ob @ [Message msg]\<rparr>)"

abbreviation observing_path :: "string \<Rightarrow> observing \<Rightarrow> observing \<Rightarrow> bool" where
  "observing_path dc \<equiv> (observing_step dc)\<^sup>*\<^sup>*"

section \<open>Runs of the machine\<close>

lemma unseen_path:
  "registry_path slash_free s s' \<Longrightarrow> ob_watch ob = None \<Longrightarrow> ob_cluster ob = s \<Longrightarrow> observing_path dc ob (ob\<lparr>ob_cluster := s'\<rparr>)"
proof (induction rule: rtranclp_induct)
  case base
  then show ?case by (cases ob) simp
next
  case (step s1 s2)
  then have "observing_step dc (ob\<lparr>ob_cluster := s1\<rparr>) (ob\<lparr>ob_cluster := s1, ob_cluster := s2\<rparr>)" by (intro Unseen) simp_all
  with step show ?case by (simp add: rtranclp.rtrancl_into_rtrancl)
qed

lemma seen_path:
  "watched dc s evs s' \<Longrightarrow> ob_watch ob = Some old \<Longrightarrow> ob_cluster ob = s \<Longrightarrow>
    observing_path dc ob (ob\<lparr>ob_cluster := s', ob_watch := Some (old @ evs)\<rparr>)"
proof (induction rule: watched.induct)
  case (Nothing s)
  then show ?case by (cases ob) simp
next
  case (Change s evs s' s'' es)
  have "observing_step dc (ob\<lparr>ob_cluster := s', ob_watch := Some (old @ evs)\<rparr>)
      (ob\<lparr>ob_cluster := s', ob_watch := Some (old @ evs), ob_cluster := s'', ob_watch := Some ((old @ evs) @ es)\<rparr>)"
    using Change.hyps by (intro Seen) simp_all
  with Change show ?case by (simp add: rtranclp.rtrancl_into_rtrancl)
qed

lemma messages_path:
  "map event_message evs = map Inr msgs \<Longrightarrow> ob_watch ob = Some evs \<Longrightarrow>
    observing_path dc ob (ob\<lparr>ob_watch := Some [], ob_inputs := ob_inputs ob @ map Message msgs\<rparr>)"
proof (induction evs arbitrary: msgs ob)
  case Nil
  then show ?case by (cases ob) simp
next
  case (Cons ev evs)
  then obtain m ms where m: "msgs = m # ms" "event_message ev = Inr m" "map event_message evs = map Inr ms"
    by (cases msgs) auto
  let ?ob = "ob\<lparr>ob_watch := Some evs, ob_inputs := ob_inputs ob @ [Message m]\<rparr>"
  have "observing_step dc ob ?ob" using Cons.prems(2) m(2) by (rule MessageHandled)
  moreover have "observing_path dc ?ob (?ob\<lparr>ob_watch := Some [], ob_inputs := ob_inputs ?ob @ map Message ms\<rparr>)"
    by (rule Cons.IH [OF m(3)]) simp
  ultimately show ?case by (simp add: m(1) converse_rtranclp_into_rtranclp)
qed

text \<open>What \<^verbatim>\<open>main\<close> makes of its inputs is a run of the targets' state.\<close>

lemma observer_loop_snoc:
  "observer_loop ord (map Arrived (inps @ [inp])) st0 =
    (case observer_loop ord (map Arrived inps) st0 of Inl err \<Rightarrow> Inl err | Inr st \<Rightarrow> prom_handle ord inp st)"
  by (induction inps arbitrary: st0) (auto split: sum.split)

lemma observer_loop_run:
  assumes "prom_order ord" "load_prom_state ord True True = Inr st0"
  shows "observer_loop ord (map Arrived inps) st0 = Inr st \<Longrightarrow> prom_run st0 inps st"
proof (induction inps arbitrary: st rule: rev_induct)
  case Nil
  then show ?case using prom_run.start [OF assms] by simp
next
  case (snoc inp inps)
  then show ?case using assms(1) by (auto simp: observer_loop_snoc simp del: map_append split: sum.splits intro: prom_run.step)
qed

lemma observer_loop_total:
  assumes "list_all full_input inps"
  shows "\<exists>st0 st. load_prom_state id True True = Inr st0 \<and> observer_loop id (map Arrived inps) st0 = Inr st \<and> pm_can_truncate st"
  using assms
proof (induction inps rule: rev_induct)
  case Nil
  obtain st where "load_prom_state id True True = Inr st" "pm_can_truncate st"
    using write_services_total [of "\<lparr>pm_targets = [], pm_file = [], pm_can_truncate = True, pm_can_write = True\<rparr>" id]
    by (auto simp: load_prom_state_def)
  then show ?case by (intro exI [of _ st]) (simp only: list.map observer_loop.simps simp_thms)
next
  case (snoc inp inps)
  then have "list_all full_input inps" by simp
  with snoc.IH obtain st0 st where st: "load_prom_state id True True = Inr st0"
    "observer_loop id (map Arrived inps) st0 = Inr st" "pm_can_truncate st" by blast
  obtain st' where "prom_handle id inp st = Inr st'" "pm_can_truncate st'"
    using prom_handle_total [of inp st id] snoc.prems st(3) by auto
  with st show ?case by (intro exI [of _ st0] exI [of _ st']) (simp only: observer_loop_snoc sum.case)
qed

text \<open>A run in which the fetch is answered before the watch is there and everything is handled in the end.\<close>

lemma fetch_first_path:
  assumes "registry_path slash_free s s2" "watched dc s2 after s3" "told after msgs"
  obtains ob where "observing_path dc (observing_start s) ob" "ob_cluster ob = s3" "ob_watch ob = Some []"
    "ob_fetch ob = Fetched" "ob_inputs ob = BulkAnswer (bulk_answer dc (fst s)) # map Message msgs"
proof -
  let ?svcs = "bulk_answer dc (fst s)"
  let ?o0 = "observing_start s"
  let ?o1 = "?o0\<lparr>ob_fetch := Answered ?svcs\<rparr>"
  let ?o2 = "?o1\<lparr>ob_cluster := s2\<rparr>"
  let ?o3 = "?o2\<lparr>ob_watch := Some []\<rparr>"
  let ?o4 = "?o3\<lparr>ob_cluster := s3, ob_watch := Some ([] @ after)\<rparr>"
  let ?o5 = "?o4\<lparr>ob_fetch := Fetched, ob_inputs := ob_inputs ?o4 @ [BulkAnswer ?svcs]\<rparr>"
  let ?o6 = "?o5\<lparr>ob_watch := Some [], ob_inputs := ob_inputs ?o5 @ map Message msgs\<rparr>"
  have "observing_step dc ?o0 ?o1" using FetchAnswered [of ?o0 dc] by (simp add: observing_start_def)
  moreover have "observing_path dc ?o1 ?o2" by (rule unseen_path [OF assms(1)]) (simp_all add: observing_start_def)
  moreover have "observing_step dc ?o2 ?o3" by (rule WatchRegistered) (simp add: observing_start_def)
  moreover have "observing_path dc ?o3 ?o4" by (rule seen_path [OF assms(2)]) simp_all
  moreover have "observing_step dc ?o4 ?o5" by (rule BulkHandled) simp
  moreover have "observing_path dc ?o5 ?o6"
    by (rule messages_path) (use assms(3) in \<open>simp_all add: told_def\<close>)
  ultimately have path: "observing_path dc ?o0 ?o6"
    by (meson converse_rtranclp_into_rtranclp rtranclp_trans)
  have "ob_cluster ?o6 = s3" "ob_watch ?o6 = Some []" "ob_fetch ?o6 = Fetched" "ob_inputs ?o6 = BulkAnswer ?svcs # map Message msgs"
    by (simp_all add: observing_start_def)
  with path show thesis by (rule that)
qed

section \<open>Properties\<close>

text \<open>C40: nothing makes the observer wait until its watch is registered before it asks for the services: the
  registry may answer the fetch first, and the changes between that answer and the start of the watch reach the
  observer in neither way. There is a run in which the watch has begun, everything is delivered and handled, and the
  target of a service is still the one of the answer's moment: a service that was registered in between is missing,
  and one that ended is still there, until some later event names it.\<close>
theorem changes_before_watch_lost:
  assumes "etcd_live E ok kvs leases" "ok e" "caller (kvs e) ctx observer_certificate_ou = Inr obs"
    and "reachable slash_free (kvs e, leases e)" "dc = ns_datacenter obs"
    and "registry_path slash_free (kvs e, leases e) s2" "watched dc s2 after s3" "service_path dc sk \<notin> event_key ` set after"
  shows "\<exists>e' ob. get_datacenter_services E ctx e = (Inr (map Some (bulk_answer dc (kvs e))), e')
    \<and> observing_path dc (observing_start (kvs e, leases e)) ob
    \<and> ob_cluster ob = s3 \<and> ob_watch ob = Some [] \<and> ob_fetch ob = Fetched
    \<and> (\<forall>ord st0 st. prom_order ord \<and> load_prom_state ord True True = Inr st0
         \<and> observer_main ord (Inr ()) (Inr ()) (map Arrived (ob_inputs ob)) st0 = Inr st \<longrightarrow>
         map_of (pm_targets st) sk = targets_of dc (kvs e) sk)
    \<and> (\<exists>ord st0 st. prom_order ord \<and> load_prom_state ord True True = Inr st0
         \<and> observer_main ord (Inr ()) (Inr ()) (map Arrived (ob_inputs ob)) st0 = Inr st)"
proof -
  let ?svcs = "bulk_answer dc (kvs e)"
  obtain e' where g: "get_datacenter_services E ctx e = (Inr (map Some ?svcs), e')" "slash_free dc"
    "set (sorted_list_of_set (matching (kvs e) (dc_prefix dc))) = matching (kvs e) (dc_prefix dc)"
    by (rule bulk_answered [OF assms(1-5)])
  obtain msgs where msgs: "told after msgs" "\<And>T. follow msgs T sk = T sk"
    using watch_untouched [OF assms(7) reachable_path [OF assms(4,6)] g(2), of sk] assms(8) by auto
  note bulk = bulk_targets [OF assms(4) g(2,3), folded bulk_answer_def]
  obtain ob where ob: "observing_path dc (observing_start (kvs e, leases e)) ob" "ob_cluster ob = s3" "ob_watch ob = Some []"
    "ob_fetch ob = Fetched" and inps: "ob_inputs ob = BulkAnswer ?svcs # map Message msgs"
    using fetch_first_path [OF assms(6,7) msgs(1)] unfolding fst_conv .
  have full: "list_all full_input (ob_inputs ob)"
    unfolding inps using msgs(1) bulk(1) by (auto simp: told_def list_all_iff)
  have target: "map_of (pm_targets st) sk = targets_of dc (kvs e) sk"
    if "prom_order ord" "load_prom_state ord True True = Inr st0" "observer_main ord (Inr ()) (Inr ()) (map Arrived (ob_inputs ob)) st0 = Inr st"
    for ord st0 st
  proof -
    have "prom_run st0 (ob_inputs ob) st" using observer_loop_run [OF that(1,2)] that(3) by (simp add: observer_main_def)
    from prom_run_facts [OF this] show ?thesis using msgs(2) bulk(2) unfolding inps by (simp split: option.split)
  qed
  obtain st0 st where "load_prom_state id True True = Inr st0" "observer_loop id (map Arrived (ob_inputs ob)) st0 = Inr st"
    using observer_loop_total [OF full] by blast
  then have "observer_main id (Inr ()) (Inr ()) (map Arrived (ob_inputs ob)) st0 = Inr st" by (simp add: observer_main_def)
  moreover have "prom_order id" by (simp add: prom_order_def)
  ultimately show ?thesis using g(1) ob target \<open>load_prom_state id True True = Inr st0\<close> by blast
qed

theorem changes_before_watch_lost_witness:
  "\<exists>ob ord st0 st. observing_path ''dc1'' (observing_start (store_kvs busy_store, store_leases busy_store)) ob
      \<and> fst (ob_cluster ob) = metrics_store \<and> ob_watch ob = Some [] \<and> ob_fetch ob = Fetched
      \<and> observer_main ord (Inr ()) (Inr ()) (map Arrived (ob_inputs ob)) st0 = Inr st
      \<and> map_of (pm_targets st) \<lparr>sk_node = ''n1'', sk_service_name = ''web'', sk_instance = ''c1''\<rparr> = None
      \<and> targets_of ''dc1'' metrics_store \<lparr>sk_node = ''n1'', sk_service_name = ''web'', sk_instance = ''c1''\<rparr> \<noteq> None"
proof -
  let ?sk = "\<lparr>sk_node = ''n1'', sk_service_name = ''web'', sk_instance = ''c1''\<rparr>"
  have dc: "''dc1'' = ns_datacenter sample_observer" by (simp add: sample_observer_def)
  have none: "service_path ''dc1'' ?sk \<notin> event_key ` set []" by simp
  from changes_before_watch_lost [OF etcd_ref_live busy_store_wf busy_caller(2) busy_reachable dc
      watched_path [OF metrics_watched] Nothing none]
  obtain ob ord st0 st where "observing_path ''dc1'' (observing_start (store_kvs busy_store, store_leases busy_store)) ob"
    "ob_cluster ob = (metrics_store, store_leases busy_store)" "ob_watch ob = Some []" "ob_fetch ob = Fetched"
    "observer_main ord (Inr ()) (Inr ()) (map Arrived (ob_inputs ob)) st0 = Inr st"
    "map_of (pm_targets st) ?sk = targets_of ''dc1'' (store_kvs busy_store) ?sk" by blast
  with metrics_target busy_no_targets [of ?sk] show ?thesis
    by (intro exI [of _ ob] exI [of _ ord] exI [of _ st0] exI [of _ st]) simp
qed

end
