(* ===== verification/Resolution.thy ===== *)
theory Resolution
  imports AgentRun AgentDns
begin

text \<open>
  From a container to its name: what an agent registers when a container starts is what any agent of
  the cluster answers to a DNS query for the service, through the registry and its store.
\<close>

section \<open>A registered service is discovered\<close>

lemma found_all:
  assumes "found_at m p n svcs" "finite (matching m p)" "card (matching m p) \<le> n"
    and "k \<in> matching m p" "spec_at m k = Some spec"
  shows "spec \<in> set (map snd svcs)"
proof -
  have d: "distinct (map fst svcs)" "set (map fst svcs) \<subseteq> matching m p" "length svcs = card (matching m p)"
    using assms(1,3) by (auto simp: found_at_def gomap_ok_def)
  then have "card (set (map fst svcs)) = card (matching m p)" by (metis distinct_card length_map)
  then have "k \<in> set (map fst svcs)" using d(2) assms(2,4) card_subset_eq by metis
  then obtain v where v: "(k, v) \<in> set svcs" by auto
  then have "spec_at m k = Some v" using assms(1) unfolding found_at_def by force
  with v show ?thesis using assms(5) by force
qed

definition service_query :: "string \<Rightarrow> dns_question" where
  "service_query svc = \<lparr>dq_name = svc @ ''.cluster.internal.'', dq_class = type_a\<rparr>"

lemma service_query_request:
  assumes "CHR ''.'' \<notin> set svc"
  shows "serve_dns ask 0 [service_query svc] =
    (case ask (dns_request [svc]) of Inl _ \<Rightarrow> (rcode_name_error, []) | Inr specs \<Rightarrow> (0, service_records (service_query svc) specs))"
proof -
  have "split_on (CHR ''.'') svc = [svc]" using assms by (induction svc) auto
  then show ?thesis
    by (auto simp: serve_dns_def service_query_def rcode_name_error_def Let_def split: sum.split)
qed

lemma service_record:
  assumes "spec \<in> set specs" "addr \<in> set (spec_addresses spec)" "parse_addr addr = Some ip" "addr_is4 ip" "dq_class q = type_a"
  shows "RR_A (dq_name q) (addr_as_slice ip) \<in> set (service_records q specs)"
  using assms by (force simp: service_records_def address_records_def)

text \<open>A specification that was added below a service's prefix, and with it no fourth one, is discovered.\<close>

lemma added_is_discovered:
  assumes "etcd_live E ok kvs leases" "ok e" "caller (kvs e) ctx agent_certificate_ou = Inr asker" "\<And>n. map_order (ord n)"
    and "disc_instance req = None" "last (search_levels asker req) = p" "p = ''svc/'' @ disc_service req @ ''/''"
    and "prefix p k" "spec_at (kvs e) k = Some spec" "\<And>j. prefix p j \<Longrightarrow> j \<noteq> k \<Longrightarrow> kvs e j = m j"
    and "all_decode m p" "card (insert k (matching m p)) \<le> 3"
  obtains specs e' where "discover E ord ptr ctx req e = (Inr specs, e')" "spec \<in> set specs"
proof -
  have dom: "k \<in> dom (kvs e)" using assms(9) by (auto simp: spec_at_def split: option.splits)
  then have new: "matching (kvs e) p = insert k (matching m p)"
    using assms(8,10) unfolding matching_def by (auto simp: domIff) metis+
  have "spec_at (kvs e) j = spec_at m j" if "j \<in> matching m p" "j \<noteq> k" for j
    using that assms(10) by (simp add: matching_def spec_at_def)
  then have "all_decode (kvs e) p" using assms(9,11) unfolding all_decode_def new by (metis insert_iff option.distinct(1))
  then obtain svcs e' where d: "discover E ord ptr ctx req e = (Inr (map snd svcs), e')" "found_at (kvs e) p 3 svcs"
    using etcd_live.discover_total [where ord = ord and ptr = ptr, OF assms(1-5)] assms(6,7) by auto
  have "finite (dom (kvs e))" by (rule etcd_store.finite_kvs [OF etcd_live.axioms(1) [OF assms(1)] assms(2)])
  then have "finite (matching (kvs e) p)" by (simp add: matching_def)
  then have "spec \<in> set (map snd svcs)" using found_all [OF d(2) _ _ _ assms(9)] assms(12) new by auto
  with d(1) show thesis by (rule that)
qed

section \<open>The property\<close>

text \<open>C2: a container that an agent admits is found under its service's name: after the agent's \<^verbatim>\<open>Register\<close>
  for it, a query for the label's name below the cluster's zone, sent to any agent that the registry
  knows, is answered with a record of every IPv4 address that was registered, as long as the service then has at most
  three instances, which is where \<^verbatim>\<open>Discover\<close> stops, the label has no dot, the strings of the registration are UTF-8 and
  what is stored of the service's other instances can be decoded.\<close>
theorem started_container_resolves:
  assumes "etcd_live E ok kvs leases" "ok e" "card (leases e) < 2 ^ 62"
    and "caller (kvs e) (Some p) agent_certificate_ou = Inr node" "caller (kvs e) dctx agent_certificate_ou = Inr asker"
    and "CallRegister req \<in> set (fst (handle_event W ev))" "ow_inspect W (de_id ev) = Inr ctr"
    and "ct_labels ctr ''ssle.service'' = Some svc" "CHR ''.'' \<notin> set svc"
    and "fill_addresses p (registered_spec node req) = Inr spec" "spec_valid spec"
    and "length (lease_key (ns_datacenter node) (ns_name node)) < 2 ^ 17" "txn_size (register_txn node req spec 0) < 2 ^ 20"
    and "all_decode (kvs e) (''svc/'' @ svc @ ''/'')"
    and "card (insert (svc_key node svc (reg_instance req)) (matching (kvs e) (''svc/'' @ svc @ ''/''))) \<le> 3"
    and "\<And>n. map_order (ord n)"
    and "addr \<in> set (spec_addresses spec)" "parse_addr addr = Some ip" "addr_is4 ip"
  shows "\<exists>e1. register E (Some p) req e = (Inr spec, e1)
    \<and> fst (serve_dns (\<lambda>dreq. fst (discover E ord ptr dctx dreq e1)) 0 [service_query svc]) = 0
    \<and> RR_A (svc @ ''.cluster.internal.'') (addr_as_slice ip) \<in>
        set (snd (serve_dns (\<lambda>dreq. fst (discover E ord ptr dctx dreq e1)) 0 [service_query svc]))"
proof -
  let ?i = "reg_instance req" and ?p = "''svc/'' @ svc @ ''/''"
  let ?k = "svc_key node svc ?i"
  have svc: "reg_service req = svc"
    using assms(6-8) by (auto elim!: handle_event_register dest!: admit_register)
  obtain e1 l where r: "register E (Some p) req e = (Inr spec, e1)" "ok e1"
    and held: "\<forall>k \<in> service_keys node svc ?i. holds_spec (kvs e1) k spec l"
    and frame: "\<forall>k. k \<notin> service_keys node svc ?i \<and> k \<noteq> lease_key (ns_datacenter node) (ns_name node) \<longrightarrow> kvs e1 k = kvs e k"
    using etcd_live.register_total [OF assms(1-4) refl assms(10,12,13)] svc by auto
  have at: "spec_at (kvs e1) ?k = Some spec"
    using held spec_codec.dec_enc [OF assms(11)] by (auto simp: holds_spec_def service_keys_def spec_at_def)
  have same: "kvs e1 j = kvs e j" if "prefix ?p j" "j \<noteq> ?k" for j
    using that frame by (auto simp: service_keys_def ds_svc_key_def lease_key_def key_path_def)
  have caller: "caller (kvs e1) dctx agent_certificate_ou = Inr asker"
    using caller_cong [of "kvs e1" "kvs e" dctx agent_certificate_ou] frame assms(5) by (simp add: key_eqs service_keys_def)
  have none: "disc_instance (dns_request [svc]) = None" and asked: "disc_service (dns_request [svc]) = svc"
    and widest: "last (search_levels asker (dns_request [svc])) = ?p"
    by (simp_all add: search_levels_def discover_prefixes_def dns_request_def Let_def)
  have pk: "prefix ?p ?k" by (simp add: svc_key_def key_path_def)
  obtain specs e2 where d: "discover E ord ptr dctx (dns_request [svc]) e1 = (Inr specs, e2)" "spec \<in> set specs"
    by (rule added_is_discovered [OF assms(1) r(2) caller assms(16) none widest _ pk at same assms(14,15)])
      (use asked in simp)
  have "RR_A (dq_name (service_query svc)) (addr_as_slice ip) \<in> set (service_records (service_query svc) specs)"
    using d(2) assms(17-19) by (rule service_record) (simp add: service_query_def)
  then show ?thesis
    using r(1) d(1) service_query_request [OF assms(9), of "\<lambda>dreq. fst (discover E ord ptr dctx dreq e1)"]
    by (simp add: service_query_def)
qed

text \<open>A container without published ports, admitted on a signature.\<close>

definition plain_container :: container where
  "plain_container = sample_container\<lparr>ct_ports := []\<rparr>"

definition plain_outside :: outside where
  "plain_outside = (sample_outside sample_remote)\<lparr>ow_inspect := (\<lambda>i. Inr plain_container)\<rparr>"

definition start_request :: register_request where
  "start_request = \<lparr>reg_service = ''web'', reg_instance = ''c1'', reg_addresses = [], reg_ports = [], reg_metrics_port = Some 0\<rparr>"

lemma start_registers:
  "CallRegister start_request \<in> set (fst (handle_event plain_outside (sample_event ActionStart)))"
proof -
  have i: "container_instance ''/c1'' = ''c1''" by code_simp
  have "check_image plain_outside plain_container = ([], Inr True)"
    by (simp add: check_image_def plain_outside_def plain_container_def sample_outside_def sample_container_def ctr_label_def sample_verdict)
  moreover have "register_service_from_container plain_container = ([CallRegister start_request], Inr ())"
    by (simp add: register_service_from_container_def plain_container_def sample_container_def start_request_def i)
  moreover have "handle_event plain_outside (sample_event ActionStart) = admit_container plain_outside ''f00'' plain_container"
    by (simp add: handle_event_def handle_event_container_def sample_event_def plain_outside_def)
  ultimately show ?thesis by (simp add: admit_container_def followed_by_def)
qed

definition start_spec :: service_spec where
  "start_spec = (registered_spec sample_node start_request)\<lparr>spec_addresses := [''10.0.0.7'']\<rparr>"

lemma start_spec_facts:
  "fill_addresses agent_peer (registered_spec sample_node start_request) = Inr start_spec"
  "spec_valid start_spec" "txn_size (register_txn sample_node start_request start_spec 0) < 2 ^ 20"
  "parse_addr ''10.0.0.7'' = Some (the (parse_addr ''10.0.0.7''))" "addr_is4 (the (parse_addr ''10.0.0.7''))"
  "addr_as_slice (the (parse_addr ''10.0.0.7'')) = [CHR 0x0A, CHR 0x00, CHR 0x00, CHR 0x07]"
proof -
  have h: "split_host_port ''10.0.0.7:41000'' = Inr (''10.0.0.7'', ''41000'')" by code_simp
  show "fill_addresses agent_peer (registered_spec sample_node start_request) = Inr start_spec"
    by (simp add: fill_addresses_def start_spec_def registered_spec_def start_request_def agent_peer_def sample_peer_def h)
  have "txn_size (register_txn sample_node start_request start_spec 0) < 2000" by code_simp
  then show "txn_size (register_txn sample_node start_request start_spec 0) < 2 ^ 20" by simp
qed (code_simp)+

theorem started_container_resolves_witness:
  "\<exists>e1. register store_etcd (Some agent_peer) start_request sample_store = (Inr start_spec, e1)
    \<and> RR_A ''web.cluster.internal.'' [CHR 0x0A, CHR 0x00, CHR 0x00, CHR 0x07] \<in>
        set (snd (serve_dns (\<lambda>dreq. fst (discover store_etcd (\<lambda>n m. m) [] (Some agent_peer) dreq e1)) 0 [service_query ''web'']))"
proof -
  have o: "map_order ((\<lambda>n m. m) n)" for n :: nat by (simp add: map_order_def)
  have c: "ow_inspect plain_outside (de_id (sample_event ActionStart)) = Inr plain_container"
    "ct_labels plain_container ''ssle.service'' = Some ''web''" "CHR ''.'' \<notin> set ''web''"
    by (simp_all add: plain_outside_def plain_container_def sample_container_def)
  have none: "matching (store_kvs sample_store) (''svc/'' @ ''web'' @ ''/'') = {}"
    by (auto simp: matching_def store_kvs_def sample_store_def sample_node_entries split: if_splits)
  have d: "all_decode (store_kvs sample_store) (''svc/'' @ ''web'' @ ''/'')"
    "card (insert (svc_key sample_node ''web'' (reg_instance start_request)) (matching (store_kvs sample_store) (''svc/'' @ ''web'' @ ''/''))) \<le> 3"
    unfolding none all_decode_def by simp_all
  have a: "''10.0.0.7'' \<in> set (spec_addresses start_spec)" by (simp add: start_spec_def)
  show ?thesis
    using started_container_resolves [OF etcd_ref_live sample_store_wf sample_empty sample_caller(1) sample_caller(1) start_registers
      c start_spec_facts(1,2) sample_sizes(1) start_spec_facts(3) d o a start_spec_facts(4,5), of "[]"]
    unfolding start_spec_facts(6) by auto
qed

end
