(* ===== verification/RegistryMain.thy ===== *)
theory RegistryMain
  imports Servers
begin

text \<open>
  registry/main.go from its first line to its last: the state is loaded, a registry with a join URL
  announces itself to another one and asks it for the members, etcd is configured and started, and the
  two APIs are opened. What the other registry answers is a pair of functions on its state \<open>r\<close>; a
  registry without a join URL does not call them.
\<close>

definition registry_join ::
  "(tls_client \<Rightarrow> string list \<Rightarrow> 'r \<Rightarrow> unit outcome \<times> 'r) \<Rightarrow> (tls_client \<Rightarrow> 'r \<Rightarrow> peer list outcome \<times> 'r) \<Rightarrow>
   kdf \<Rightarrow> (string \<Rightarrow> 'u outcome) \<Rightarrow> ('u \<Rightarrow> string) \<Rightarrow> (string \<Rightarrow> 'u list \<Rightarrow> string) \<Rightarrow> tls_client \<Rightarrow> state \<Rightarrow> config \<Rightarrow> 'r \<Rightarrow>
   'u etcd_config outcome \<times> 'r" where
  "registry_join announce ask hkdf parse_url show_url from_name cl st c r =
     (if cf_join_url c = [] then (create_etcd_config hkdf parse_url from_name [] st c, r)
      else
        (case etcd_advertise_urls parse_url c of
           Inl err \<Rightarrow> (Inl err, r)
         | Inr urls \<Rightarrow>
             (let r = snd (announce cl (map show_url urls) r) in
              case ask cl r of
                (Inl _, r) \<Rightarrow> (Inl (Fatal ''Failed to get cluster members''), r)
              | (Inr ps, r) \<Rightarrow>
                  (case members_of_peers ps of
                     Inl err \<Rightarrow> (Inl err, r)
                   | Inr ms \<Rightarrow> (create_etcd_config hkdf parse_url from_name ms st c, r)))))"

text \<open>
  \<open>start\<close> is \<^verbatim>\<open>embed.StartEtcd\<close> and gives the store that the new etcd server sees; \<open>ready\<close> says whether it
  is ready within 60 seconds. The process ends when etcd does, so the last component of a run is the fault
  that it ends with; the first are the servers that it had opened.
\<close>

definition registry_main ::
  "(tls_client \<Rightarrow> string list \<Rightarrow> 'r \<Rightarrow> unit outcome \<times> 'r) \<Rightarrow> (tls_client \<Rightarrow> 'r \<Rightarrow> peer list outcome \<times> 'r) \<Rightarrow>
   kdf \<Rightarrow> string \<Rightarrow> string \<Rightarrow> int \<Rightarrow> (string \<Rightarrow> 'u outcome) \<Rightarrow> ('u \<Rightarrow> string) \<Rightarrow> (string \<Rightarrow> 'u list \<Rightarrow> string) \<Rightarrow>
   (string \<Rightarrow> unit outcome) \<Rightarrow> (string \<Rightarrow> unit outcome) \<Rightarrow> 'e etcd \<Rightarrow> ('u etcd_config \<Rightarrow> 'r \<Rightarrow> 'e outcome) \<Rightarrow> bool \<Rightarrow>
   config outcome \<Rightarrow> fs \<Rightarrow> 'r \<Rightarrow> tls_server list \<times> 'e option \<times> 'r \<times> fs \<times> fault" where
  "registry_main announce ask hkdf rnd seed now parse_url show_url from_name dial listen E start ready config f r =
     (case config of
        Inl err \<Rightarrow> ([], None, r, f, err)
      | Inr c \<Rightarrow>
     (case load_state hkdf rnd seed now c f of
        (Inl err, f) \<Rightarrow> ([], None, r, f, err)
      | (Inr st, f) \<Rightarrow>
     (case new_peer_api_client dial (cf_join_url c) st of
        Inl err \<Rightarrow> ([], None, r, f, err)
      | Inr cl \<Rightarrow>
     (case registry_join announce ask hkdf parse_url show_url from_name cl st c r of
        (Inl err, r) \<Rightarrow> ([], None, r, f, err)
      | (Inr ec, r) \<Rightarrow>
     (case start ec r of
        Inl _ \<Rightarrow> ([], None, r, f, Fatal ''Failed to start etcd server'')
      | Inr e \<Rightarrow>
          (case registry_serve listen E show_url c st f ec ready e of
             (servers, Inl err, e) \<Rightarrow> (servers, Some e, r, f, err)
           | (servers, Inr _, e) \<Rightarrow> (servers, Some e, r, f, Fatal ''etcd ended'')))))))"

section \<open>Facts\<close>

text \<open>The announcement does not depend on the answer about the members, as in the shorter \<open>registry_boot\<close>.\<close>

lemma registry_join_boot:
  assumes "ask cl (snd (announce cl (case fst (registry_boot hkdf parse_url show_url from_name ps st c) of None \<Rightarrow> [] | Some us \<Rightarrow> us) r)) = (ps, r')"
  shows "fst (registry_join announce ask hkdf parse_url show_url from_name cl st c r) =
    snd (registry_boot hkdf parse_url show_url from_name ps st c)"
  using assms
  by (cases "etcd_advertise_urls parse_url c"; cases ps)
    (auto simp: registry_join_def registry_boot_def Let_def split: if_splits sum.splits)

text \<open>The name under which a registry calls others is the one in its configuration.\<close>

lemma peer_crt_name:
  assumes "create_peer_crt seed now c ca = Inr (crt, key)" "x509_key_pair crt key = Inr kp"
  shows "pn_cn (crt_subject (kp_leaf kp)) = cf_name c"
  using assms by (auto simp: create_peer_crt_def create_certificate_def x509_key_pair_def Let_def split: if_splits)

lemma server_certificate_name:
  assumes "load_state hkdf rnd seed now c f = (Inr st, f')"
  shows "pn_cn (crt_subject (kp_leaf (st_server_key_pair st))) = cf_name c"
proof -
  from assms obtain fb x y where
    sv: "store_pair (create_peer_crt seed now c (st_ca st)) (path_join (cf_dir c) ''peer.crt'') (path_join (cf_dir c) ''peer.key'') fb =
      (Inr (x, y, st_server_key_pair st), f')"
    by (auto simp: load_state_def load_state_peer_crt_def split: prod.splits sum.splits)
  from sv show ?thesis by (rule store_pair_ok) (rule peer_crt_name)
qed

text \<open>The other registry's side of the two calls.\<close>

definition announce_to :: "int \<Rightarrow> tls_server \<Rightarrow> string \<Rightarrow> 'e etcd \<Rightarrow> (string \<Rightarrow> string option) \<Rightarrow> tls_client \<Rightarrow> string list \<Rightarrow> 'e \<Rightarrow> unit outcome \<times> 'e" where
  "announce_to t srv addr E parse cl urls e = remote_call t srv cl addr (\<lambda>ctx. add_self_peer E parse ctx urls) e"

definition ask_members :: "int \<Rightarrow> tls_server \<Rightarrow> string \<Rightarrow> 'e etcd \<Rightarrow> tls_client \<Rightarrow> 'e \<Rightarrow> peer list outcome \<times> 'e" where
  "ask_members t srv addr E cl e = remote_call t srv cl addr (\<lambda>ctx. get_peers E) e"

lemma parse_urls_all: "list_all (\<lambda>u. parse u \<noteq> None) us \<Longrightarrow> parse_urls parse us = Some (map (\<lambda>u. the (parse u)) us)"
  by (induction us) auto

text \<open>A call for members between two registries whose certificates the other accepts.\<close>

lemma join_calls:
  assumes "handshake t srv cl" "pn_cn (crt_subject (kp_leaf (tlc_pair cl))) = name"
    and "us \<noteq> []" "list_all (\<lambda>u. parse u \<noteq> None) us"
    and "etcd_add_member E e name (map (\<lambda>u. the (parse u)) us) = (added, later)"
  shows "announce_to t srv addr E parse cl us e = (case added of Inl _ \<Rightarrow> Inl server_error | Inr _ \<Rightarrow> Inr (), later)"
    "ask_members t srv addr E cl later = (Inr (map peer_of_member (etcd_members E later)), later)"
  using assms
  by (simp_all add: announce_to_def ask_members_def remote_call_def add_self_peer_def get_peers_def parse_urls_all
      peer_of_client_def extract_peer_certificate_def split: sum.split)

section \<open>Properties\<close>

text \<open>C22: a second registry that is given the shared token and the address of the first joins it, if the hostnames that
  it advertises are ASCII and its name is UTF-8: it derives the secret and both authorities of the first one, which
  accepts its certificate and asks etcd to add it as a member under the name of its own configuration. Whether etcd
  adds it or not, which the second one only logs, the second configures etcd as an existing cluster of exactly the
  members that the first then has, with its own entry made from its own URLs and with the cluster token that the
  first one uses. When etcd starts on that, both of its APIs open.\<close>
theorem joining_registry_starts:
  assumes "load_state hkdf rnd seed now c f = (Inr st, f1)" "\<And>p. fs_readable f p"
    and "fs_files f (path_join (cf_dir c) ''token'') = None" "cf_initial_token c = []" "fs_writable f (path_join (cf_dir c) ''token'')"
    and "- (2 ^ 63) \<le> unix_milli now" "unix_milli now < 2 ^ 63"
    and "fs_files f1 (path_join (cf_dir c) ''token'') = Some (Raw (cf_initial_token c'))"
    and "start_peer_api listen c st f1 = Inr srv" "create_etcd_config hkdf parse_url from_name ms st c = Inr ec"
    and "fs_files g (path_join (cf_dir c') ''token'') = None" "\<And>p. fs_readable g p" "\<And>p. fs_writable g p" "advertisable c'"
    and "cf_join_url c' \<noteq> []" "dial (cf_join_url c') = Inr ()" "\<And>a. listen' a = Inr ()"
    and "valid_at t (kp_leaf (st_ca st))" "max (whole_second now) (whole_second now') \<le> t"
    and "t \<le> min (whole_second (now + 90 * day)) (whole_second (now' + 90 * day))"
    and "etcd_advertise_urls parse_url c' = Inr us" "us \<noteq> []" "list_all (\<lambda>u. parse (show_url u) \<noteq> None) us"
    and "etcd_listen_urls parse_url c' = Inr ls" "etcd_client_listen_urls parse_url c' = Inr cls"
    and "etcd_client_advertise_urls parse_url c' = Inr cas"
    and "etcd_add_member E e (cf_name c') (map (\<lambda>u. the (parse (show_url u))) us) = (added, e1)"
  shows "\<exists>st' g' cl ec'. load_state hkdf rnd' seed' now' c' g = (Inr st', g')
    \<and> st_token st' = st_token st \<and> st_ca st' = st_ca st \<and> st_agent_ca st' = st_agent_ca st
    \<and> new_peer_api_client dial (cf_join_url c') st' = Inr cl
    \<and> announce_to t srv addr E parse cl (map show_url us) e = (case added of Inl _ \<Rightarrow> Inl server_error | Inr _ \<Rightarrow> Inr (), e1)
    \<and> registry_join (announce_to t srv addr E parse) (ask_members t srv addr E) hkdf parse_url show_url from_name cl st' c' e =
        (Inr ec', e1)
    \<and> ec_initial_cluster ec' = from_name (cf_name c') us @ other_members (cf_name c') (etcd_members E e1)
    \<and> (ec_cluster_state ec' = ClusterExisting \<longleftrightarrow> etcd_members E e1 \<noteq> [])
    \<and> ec_cluster_token ec' = ec_cluster_token ec
    \<and> (\<forall>start store. start ec' e1 = Inr store \<longrightarrow>
        (\<exists>servers store' over. registry_main (announce_to t srv addr E parse) (ask_members t srv addr E) hkdf rnd' seed' now'
           parse_url show_url from_name dial listen' E' start True (Inr c') g e = (servers, Some store', e1, g', over)
         \<and> map tls_address servers = [peer_api_listen_host c', agent_api_listen_host c']))"
proof -
  obtain st' g' where st': "load_state hkdf rnd' seed' now' c' g = (Inr st', g')" "st_token st' = st_token st" "st_ca st' = st_ca st"
    "st_agent_ca st' = st_agent_ca st"
    using join_authorities [OF assms(1,3-8,11,13,14), of rnd' seed' now'] by blast
  obtain start where a: "authority_certificate ''Servers'' start (st_ca st)" "server_certificate now (st_ca st) (st_server_key_pair st)"
    "load_x509_key_pair f1 (st_server_crt_file st) (st_server_key_file st) = Inr (st_server_key_pair st)"
    by (rule load_state_server [OF assms(1,2)])
  have b: "server_certificate now' (st_ca st) (st_server_key_pair st')"
    "load_x509_key_pair g' (st_server_crt_file st') (st_server_key_file st') = Inr (st_server_key_pair st')"
    by (rule load_state_server [OF st'(1) assms(12)], use st'(3) in simp)+
  define cl where "cl = \<lparr>tlc_target = cf_join_url c', tlc_server_name = registry_server_name, tlc_roots = [kp_leaf (st_ca st)],
    tlc_pair = st_server_key_pair st'\<rparr>"
  have cl: "new_peer_api_client dial (cf_join_url c') st' = Inr cl"
    using assms(16) st'(3) by (simp add: new_peer_api_client_def cl_def)
  have "handshake t srv cl"
    using a b(1) start_servers(1) [OF a(3) assms(9)] assms(18-20)
    by (subst server_handshake [of now "st_ca st" srv now' cl]) (simp_all add: cl_def)
  note calls = join_calls [where us = "map show_url us" and parse = parse and E = E and e = e and later = e1 and addr = addr,
      OF this, of "cf_name c'" added]
  have called: "announce_to t srv addr E parse cl (map show_url us) e = (case added of Inl _ \<Rightarrow> Inl server_error | Inr _ \<Rightarrow> Inr (), e1)"
    "ask_members t srv addr E cl e1 = (Inr (map peer_of_member (etcd_members E e1)), e1)"
    using calls server_certificate_name [OF st'(1)] assms(22,23,27) by (simp_all add: cl_def list_all_iff comp_def)
  obtain ec' where ec': "create_etcd_config hkdf parse_url from_name (etcd_members E e1) st' c' = Inr ec'"
    "ec_initial_cluster ec' = from_name (cf_name c') us @ other_members (cf_name c') (etcd_members E e1)"
    "ec_cluster_state ec' = ClusterExisting \<longleftrightarrow> etcd_members E e1 \<noteq> []" "ec_cluster_token ec' = ec_cluster_token ec"
    using assms(10,21,24-26) st'(2) by (auto simp: create_etcd_config_def Let_def split: sum.splits)
  have join: "registry_join (announce_to t srv addr E parse) (ask_members t srv addr E) hkdf parse_url show_url from_name cl st' c' e =
      (Inr ec', e1)"
    using assms(15,21) called ec'(1) by (simp add: registry_join_def members_of_peers_map Let_def)
  have serve: "\<exists>servers store'. registry_serve listen' E' show_url c' st' g' ec' True store = (servers, Inr (), store')
      \<and> map tls_address servers = [peer_api_listen_host c', agent_api_listen_host c']" for store
    using b(2) assms(17) by (simp add: registry_serve_def start_peer_api_def start_agent_api_def Let_def)
  have "\<exists>servers store' over. registry_main (announce_to t srv addr E parse) (ask_members t srv addr E) hkdf rnd' seed' now'
      parse_url show_url from_name dial listen' E' start True (Inr c') g e = (servers, Some store', e1, g', over)
    \<and> map tls_address servers = [peer_api_listen_host c', agent_api_listen_host c']" if "start ec' e1 = Inr store" for start store
    using st'(1) cl join that serve [of store] by (auto simp: registry_main_def)
  with st' cl called(1) join ec'(2-4) show ?thesis by blast
qed

definition second_config :: config where
  "second_config = sample_config\<lparr>cf_name := ''r2'', cf_initial_token := share_token ''rnd'' 0, cf_join_url := ''r1.example:42''\<rparr>"

lemma second_urls:
  "etcd_advertise_urls Inr second_config = Inr [''https://'' @ etcd_advertise_host second_config]"
  "etcd_listen_urls Inr second_config = Inr [''https://'' @ etcd_listen_host second_config]"
  "etcd_client_listen_urls Inr second_config = Inr [''https://'' @ etcd_client_listen_host second_config]"
  "etcd_client_advertise_urls Inr second_config = Inr [''https://'' @ etcd_client_advertise_host second_config]"
  by (simp_all add: etcd_advertise_urls_def etcd_listen_urls_def etcd_client_listen_urls_def etcd_client_advertise_urls_def https_urls_def)

theorem joining_registry_starts_witness:
  "\<exists>st f1 srv st' g' cl ec'. load_state (\<lambda>t i n. t @ i) ''rnd'' ''seed'' 0 sample_config sample_fs = (Inr st, f1)
    \<and> start_peer_api (\<lambda>a. Inr ()) sample_config st f1 = Inr srv
    \<and> load_state (\<lambda>t i n. t @ i) ''other'' ''seed2'' 90 second_config sample_fs = (Inr st', g')
    \<and> fst (registry_join (announce_to (90 * second) srv [] store_etcd Some) (ask_members (90 * second) srv [] store_etcd)
        (\<lambda>t i n. t @ i) Inr id (\<lambda>n us. n @ ''='' @ concat us) cl st' second_config one_member_store) = Inr ec'
    \<and> ec_cluster_state ec' = ClusterExisting"
proof -
  let ?hkdf = "\<lambda>t i n. t @ i" and ?from = "\<lambda>n us. n @ ''='' @ concat us"
  obtain st f1 where s: "load_state ?hkdf ''rnd'' ''seed'' 0 sample_config sample_fs = (Inr st, f1)"
    "valid_at 0 (kp_leaf (st_ca st))" "authority_certificate ''Servers'' 0 (st_ca st)"
    "start_peer_api (\<lambda>a. Inr ()) sample_config st f1 = Inr \<lparr>tls_address = peer_api_listen_host sample_config,
       tls_pair = st_server_key_pair st, tls_client_cas = [kp_leaf (st_ca st)]\<rparr>"
    by (rule sample_registry)
  have "fs_files f1 (path_join ''state'' ''token'') = Some (Raw (share_token ''rnd'' 0))"
    by (rule sample_first_start) (use s(1) in simp)
  then have tok: "fs_files f1 (path_join (cf_dir sample_config) ''token'') = Some (Raw (cf_initial_token second_config))"
    by (simp add: sample_config_def second_config_def)
  obtain ec where ec: "create_etcd_config ?hkdf Inr ?from [] st sample_config = Inr ec"
    by (simp add: create_etcd_config_def etcd_advertise_urls_def etcd_listen_urls_def etcd_client_listen_urls_def
        etcd_client_advertise_urls_def https_urls_def Let_def)
  have f: "fs_files sample_fs p = None" "fs_readable sample_fs p" "fs_writable sample_fs p" "cf_initial_token sample_config = []" for p
    by (simp_all add: sample_fs_def sample_config_def)
  have t: "- (2 ^ 63) \<le> unix_milli 0" "unix_milli 0 < 2 ^ 63" by (simp_all add: unix_milli_def)
  have u: "advertisable second_config" "cf_join_url second_config \<noteq> []"
    using sample_advertisable by (simp_all add: second_config_def advertisable_def utf8_valid_ascii)
  have v: "valid_at (90 * second) (kp_leaf (st_ca st))" "max (whole_second 0) (whole_second 90) \<le> 90 * second"
    "90 * second \<le> min (whole_second (0 + 90 * day)) (whole_second (90 + 90 * day))"
    using s(3) by (simp_all add: authority_certificate_def valid_at_def whole_second_def second_def day_def)
  obtain added e1 where add: "etcd_add_member store_etcd one_member_store (cf_name second_config)
      (map (\<lambda>u. the (Some (id u))) [''https://'' @ etcd_advertise_host second_config]) = (added, e1)" by fastforce
  then have members: "etcd_members store_etcd e1 \<noteq> []"
    by (auto simp: store_etcd_def store_add_member_def one_member_store_def)
  define srv where "srv = \<lparr>tls_address = peer_api_listen_host sample_config, tls_pair = st_server_key_pair st,
    tls_client_cas = [kp_leaf (st_ca st)]\<rparr>"
  note srv = s(4) [folded srv_def]
  note joins = joining_registry_starts [where listen' = "\<lambda>a. Inr ()" and dial = "\<lambda>a. Inr ()" and show_url = id and parse = Some
      and rnd' = "''other''" and seed' = "''seed2''" and now' = 90 and t = "90 * second" and addr = "[]" and from_name = ?from and E' = store_etcd,
      OF s(1) f(2) f(1) f(4) f(3) t tok srv ec f(1) f(2) f(3) u refl refl v second_urls(1) _ _ second_urls(2-4) add]
  have "list_all (\<lambda>u. Some (id u) \<noteq> None) [''https://'' @ etcd_advertise_host second_config]" by simp
  from joins [OF list.distinct(2) this]
  obtain st' g' cl ec' where "load_state ?hkdf ''other'' ''seed2'' 90 second_config sample_fs = (Inr st', g')"
    "registry_join (announce_to (90 * second) srv [] store_etcd Some) (ask_members (90 * second) srv [] store_etcd) ?hkdf Inr id ?from
       cl st' second_config one_member_store = (Inr ec', e1)"
    "ec_cluster_state ec' = ClusterExisting \<longleftrightarrow> etcd_members store_etcd e1 \<noteq> []" by blast
  with s(1) srv members show ?thesis
    by (intro exI [of _ st] exI [of _ f1] exI [of _ srv] exI [of _ st'] exI [of _ g'] exI [of _ cl] exI [of _ ec']) simp
qed

end
