(* ===== verification/RegEnv.thy ===== *)
theory RegEnv
  imports RegConfig Environment
begin

text \<open>
  The registry's configuration from the environment: the tags of the struct in registry/config/config.go
  and the first lines of \<^verbatim>\<open>LoadConfig\<close>, composed with the rest of it (theory RegConfig).
\<close>

section \<open>Fields that are not strings\<close>

text \<open>The library reads a \<^verbatim>\<open>uint16\<close> in decimal and a \<^verbatim>\<open>netip.Addr\<close> by its \<^verbatim>\<open>UnmarshalText\<close>.\<close>

locale typed_env_parser = env_parser parse
  for parse :: "string \<Rightarrow> env_field list \<Rightarrow> environment \<Rightarrow> environment outcome" +
  fixes to_port :: "string \<Rightarrow> 16 word outcome" and to_addr :: "string \<Rightarrow> addr outcome"
  assumes port_ok: "n < 2 ^ 16 \<Longrightarrow> to_port (show_nat n) = Inr (of_nat n)"
    and port_digits: "to_port s = Inr w \<Longrightarrow> s \<noteq> [] \<and> list_all is_digit s"
    and addr_ok: "to_addr s = (case parse_addr s of None \<Rightarrow> Inl (Failure ''unable to parse IP'') | Some a \<Rightarrow> Inr a)"

definition typed_value :: "'a \<Rightarrow> (string \<Rightarrow> 'a outcome) \<Rightarrow> environment \<Rightarrow> string \<Rightarrow> 'a outcome" where
  "typed_value zero conv vals name = (if value_of vals name = [] then Inr zero else conv (value_of vals name))"

definition registry_env_fields :: "env_field list" where
  "registry_env_fields =
     [required ''NAME'', with_default ''DIR'' ''state'', optional ''TOKEN'', optional ''TOKEN_FILE'', optional ''JOIN_URL'',
      with_default ''PEER_LISTEN_ADDR'' ''0.0.0.0'', optional ''PEER_ADVERTISE_HOSTNAME'',
      with_default ''ETCD_LISTEN_PORT'' ''2380'', optional ''ETCD_CLIENT_LISTEN_PORT'', optional ''PEER_API_LISTEN_PORT'',
      with_default ''AGENT_LISTEN_ADDR'' ''0.0.0.0'', optional ''AGENT_ADVERTISE_HOSTNAME'', optional ''AGENT_API_LISTEN_PORT'']"

text \<open>\<^verbatim>\<open>Hostname\<close> fields go through the function that \<^verbatim>\<open>LoadConfig\<close> passes. An error of any field is an error of the
  whole.\<close>

definition parse_registry_config ::
  "(string \<Rightarrow> env_field list \<Rightarrow> environment \<Rightarrow> environment outcome) \<Rightarrow> (string \<Rightarrow> 16 word outcome) \<Rightarrow> (string \<Rightarrow> addr outcome) \<Rightarrow>
   environment \<Rightarrow> config outcome" where
  "parse_registry_config parse to_port to_addr env =
     (case parse ''REGISTRY_'' registry_env_fields env of
        Inl err \<Rightarrow> Inl err
      | Inr v \<Rightarrow>
          (let addr = typed_value AddrZero to_addr v; host = typed_value zero_hostname parse_hostname v;
               port = typed_value 0 to_port v in
           if list_all (\<lambda>n. is_ok (addr n)) [''PEER_LISTEN_ADDR'', ''AGENT_LISTEN_ADDR'']
             \<and> list_all (\<lambda>n. is_ok (host n)) [''PEER_ADVERTISE_HOSTNAME'', ''AGENT_ADVERTISE_HOSTNAME'']
             \<and> list_all (\<lambda>n. is_ok (port n))
                 [''ETCD_LISTEN_PORT'', ''ETCD_CLIENT_LISTEN_PORT'', ''PEER_API_LISTEN_PORT'', ''AGENT_API_LISTEN_PORT'']
           then Inr
             \<lparr>cf_name = value_of v ''NAME'', cf_dir = value_of v ''DIR'', cf_initial_token = value_of v ''TOKEN'',
              cf_initial_token_file = value_of v ''TOKEN_FILE'', cf_join_url = value_of v ''JOIN_URL'',
              cf_peer_listen_addr = projr (addr ''PEER_LISTEN_ADDR''),
              cf_peer_advertise_hostname = projr (host ''PEER_ADVERTISE_HOSTNAME''),
              cf_etcd_listen_port = projr (port ''ETCD_LISTEN_PORT''),
              cf_etcd_client_listen_port = projr (port ''ETCD_CLIENT_LISTEN_PORT''),
              cf_peer_api_listen_port = projr (port ''PEER_API_LISTEN_PORT''),
              cf_agent_api_listen_addr = projr (addr ''AGENT_LISTEN_ADDR''),
              cf_agent_api_advertise_hostname = projr (host ''AGENT_ADVERTISE_HOSTNAME''),
              cf_agent_api_listen_port = projr (port ''AGENT_API_LISTEN_PORT'')\<rparr>
           else Inl (Failure ''parse error on field'')))"

definition load_registry_config ::
  "(string \<Rightarrow> env_field list \<Rightarrow> environment \<Rightarrow> environment outcome) \<Rightarrow> (string \<Rightarrow> 16 word outcome) \<Rightarrow> (string \<Rightarrow> addr outcome) \<Rightarrow>
   environment \<Rightarrow> (string \<Rightarrow> string outcome) \<Rightarrow> (string \<Rightarrow> string list outcome) \<Rightarrow> iface_addr list \<Rightarrow> config outcome" where
  "load_registry_config parse to_port to_addr env read lookup ifaces =
     load_config \<lparr>li_parsed = parse_registry_config parse to_port to_addr env, li_read_file = read, li_lookup_ip = lookup,
       li_interfaces = ifaces\<rparr>"

section \<open>A reader\<close>

definition read_port :: "string \<Rightarrow> 16 word outcome" where
  "read_port s = (case parse_uint 16 s of (n, None) \<Rightarrow> Inr (of_nat n) | (_, Some _) \<Rightarrow> Inl (Failure ''parse error''))"

definition read_addr :: "string \<Rightarrow> addr outcome" where
  "read_addr s = (case parse_addr s of None \<Rightarrow> Inl (Failure ''unable to parse IP'') | Some a \<Rightarrow> Inr a)"

lemma parse_uint_loop_digits: "snd (parse_uint_loop maxv n s) = None \<Longrightarrow> list_all is_digit s"
  by (induction maxv n s rule: parse_uint_loop.induct) (auto split: if_splits)

interpretation reference_typed_env: typed_env_parser read_environment read_port read_addr
proof
  show "read_port (show_nat n) = Inr (of_nat n)" if "n < 2 ^ 16" for n
    using that by (simp add: read_port_def parse_uint_show_nat)
  show "s \<noteq> [] \<and> list_all is_digit s" if "read_port s = Inr w" for s w
    using that parse_uint_loop_digits [of "2 ^ 16 - 1" 0 s]
    by (auto simp: read_port_def parse_uint_def split: prod.splits option.splits if_splits)
qed (simp add: read_addr_def)

section \<open>What a registry is configured with\<close>

definition any_address :: addr where
  "any_address = Addr4 (CHR 0x00) (CHR 0x00) (CHR 0x00) (CHR 0x00)"

text \<open>What is read when the ports, the listen addresses and the host of the agent API are not set.\<close>

definition configured :: "environment \<Rightarrow> string \<Rightarrow> hostname \<Rightarrow> config" where
  "configured env name h =
     \<lparr>cf_name = name, cf_dir = (case env ''REGISTRY_DIR'' of None \<Rightarrow> ''state'' | Some d \<Rightarrow> d),
      cf_initial_token = value_of env ''REGISTRY_TOKEN'', cf_initial_token_file = value_of env ''REGISTRY_TOKEN_FILE'',
      cf_join_url = value_of env ''REGISTRY_JOIN_URL'', cf_peer_listen_addr = any_address, cf_peer_advertise_hostname = h,
      cf_etcd_listen_port = 2380, cf_etcd_client_listen_port = 0, cf_peer_api_listen_port = 0,
      cf_agent_api_listen_addr = any_address, cf_agent_api_advertise_hostname = zero_hostname, cf_agent_api_listen_port = 0\<rparr>"

definition unset_variables :: "string list" where
  "unset_variables =
     [''PEER_LISTEN_ADDR'', ''ETCD_LISTEN_PORT'', ''ETCD_CLIENT_LISTEN_PORT'', ''PEER_API_LISTEN_PORT'', ''AGENT_LISTEN_ADDR'',
      ''AGENT_ADVERTISE_HOSTNAME'', ''AGENT_API_LISTEN_PORT'']"

context typed_env_parser
begin

lemma registry_values:
  assumes "parse ''REGISTRY_'' registry_env_fields env = Inr vals" "\<And>f. f \<in> set registry_env_fields \<Longrightarrow> env (''REGISTRY_'' @ ef_name f) \<noteq> Some []"
  shows "list_all (\<lambda>f. value_of vals (ef_name f) =
    (case env (''REGISTRY_'' @ ef_name f) of Some v \<Rightarrow> v | None \<Rightarrow> case ef_default f of None \<Rightarrow> [] | Some v \<Rightarrow> v)) registry_env_fields"
proof -
  have "distinct (map ef_name registry_env_fields)" by code_simp
  then show ?thesis
    using parse_field [OF assms(1) _ _ assms(2)] by (simp add: list_all_iff value_of_def split: option.split)
qed

lemma default_conversions: "to_addr ''0.0.0.0'' = Inr any_address" "to_port ''2380'' = Inr 2380"
proof -
  have "parse_addr ''0.0.0.0'' = Some any_address" unfolding any_address_def by code_simp
  then show "to_addr ''0.0.0.0'' = Inr any_address" by (simp add: addr_ok)
  have "show_nat 2380 = ''2380''" by code_simp
  then show "to_port ''2380'' = Inr 2380" using port_ok [of 2380] by simp
qed

text \<open>A registry that is told its name, the host to advertise and perhaps its directory, what it joins and
  a token.\<close>

lemma registry_config_read:
  assumes "env ''REGISTRY_NAME'' = Some name" "env ''REGISTRY_PEER_ADVERTISE_HOSTNAME'' = Some host" "parse_hostname host = Inr h"
    and "\<And>f. f \<in> set registry_env_fields \<Longrightarrow> env (''REGISTRY_'' @ ef_name f) \<noteq> Some []"
    and "\<And>n. n \<in> set unset_variables \<Longrightarrow> env (''REGISTRY_'' @ n) = None"
  shows "parse_registry_config parse to_port to_addr env = Inr (configured env name h)"
proof -
  obtain vals where vals: "parse ''REGISTRY_'' registry_env_fields env = Inr vals"
    by (rule parse_total [of registry_env_fields env "''REGISTRY_''"])
      (use assms(1) in \<open>auto simp: registry_env_fields_def with_default_def required_def optional_def\<close>)
  have host: "host \<noteq> []" using assms(3) by (auto simp: parse_hostname_def)
  note v = registry_values [OF vals assms(4), unfolded registry_env_fields_def with_default_def required_def optional_def, simplified]
  have unset: "env ''REGISTRY_PEER_LISTEN_ADDR'' = None" "env ''REGISTRY_ETCD_LISTEN_PORT'' = None"
    "env ''REGISTRY_ETCD_CLIENT_LISTEN_PORT'' = None" "env ''REGISTRY_PEER_API_LISTEN_PORT'' = None"
    "env ''REGISTRY_AGENT_LISTEN_ADDR'' = None" "env ''REGISTRY_AGENT_ADVERTISE_HOSTNAME'' = None"
    "env ''REGISTRY_AGENT_API_LISTEN_PORT'' = None"
    using assms(5) by (force simp: unset_variables_def)+
  have vs: "value_of vals ''NAME'' = name" "value_of vals ''DIR'' = (case env ''REGISTRY_DIR'' of None \<Rightarrow> ''state'' | Some d \<Rightarrow> d)" "value_of vals ''PEER_ADVERTISE_HOSTNAME'' = host"
    "value_of vals ''JOIN_URL'' = value_of env ''REGISTRY_JOIN_URL''" "value_of vals ''TOKEN'' = value_of env ''REGISTRY_TOKEN''"
    "value_of vals ''TOKEN_FILE'' = value_of env ''REGISTRY_TOKEN_FILE''"
    "value_of vals ''PEER_LISTEN_ADDR'' = ''0.0.0.0''" "value_of vals ''AGENT_LISTEN_ADDR'' = ''0.0.0.0''"
    "value_of vals ''AGENT_ADVERTISE_HOSTNAME'' = []" "value_of vals ''ETCD_LISTEN_PORT'' = ''2380''"
    "value_of vals ''ETCD_CLIENT_LISTEN_PORT'' = []" "value_of vals ''PEER_API_LISTEN_PORT'' = []"
    "value_of vals ''AGENT_API_LISTEN_PORT'' = []"
    using v unset assms(1,2) by (simp_all add: value_of_def [of env] split: option.split)
  show ?thesis
    by (simp add: parse_registry_config_def typed_value_def Let_def vals vs host assms(3) default_conversions configured_def)
qed

end

section \<open>Properties\<close>

text \<open>C23: a registry that is given its name, a host to advertise and, if it is to join another, that one's address
  and a token listens on all interfaces and advertises the host with the ports 2380 and 2381 for etcd, 2382
  for the other registries and 2383 for agents and observers; the token is that of the file, trimmed, if
  there is one. The variable that the shipped stacks set for the host of the agent API is not read.\<close>
theorem registry_configured:
  assumes "typed_env_parser parse to_port to_addr"
    and "env ''REGISTRY_NAME'' = Some name" "env ''REGISTRY_PEER_ADVERTISE_HOSTNAME'' = Some host" "parse_hostname host = Inr h"
    and "\<And>f. f \<in> set registry_env_fields \<Longrightarrow> env (''REGISTRY_'' @ ef_name f) \<noteq> Some []"
    and "\<And>n. n \<in> set unset_variables \<Longrightarrow> env (''REGISTRY_'' @ n) = None"
    and "if value_of env ''REGISTRY_TOKEN_FILE'' = [] then token = value_of env ''REGISTRY_TOKEN''
      else read (value_of env ''REGISTRY_TOKEN_FILE'') = Inr content \<and> token = trim_space content"
    and "value_of env ''REGISTRY_JOIN_URL'' = [] \<or> token \<noteq> []"
  shows "\<exists>c. load_registry_config parse to_port to_addr env read lookup ifaces = Inr c \<and> cf_name c = name
    \<and> cf_join_url c = value_of env ''REGISTRY_JOIN_URL'' \<and> cf_initial_token c = token
    \<and> peer_api_listen_host c = ''0.0.0.0:2382'' \<and> agent_api_listen_host c = ''0.0.0.0:2383''
    \<and> map (\<lambda>f. f c) [etcd_advertise_host, etcd_client_advertise_host, peer_api_advertise_host, agent_api_advertise_host] =
        map (host_with_port h) [2380, 2381, 2382, 2383]
    \<and> (\<forall>v. load_registry_config parse to_port to_addr (env(''REGISTRY_REGISTRY_ADVERTISE_HOSTNAME'' := v)) read lookup ifaces = Inr c)"
proof -
  have conf: "parse_registry_config parse to_port to_addr env' = Inr (configured env name h)"
    if "env' = env(''REGISTRY_REGISTRY_ADVERTISE_HOSTNAME'' := v) \<or> env' = env" for env' v
  proof -
    have names: "''REGISTRY_'' @ n \<noteq> ''REGISTRY_REGISTRY_ADVERTISE_HOSTNAME''" if "n \<in> ef_name ` set registry_env_fields \<union> set unset_variables" for n
      using that by (auto simp: registry_env_fields_def unset_variables_def with_default_def required_def optional_def)
    have "configured env' name h = configured env name h" using that by (auto simp: configured_def value_of_def)
    then show ?thesis
      using typed_env_parser.registry_config_read [OF assms(1), of env' name host h] assms(2-6) that names by auto
  qed
  have h: "hostname_is_valid h" using assms(4) by (rule parse_hostname_valid)
  define c where "c = default_ports (configured env name h\<lparr>cf_initial_token := token, cf_agent_api_advertise_hostname := h\<rparr>)"
  have "load_registry_config parse to_port to_addr env' read lookup ifaces = Inr c"
    if "env' = env(''REGISTRY_REGISTRY_ADVERTISE_HOSTNAME'' := v) \<or> env' = env" for env' v
    using conf [OF that] assms(7,8) h
    by (auto simp: load_registry_config_def load_config_def load_token_def default_hostnames_def configured_def c_def
        hostname_is_valid_def split: if_splits)
  moreover have "host_with_port (hostname_from_addr any_address) 2382 = ''0.0.0.0:2382''"
    "host_with_port (hostname_from_addr any_address) 2383 = ''0.0.0.0:2383''" by code_simp+
  ultimately show ?thesis
    by (intro exI [of _ c]) (auto simp: c_def configured_def default_ports_def peer_api_listen_host_def agent_api_listen_host_def
        etcd_advertise_host_def etcd_client_advertise_host_def peer_api_advertise_host_def agent_api_advertise_host_def)
qed

text \<open>The environments of src/stacks: the first registry, one that joins it, and an agent.\<close>

definition mgmt_environment :: environment where
  "mgmt_environment = map_of
     [(''REGISTRY_NAME'', ''mgmt''), (''REGISTRY_DIR'', ''/home/nonroot''), (''REGISTRY_PEER_ADVERTISE_HOSTNAME'', ''10.255.255.15''),
      (''REGISTRY_REGISTRY_ADVERTISE_HOSTNAME'', ''10.255.255.15'')]"

definition dc01_environment :: environment where
  "dc01_environment = map_of
     [(''REGISTRY_NAME'', ''dc01''), (''REGISTRY_DIR'', ''/home/nonroot''), (''REGISTRY_PEER_ADVERTISE_HOSTNAME'', ''10.255.255.197''),
      (''REGISTRY_REGISTRY_ADVERTISE_HOSTNAME'', ''10.255.255.197''), (''REGISTRY_JOIN_URL'', ''10.255.255.15:2382''),
      (''REGISTRY_TOKEN_FILE'', ''/run/secrets/registry-token'')]"

definition node_environment :: environment where
  "node_environment = map_of
     [(''AGENT_JOIN_URL'', ''10.255.255.15:2383''), (''AGENT_CA_FILE'', ''/run/secrets/ca-crt''),
      (''AGENT_CERTIFICATE'', ''/run/secrets/node-crt''), (''AGENT_KEY'', ''/run/secrets/node-key''), (''AGENT_DNS_BIND_ADDR'', ''0.0.0.0''),
      (''AGENT_EVENTS_LOG'', ''/var/log/ssle/events.json'')]"

definition sensible_environment :: "environment \<Rightarrow> bool" where
  "sensible_environment env \<longleftrightarrow> list_all (\<lambda>f. env (''REGISTRY_'' @ ef_name f) \<noteq> Some []) registry_env_fields
     \<and> list_all (\<lambda>n. env (''REGISTRY_'' @ n) = None) unset_variables"

theorem registry_configured_witness:
  "\<exists>c c'. load_registry_config read_environment read_port read_addr mgmt_environment (\<lambda>p. Inr []) (\<lambda>h. Inr []) [] = Inr c
    \<and> load_registry_config read_environment read_port read_addr dc01_environment (\<lambda>p. Inr ''secret'') (\<lambda>h. Inr []) [] = Inr c'
    \<and> cf_join_url c' = peer_api_advertise_host c
    \<and> node_environment ''AGENT_JOIN_URL'' = Some (agent_api_advertise_host c)"
proof -
  note configured = registry_configured [OF reference_typed_env.typed_env_parser_axioms]
  have e: "sensible_environment mgmt_environment" "sensible_environment dc01_environment" by code_simp+
  let ?h = "\<lparr>host_fqdn = [], host_addr = Addr4 (CHR 0x0A) (CHR 0xFF) (CHR 0xFF) (CHR 0x0F)\<rparr>"
  have h: "parse_hostname ''10.255.255.15'' = Inr ?h"
    "host_with_port ?h 2382 = ''10.255.255.15:2382''" "host_with_port ?h 2383 = ''10.255.255.15:2383''" by code_simp+
  obtain h' where h': "parse_hostname ''10.255.255.197'' = Inr h'"
    by (cases "parse_addr ''10.255.255.197''") (auto simp: parse_hostname_def)
  obtain c where "load_registry_config read_environment read_port read_addr mgmt_environment (\<lambda>p. Inr []) (\<lambda>h. Inr []) [] = Inr c"
    "peer_api_advertise_host c = ''10.255.255.15:2382''" "agent_api_advertise_host c = ''10.255.255.15:2383''"
    using configured [of mgmt_environment "''mgmt''" "''10.255.255.15''" ?h "[]" "\<lambda>p. Inr []" "[]" "\<lambda>h. Inr []" "[]"] e(1) h
    by (auto simp: sensible_environment_def list_all_iff) (auto simp: mgmt_environment_def value_of_def)
  moreover have "trim_space ''secret'' = ''secret''" by code_simp
  then obtain c' where "load_registry_config read_environment read_port read_addr dc01_environment (\<lambda>p. Inr ''secret'') (\<lambda>h. Inr []) [] = Inr c'"
    "cf_join_url c' = ''10.255.255.15:2382''"
    using configured [of dc01_environment "''dc01''" "''10.255.255.197''" h' "''secret''" "\<lambda>p. Inr ''secret''" "''secret''" "\<lambda>h. Inr []" "[]"] e(2) h'
    by (auto simp: sensible_environment_def list_all_iff) (auto simp: dc01_environment_def value_of_def)
  moreover have "node_environment ''AGENT_JOIN_URL'' = Some ''10.255.255.15:2383''" by code_simp
  ultimately show ?thesis by (intro exI [of _ c] exI [of _ c']) simp
qed

end
