(* ===== verification/Spec2Isabelle.thy ===== *)
theory Spec2Isabelle
  imports Onboarding Ownership ObserverRun Resolution RegistryMain RegEnv
begin

text \<open>
  SSLE-project01 is a service registry for containers. A cluster of registries (src/registry) keeps
  its data in an embedded etcd server. Agents (src/agent) run next to a Docker daemon, register the
  containers they admit and answer DNS queries for them; observers (src/prom-sd-observer) write the
  services of a datacenter to a file that Prometheus reads. Agents and observers are nodes: they are
  added by an administrator, hold a certificate of the registries and share src/node-utils.

  Notation. A Go string or byte slice is a \<open>string\<close> (8-bit characters), an \<^verbatim>\<open>int64\<close> an \<open>int\<close> with its
  bounds stated, an unsigned integer a word of its width, an optional protobuf field an \<open>option\<close>, a
  Go map an association list with distinct keys whose iteration order is a parameter. A call ends in
  an \<open>outcome\<close> (theory Prelude): a value, a gRPC status, another error, a panic or an exit of the
  process. State is passed explicitly; a handler takes the state of etcd and returns the next one.

  What is outside the repository is a parameter. etcd is the record \<open>'e etcd\<close> of its operations with
  three contracts, each of which extends the one before (theory Etcd): \<open>etcd_store\<close> says what the
  operations do when they succeed, \<open>etcd_atomic\<close> that they do nothing when they fail, \<open>etcd_live\<close> that
  they succeed; the executable store of EtcdStore satisfies all of them. X.509 certificates, Ed25519
  keys and PEM files are symbolic (X509), a TLS connection is the two sides' checks of each other's
  certificate (Servers). The key derivation, \<^verbatim>\<open>url.Parse\<close>, the network interfaces and Docker are function
  arguments, as are the clock and random bytes; the container registry client, the manifest parser
  and the Sigstore verifier are the record \<open>remote\<close> (Signature). The parser of command lines and that of
  environment variables are arguments with contracts, the locales \<open>command_parser\<close> (Commands),
  \<open>env_parser\<close> (Environment) and \<open>typed_env_parser\<close> (RegEnv), which adds ports and addresses to it; each
  theory also has a reader that keeps its contract.

  The theories, from the library to the components:

  \<^item> Prelude, GoLib, Utf8, Base64, Json, NetIP, Decoding: the parts of Go's standard library that the code
    rests on (strings, strconv, unicode/utf8, encoding/base64, encoding/json, net/netip, encoding/hex,
    encoding/pem, float64), with their round trips as interpretations of the locale \<open>codec\<close> or as lemmas.
  \<^item> Services: the messages of src/services as records, with the JSON of \<^verbatim>\<open>ServiceSpec\<close>.
  \<^item> Etcd, EtcdStore: the store's contracts and its reference implementation.
  \<^item> X509, Files: certificates, key pairs, their verification and the file system.
  \<^item> Schemas, RegConfig, RegState, RegUtils: src/registry/schemas, config, state and utils; RegEnv: the
    registry's configuration from the environment, with the variables that src/stacks sets.
  \<^item> AgentApi, NodeApi, ObserverApi, PeerApi: the gRPC handlers of src/registry/agent_api and
    peer_api; RegEtcd: src/registry/etcd; Servers: the two \<^verbatim>\<open>StartApiServer\<close> and \<^verbatim>\<open>NewPeerApiClient\<close>;
    RegistryMain: src/registry/main.go, with the start of a second registry that joins the first.
  \<^item> NodeUtils: src/node-utils; PromState: src/prom-sd-observer/state; AgentDns: src/agent/dns.go.
  \<^item> Signature: src/agent/signature.go; Agent: what src/agent/main.go does with one container or event, and
    the events log; AgentRun: the event loop, the start-up job, \<^verbatim>\<open>main\<close> and the clean-up as one process.
  \<^item> Cli: what the two subcommands of src/cmd/cmd do; Commands: the tree of commands and flags and what
    \<^verbatim>\<open>main\<close> does with a command line.
  \<^item> Startup: the configurations of agent and observer, read from the environment, and their start.
  \<^item> Renewal: the long run of one node against the registries; Onboarding: from the administrator's command
    line to the first call of the new node.
  \<^item> Resolution: from a container's start to the DNS answer for its service.
  \<^item> Cluster, Moves, Shared, Interleave, Guarantees, Ownership: the registries together (below);
    Observation: an observer that follows them; ObserverRun: its \<^verbatim>\<open>main\<close>, which does not wait for its watch.
  \<^item> Sample: a small cluster at which properties are instantiated.

  What the lemmas show. The context blocks on \<open>etcd_store\<close> and \<open>etcd_live\<close> give each operation an
  abstract meaning on the map from keys to values (\<open>stored_node\<close>, \<open>caller\<close>, \<open>matching\<close>, \<open>spec_at\<close>);
  the properties then say what a handler answers and what it does to the store, or follow a value
  through several components: the services in the store to the observer's file, a certificate from its
  issue to the caller that it authenticates, a token from one registry to the authorities of another,
  a node from the administrator's command to its first start, an annotation of an image to the end of
  the agent.

  Many clients at once. \<open>registry_step\<close> (Cluster) is the abstract machine of the cluster: the seven ways
  in which a handler's transactions and the passing of time change keys and leases. \<open>cluster_ok\<close> is its
  invariant. The locale \<open>moving_store\<close> (Moves) walks through the handlers once, for any relation between the
  store before and after that each request to etcd keeps. Theory Shared shows with it, in the locale
  \<open>stepped_store\<close>, that a handler only takes steps of a machine even if others act between any two of its requests,
  for any step relation that keeps the stored nodes and allows the update of a lease, and in \<open>shared_store\<close> that the
  machine of Cluster is one. Interleave puts the others there as a function \<open>env\<close> that runs before every request
  (\<open>interleaved\<close>, locales \<open>stepping_store\<close> for any step relation and \<open>interleaved_store\<close> for that of Cluster), collects all
  requests that the servers dispatch (\<open>serve\<close>), and shows that every history is a path of the machine. Guarantees
  states what follows for all histories and two behaviours at the edge of the invariants. Ownership has a second
  machine, \<open>acting_step\<close>, which knows whose registrations and deregistrations are which and lets them carry any bytes;
  its locale \<open>guarded_store\<close> shows that a service changes by requests of its own node only. In Observation
  \<open>watched\<close> is a path of the machine with the events that etcd's watch sends for it; the targets of an
  observer that applies them and one bulk answer are \<open>targets_of\<close> the store. \<open>observing_step\<close> (ObserverRun) runs the
  two goroutines of the observer beside the machine. \<open>session_step\<close> (Renewal) adds one node to the machine: its
  clock, its files, its connection and its polls, with restarts, also in the middle of a renewal's writes;
  \<open>session_ok\<close> is the invariant that keeps its certificate ahead of the clock. All clocks show one time there.
  \<open>agent_main\<close> (AgentRun) is one run of the agent: its two goroutines and its clean-up are shuffled in every way, for
  nothing stops the goroutines before the process exits.

  Bounds. \<^verbatim>\<open>GetNodeLease\<close> tries five times, as the code does, and makes at most four requests each time;
  against a server that answers the first round suffices. Requests to etcd are below \<open>2 ^ 20\<close> bytes,
  below its default limit; fewer than \<open>2 ^ 62\<close> leases are live. The JSON parser has fuel for twice the
  length of its input, and each of its calls consumes input or is followed by one that does. The PEM
  decoder makes at most one attempt per byte, and each consumes a begin mark. Numbers pass through
  float64 exactly up to \<open>2 ^ 53\<close>.

  Assumed: outside theory Ownership the strings of requests are valid UTF-8. The messages are declared in proto2,
  for which Go's protobuf does not check that.

  Not modelled: the generated protobuf and gRPC code and the transport itself, logging, locks (the
  operations that a mutex makes atomic are single steps here), the packing of DNS messages and the
  reading of resolv.conf, and the embedded etcd server, of which only its client's view is used. The exact texts of errors that the
  standard library makes are shortened.
\<close>

section \<open>Queries by prefix\<close>

text \<open>The range from a prefix to its \<^verbatim>\<open>PrefixEnd\<close> holds exactly the keys with that prefix, when the
  prefix does not end in the byte 255.\<close>
theorem prefix_query_exact:
  assumes "p \<noteq> []" "of_char (last p) < (255 :: nat)"
  shows "in_key_range (prefix_request p n) k \<longleftrightarrow> prefix p k"
  by (rule in_prefix_range [OF assms])

theorem prefix_query_exact_witness:
  "\<forall>k. in_key_range (prefix_request ''dcsvc/dc1/'' 0) k \<longleftrightarrow> prefix ''dcsvc/dc1/'' k"
  by (intro allI prefix_query_exact) simp_all

text \<open>A prefix that ends in the byte 255 is not cut there: its range also holds keys without the
  prefix, such as the one with the byte before incremented.\<close>
theorem prefix_query_overlaps:
  assumes "of_char c < (255 :: nat)"
  shows "in_key_range (prefix_request (q @ [c, CHR 0xFF]) n) (q @ [byte_inc c])
    \<and> \<not> prefix (q @ [c, CHR 0xFF]) (q @ [byte_inc c])"
proof -
  have "prefix_end (q @ [c, CHR 0xFF]) = q @ [byte_inc c, CHR 0xFF]"
    using assms by (simp add: prefix_end_def)
  moreover have "c < byte_inc c" using assms by (rule byte_less_byte_inc)
  ultimately show ?thesis
    by (auto simp: in_key_range_def prefix_request_def append_eq_Cons_conv less_imp_le)
qed

theorem prefix_query_overlaps_witness:
  "in_key_range (prefix_request [CHR ''a'', CHR 0xFF] 0) ''b''"
proof -
  have "byte_inc (CHR ''a'') = CHR ''b''" by code_simp
  then show ?thesis using prefix_query_overlaps [of "CHR ''a''" "[]" 0] by simp
qed

section \<open>Identity and leases\<close>

text \<open>C9: authentication decides by the store alone and does not change it: the caller is the node that the
  first unit and the common name of its certificate select, if the second unit is the role asked
  for; a caller without a certificate makes the handler panic.\<close>
theorem authentication_refines_caller:
  assumes "etcd_live E ok kvs leases" "ok e"
  shows "(\<exists>e'. authenticate_node E ctx role e = (caller (kvs e) ctx role, e')
      \<and> ok e' \<and> kvs e' = kvs e \<and> leases e' = leases e)
    \<and> (\<not> is_ok (extract_peer_certificate ctx) \<longrightarrow> is_panic (fst (authenticate_node E ctx role e)))"
proof
  show "\<exists>e'. authenticate_node E ctx role e = (caller (kvs e) ctx role, e')
    \<and> ok e' \<and> kvs e' = kvs e \<and> leases e' = leases e"
    using etcd_live.authenticate_node_total [OF assms, of ctx role] by metis
  show "\<not> is_ok (extract_peer_certificate ctx) \<longrightarrow> is_panic (fst (authenticate_node E ctx role e))"
    by (cases "extract_peer_certificate ctx") (simp_all add: authenticate_node_def authenticate_from_certificate_def)
qed

theorem authentication_refines_caller_witness:
  "(\<exists>e'. authenticate_node store_etcd (Some agent_peer) ''Agents'' sample_store = (Inr sample_node, e'))
   \<and> is_panic (fst (authenticate_node store_etcd None ''Agents'' sample_store))"
  using authentication_refines_caller [OF etcd_ref_live sample_store_wf, of "Some agent_peer" "''Agents''"]
    authentication_refines_caller [OF etcd_ref_live sample_store_wf, of None "''Agents''"]
    sample_caller(1)
  by (auto simp: agent_certificate_ou_def extract_peer_certificate_def)

text \<open>C16: \<^verbatim>\<open>GetNodeLease\<close> finds or creates a live lease that the node's key names, touches no other key and
  revokes no lease; asked again, it answers the same lease and changes nothing.\<close>
theorem node_lease_stable:
  assumes "etcd_live E ok kvs leases" "ok e" "card (leases e) < 2 ^ 62"
    and "length (lease_key dc name) < 2 ^ 17"
  shows "\<exists>l e1 e2. get_node_lease E dc name e = (Inr l, e1) \<and> ok e1 \<and> l \<in> leases e1 \<and> leases e \<subseteq> leases e1
    \<and> lease_stored (kvs e1) (lease_key dc name) l \<and> (\<forall>k. k \<noteq> lease_key dc name \<longrightarrow> kvs e1 k = kvs e k)
    \<and> get_node_lease E dc name e1 = (Inr l, e2) \<and> kvs e2 = kvs e1 \<and> leases e2 = leases e1"
proof -
  obtain l e1 where lease: "get_node_lease E dc name e = (Inr l, e1)"
    using etcd_live.get_node_lease_total [OF assms] .
  note r = etcd_store.get_node_lease_result [OF etcd_live.axioms(1) [OF assms(1)] assms(2) lease]
  obtain e2 where "get_node_lease E dc name e1 = (Inr l, e2)" "kvs e2 = kvs e1" "leases e2 = leases e1"
    using etcd_live.get_node_lease_again [OF assms(1) r(1,2,5)] .
  with lease r show ?thesis by blast
qed

theorem node_lease_stable_witness:
  "\<exists>l e1 e2. get_node_lease store_etcd ''dc1'' ''n1'' sample_store = (Inr l, e1) \<and> l \<in> store_leases e1
    \<and> get_node_lease store_etcd ''dc1'' ''n1'' e1 = (Inr l, e2)"
proof -
  have "lease_key ''dc1'' ''n1'' = ''node_lease/dc1/n1''" by code_simp
  then have "length (lease_key ''dc1'' ''n1'') < 2 ^ 17" by simp
  from node_lease_stable [OF etcd_ref_live sample_store_wf sample_empty this] show ?thesis by blast
qed

section \<open>Renewal across registry and node\<close>

text \<open>When the registry renews a node's certificate and the node applies the answer, the node's new
  credentials stand for the same stored node in the same role, last seven more days, and the node
  uses the addresses of the answer; the node's record is one that \<^verbatim>\<open>AddNode\<close> stored under its own name,
  in a datacenter with a name shorter than the role.\<close>
theorem renewal_keeps_identity:
  assumes "etcd_live E ok kvs leases" "ok e"
    and "extract_peer_certificate ctx = Inr c" "cert_node (kvs e) c = Some (role, node)"
    and "pn_ou (crt_subject c) = [ns_datacenter node, role]" "pn_cn (crt_subject c) = ns_name node"
    and "utf8_valid (ns_datacenter node)" "utf8_valid (ns_name node)" "utf8_valid role"
    and "length (ns_datacenter node) < length role" "length role < 100"
    and "\<bar>crt_not_after c - now\<bar> < 2 ^ 62" "crt_not_after c - now < renew_period"
    and "rb_resolver (nu_resolver st) = Some old"
  shows "\<exists>res e' st' f' c'. config_request E rst seed now issued ctx e = (Inr res, e')
    \<and> get_registry_config (Inr res) st f = (Inr res, st', f') \<and> kp_leaf (nu_credentials st') = c'
    \<and> cert_node (kvs e') c' = Some (role, node)
    \<and> crt_not_after c' = whole_second (issued + node_certificate_expiry)
    \<and> rb_resolver (nu_resolver st') = Some (cfg_registry_addrs res)"
proof -
  obtain c' where c': "create_node_crt seed issued rst (ns_datacenter node) (ns_name node) role =
      Inr (CertPem c', KeyPem (EdPrivate seed))"
    "crt_subject c' = \<lparr>pn_organization = ssle_organization, pn_ou = der_sorted [role, ns_datacenter node], pn_cn = ns_name node\<rparr>"
    "crt_public c' = EdPublic seed" "crt_not_after c' = whole_second (issued + node_certificate_expiry)"
    by (rule create_node_crt_ok [OF assms(7-9), where seed = seed and now = issued and st = rst]) (rule that)
  have ou: "pn_ou (crt_subject c') = [ns_datacenter node, role]"
    using c'(2) assms(10,11) by (simp add: units_short_datacenter)
  obtain e' res where req: "config_request E rst seed now issued ctx e = (Inr res, e')" "kvs e' = kvs e"
    "cfg_certificate res = Some (CertPem c')" "cfg_key res = Some (KeyPem (EdPrivate seed))"
    using etcd_live.config_request_total [OF assms(1-4) c'(1) assms(12)] assms(13) by auto
  have "x509_key_pair (CertPem c') (KeyPem (EdPrivate seed)) = Inr \<lparr>kp_leaf = c', kp_private = EdPrivate seed\<rparr>"
    using c'(3) by (simp add: x509_key_pair_def)
  then obtain st' f' where st': "get_registry_config (Inr res) st f = (Inr res, st', f')"
    "nu_credentials st' = \<lparr>kp_leaf = c', kp_private = EdPrivate seed\<rparr>"
    "rb_resolver (nu_resolver st') = Some (cfg_registry_addrs res)"
    by (rule get_registry_config_credentials [OF req(3,4) _ assms(14)])
  have "cert_node (kvs e') c' = Some (role, node)"
    using assms(4-6) ou c'(2) req(2) by (simp add: cert_node_def)
  with req st' c'(4) show ?thesis by auto
qed

theorem renewal_keeps_identity_witness:
  "\<exists>res e' st' f'. config_request store_etcd sample_state ''key'' 0 0 (Some agent_peer) sample_store = (Inr res, e')
    \<and> get_registry_config (Inr res) sample_node_state sample_files = (Inr res, st', f')
    \<and> cert_node (store_kvs e') (kp_leaf (nu_credentials st')) = Some (''Agents'', sample_node)"
proof -
  let ?c = "sample_cert ''n1'' ''Agents'' 0"
  have c: "extract_peer_certificate (Some agent_peer) = Inr ?c"
    by (simp add: extract_peer_certificate_def agent_peer_def sample_peer_def)
  have ou: "pn_ou (crt_subject ?c) = [ns_datacenter sample_node, ''Agents'']" "pn_cn (crt_subject ?c) = ns_name sample_node"
    by (simp_all add: sample_cert_def sample_node_def)
  have utf: "utf8_valid (ns_datacenter sample_node)" "utf8_valid (ns_name sample_node)" "utf8_valid ''Agents''"
    using sample_nodes_valid(1) by (auto simp: node_valid_def intro: utf8_valid_ascii)
  have len: "length (ns_datacenter sample_node) < length ''Agents''" "length ''Agents'' < 100"
    by (simp_all add: sample_node_def)
  have t: "\<bar>crt_not_after ?c - 0\<bar> < 2 ^ 62" "crt_not_after ?c - 0 < renew_period"
    by (simp_all add: sample_cert_def renew_period_def node_certificate_expiry_def day_def second_def)
  have r: "rb_resolver (nu_resolver sample_node_state) = Some [''a:1'']" by (simp add: sample_node_state_def)
  from renewal_keeps_identity [OF etcd_ref_live sample_store_wf c sample_cert_node ou utf len t r,
      of sample_state "''key''" 0 sample_files]
  show ?thesis by blast
qed

end
